(* ===== verification/Prelude.thy ===== *)
theory Prelude
  imports Main "HOL-Library.Word"
begin

text \<open>
  The vocabulary every component of the development shares: the machine integers of the
  source (\<open>u8\<close>, \<open>u32\<close>, \<open>u64\<close>, \<open>u128\<close>) as words of that width, byte strings, the two
  build profiles of Rust with the arithmetic that depends on them, and the fixed-width
  byte encodings (\<open>to_be_bytes\<close>, \<open>to_le_bytes\<close>, \<open>from_be_bytes\<close>) with their round trips.
  The collections \<open>act_simps\<close> and \<open>wire_simps\<close> are filled by the later theories.
\<close>

unbundle bit_operations_syntax

named_theorems act_simps \<open>equations that run an action of the state and error monad\<close>
named_theorems wire_simps \<open>lengths and round trips of byte encodings\<close>

type_synonym u8 = "8 word"
type_synonym u32 = "32 word"
type_synonym u64 = "64 word"
type_synonym u128 = "128 word"
type_synonym bytes = "u8 list"

section \<open>Word bounds\<close>

lemma unat_u8: "unat (w :: u8) < 256"
  using unsigned_less [of w, where 'a = nat] by simp

lemma unat_u32: "unat (w :: u32) < 4294967296"
  using unsigned_less [of w, where 'a = nat] by simp

lemma unat_u64: "unat (w :: u64) < 18446744073709551616"
  using unsigned_less [of w, where 'a = nat] by simp

section \<open>Byte strings\<close>

text \<open>A Rust byte-string literal, or the UTF-8 bytes of an ASCII literal.\<close>

definition bytes_of :: "string \<Rightarrow> bytes" where
  "bytes_of cs = map of_char cs"

lemma length_bytes_of [simp]: "length (bytes_of cs) = length cs"
  by (simp add: bytes_of_def)

lemma bytes_of_simps:
  "bytes_of [] = []"
  "bytes_of (c # cs) = of_char c # bytes_of cs"
  by (simp_all add: bytes_of_def)

section \<open>Little- and big-endian encodings\<close>

fun le_bytes :: "nat \<Rightarrow> nat \<Rightarrow> bytes" where
  "le_bytes 0 n = []"
| "le_bytes (Suc k) n = word_of_nat n # le_bytes k (n div 256)"

fun le_val :: "bytes \<Rightarrow> nat" where
  "le_val [] = 0"
| "le_val (b # bs) = unat b + 256 * le_val bs"

lemma length_le_bytes [simp]: "length (le_bytes k n) = k"
  by (induction k arbitrary: n) auto

lemma le_val_bound: "le_val bs < 256 ^ length bs"
proof (induction bs)
  case (Cons b bs)
  have "unat b < 256"
    by (rule unat_u8)
  moreover from Cons.IH have "256 * (le_val bs + 1) \<le> 256 * 256 ^ length bs"
    by (intro mult_le_mono) auto
  ultimately show ?case by simp
qed simp

lemma le_val_le_bytes: "le_val (le_bytes k n) = n mod 256 ^ k"
proof (induction k arbitrary: n)
  case (Suc k)
  have "n mod 256 ^ Suc k = n mod (256 * 256 ^ k)"
    by simp
  also have "\<dots> = 256 * (n div 256 mod 256 ^ k) + n mod 256"
    by (rule mod_mult2_eq)
  finally show ?case
    using Suc.IH [of "n div 256"] by (simp add: unat_of_nat)
qed simp

lemma le_bytes_le_val: "le_bytes (length bs) (le_val bs) = bs"
proof (induction bs)
  case (Cons b bs)
  have "unat b < 256"
    by (rule unat_u8)
  then have "(unat b + 256 * le_val bs) div 256 = le_val bs"
    by simp
  moreover have "(word_of_nat (unat b + 256 * le_val bs) :: u8) = b"
    unfolding word_unat_eq_iff unat_of_nat using \<open>unat b < 256\<close> by simp
  ultimately show ?case
    using Cons.IH by simp
qed simp

definition u64_to_le_bytes :: "u64 \<Rightarrow> bytes" where
  "u64_to_le_bytes w = le_bytes 8 (unat w)"

definition u64_to_be_bytes :: "u64 \<Rightarrow> bytes" where
  "u64_to_be_bytes w = rev (le_bytes 8 (unat w))"

definition u32_to_be_bytes :: "u32 \<Rightarrow> bytes" where
  "u32_to_be_bytes w = rev (le_bytes 4 (unat w))"

definition u64_from_be_bytes :: "bytes \<Rightarrow> u64" where
  "u64_from_be_bytes bs = word_of_nat (le_val (rev bs))"

definition u32_from_be_bytes :: "bytes \<Rightarrow> u32" where
  "u32_from_be_bytes bs = word_of_nat (le_val (rev bs))"

lemma length_word_bytes [simp, wire_simps]:
  "length (u64_to_le_bytes w) = 8"
  "length (u64_to_be_bytes w) = 8"
  "length (u32_to_be_bytes v) = 4"
  by (simp_all add: u64_to_le_bytes_def u64_to_be_bytes_def u32_to_be_bytes_def)

lemma u64_be_roundtrip [simp, wire_simps]: "u64_from_be_bytes (u64_to_be_bytes w) = w"
  using unat_u64 [of w]
  by (simp add: u64_from_be_bytes_def u64_to_be_bytes_def le_val_le_bytes)

lemma u32_be_roundtrip [simp, wire_simps]: "u32_from_be_bytes (u32_to_be_bytes w) = w"
  using unat_u32 [of w]
  by (simp add: u32_from_be_bytes_def u32_to_be_bytes_def le_val_le_bytes)

lemma u64_be_parse: "length bs = 8 \<Longrightarrow> u64_to_be_bytes (u64_from_be_bytes bs) = bs"
  using le_val_bound [of "rev bs"] le_bytes_le_val [of "rev bs"]
  by (simp add: u64_from_be_bytes_def u64_to_be_bytes_def unat_of_nat)

lemma u32_be_parse: "length bs = 4 \<Longrightarrow> u32_to_be_bytes (u32_from_be_bytes bs) = bs"
  using le_val_bound [of "rev bs"] le_bytes_le_val [of "rev bs"]
  by (simp add: u32_from_be_bytes_def u32_to_be_bytes_def unat_of_nat)

lemma u64_le_inj: "u64_to_le_bytes v = u64_to_le_bytes w \<longleftrightarrow> v = w"
proof
  assume "u64_to_le_bytes v = u64_to_le_bytes w"
  then have "le_val (u64_to_le_bytes v) = le_val (u64_to_le_bytes w)"
    by simp
  then show "v = w"
    using unat_u64 [of v] unat_u64 [of w]
    by (simp add: u64_to_le_bytes_def le_val_le_bytes word_unat_eq_iff)
qed simp

section \<open>Build profiles and integer arithmetic\<close>

text \<open>
  Rust's \<open>+\<close>, \<open>-\<close> and \<open><<\<close> panic on overflow when overflow checks are compiled in (the
  default of \<open>cargo build\<close> and \<open>cargo test\<close>) and wrap when they are not (\<open>--release\<close>).
  The source uses both kinds of build, so the profile is an argument of every operation
  that uses the unchecked operators. \<open>None\<close> is the panic.
\<close>

datatype profile = Debug | Release

definition u64_add :: "profile \<Rightarrow> u64 \<Rightarrow> u64 \<Rightarrow> u64 option" where
  "u64_add prof a b =
     (if unat a + unat b < 2 ^ 64 then Some (a + b)
      else if prof = Debug then None else Some (a + b))"

definition u64_sub :: "profile \<Rightarrow> u64 \<Rightarrow> u64 \<Rightarrow> u64 option" where
  "u64_sub prof a b =
     (if b \<le> a then Some (a - b) else if prof = Debug then None else Some (a - b))"

text \<open>A shift of a \<open>u128\<close> by \<open>n\<close>: with checks off the amount is taken modulo 128.\<close>

definition u128_shl :: "profile \<Rightarrow> u128 \<Rightarrow> u64 \<Rightarrow> u128 option" where
  "u128_shl prof x n =
     (if unat n < 128 then Some (push_bit (unat n) x)
      else if prof = Debug then None else Some (push_bit (unat n mod 128) x))"

definition u64_checked_add :: "u64 \<Rightarrow> u64 \<Rightarrow> u64 option" where
  "u64_checked_add a b = (if unat a + unat b < 2 ^ 64 then Some (a + b) else None)"

definition u64_saturating_sub :: "u64 \<Rightarrow> u64 \<Rightarrow> u64" where
  "u64_saturating_sub a b = (if b \<le> a then a - b else 0)"

definition u64_max :: u64 where
  "u64_max = - 1"

lemma unat_u64_max: "unat u64_max = 2 ^ 64 - 1"
  by (simp add: u64_max_def unsigned_minus_1_eq_mask mask_eq_exp_minus_1)

lemma u64_eq_max_iff: "w = u64_max \<longleftrightarrow> unat w = 2 ^ 64 - 1"
  by (simp only: word_unat_eq_iff unat_u64_max)

lemma unat_plus_u64: "unat a + unat b < 2 ^ 64 \<Longrightarrow> unat (a + b :: u64) = unat a + unat b"
  by (simp add: unat_word_ariths)

lemma unat_suc_u64: "unat w + 1 < 2 ^ 64 \<Longrightarrow> unat (w + 1 :: u64) = unat w + 1"
  using unat_plus_u64 [of w 1] by simp

lemma unat_minus_u64: "b \<le> a \<Longrightarrow> unat (a - b :: u64) = unat a - unat b"
  by (simp add: unat_sub)

lemma u64_add_no_overflow:
  "unat a + unat b < 2 ^ 64 \<Longrightarrow> u64_add prof a b = Some (a + b)"
  by (simp add: u64_add_def)

lemma u64_sub_no_underflow: "b \<le> a \<Longrightarrow> u64_sub prof a b = Some (a - b)"
  by (simp add: u64_sub_def)

lemma u128_shl_in_range: "unat n < 128 \<Longrightarrow> u128_shl prof x n = Some (push_bit (unat n) x)"
  by (simp add: u128_shl_def)

lemma u64_add_Some: "u64_add prof a b = Some c \<Longrightarrow> c = a + b"
  by (auto simp: u64_add_def split: if_splits)

lemma u64_add_Release: "u64_add Release a b = Some (a + b)"
  by (simp add: u64_add_def)

lemma u64_checked_add_Some:
  "u64_checked_add a b = Some c \<Longrightarrow> c = a + b \<and> unat c = unat a + unat b"
  by (auto simp: u64_checked_add_def unat_plus_u64 split: if_splits)

lemma u64_checked_add_one_None: "u64_checked_add w 1 = None \<longleftrightarrow> w = u64_max"
  using unat_u64 [of w] by (auto simp: u64_checked_add_def u64_eq_max_iff)

lemma unat_u64_saturating_sub:
  "unat (u64_saturating_sub a b) = unat a - unat b"
  by (auto simp: u64_saturating_sub_def unat_minus_u64 word_le_nat_alt)

end
