(* ===== verification/Message_Type.thy ===== *)
theory Message_Type
  imports Prelude
begin

text \<open>
  The message-type byte of the wire protocol (\<open>enum MessageType\<close>, src/src/protocol/mod.rs):
  its five values, the byte of each, the display name and the predicates on it. The
  parser \<open>TryFrom<u8>\<close> returns an error value and is in theory \<open>Wire\<close>.
\<close>

datatype message_type = HandshakeInit | HandshakeResp | DataPayload | Heartbeat | Close

definition message_type_name :: "message_type \<Rightarrow> bytes" where
  "message_type_name t = bytes_of (case t of
     HandshakeInit \<Rightarrow> ''HandshakeInit''
   | HandshakeResp \<Rightarrow> ''HandshakeResp''
   | DataPayload \<Rightarrow> ''DataPayload''
   | Heartbeat \<Rightarrow> ''Heartbeat''
   | Close \<Rightarrow> ''Close'')"

fun as_u8 :: "message_type \<Rightarrow> u8" where
  "as_u8 HandshakeInit = 0x01"
| "as_u8 HandshakeResp = 0x02"
| "as_u8 DataPayload = 0x03"
| "as_u8 Heartbeat = 0x04"
| "as_u8 Close = 0x05"

definition mt_is_handshake :: "message_type \<Rightarrow> bool" where
  "mt_is_handshake t = (case t of HandshakeInit \<Rightarrow> True | HandshakeResp \<Rightarrow> True | _ \<Rightarrow> False)"

definition mt_is_handshake_init :: "message_type \<Rightarrow> bool" where
  "mt_is_handshake_init t = (t = HandshakeInit)"

definition mt_is_handshake_resp :: "message_type \<Rightarrow> bool" where
  "mt_is_handshake_resp t = (t = HandshakeResp)"

definition mt_is_data :: "message_type \<Rightarrow> bool" where
  "mt_is_data t = (t = DataPayload)"

definition mt_is_heartbeat :: "message_type \<Rightarrow> bool" where
  "mt_is_heartbeat t = (t = Heartbeat)"

definition mt_is_close :: "message_type \<Rightarrow> bool" where
  "mt_is_close t = (t = Close)"

lemmas mt_predicates =
  mt_is_handshake_def mt_is_handshake_init_def mt_is_handshake_resp_def
  mt_is_data_def mt_is_heartbeat_def mt_is_close_def

text \<open>
  The five values as an enumeration, so that a quantifier over message types is
  decided by evaluation.
\<close>

instantiation message_type :: enum
begin

definition enum_message_type :: "message_type list" where
  "enum_message_type = [HandshakeInit, HandshakeResp, DataPayload, Heartbeat, Close]"

definition enum_all_message_type :: "(message_type \<Rightarrow> bool) \<Rightarrow> bool" where
  "enum_all_message_type P \<longleftrightarrow>
     P HandshakeInit \<and> P HandshakeResp \<and> P DataPayload \<and> P Heartbeat \<and> P Close"

definition enum_ex_message_type :: "(message_type \<Rightarrow> bool) \<Rightarrow> bool" where
  "enum_ex_message_type P \<longleftrightarrow>
     P HandshakeInit \<or> P HandshakeResp \<or> P DataPayload \<or> P Heartbeat \<or> P Close"

instance
proof
  show "(UNIV :: message_type set) = set enum_class.enum"
    by (auto simp: enum_message_type_def) (metis message_type.exhaust)
  show "distinct (enum_class.enum :: message_type list)"
    by (simp add: enum_message_type_def)
  show "enum_class.enum_all P \<longleftrightarrow> Ball UNIV P" for P :: "message_type \<Rightarrow> bool"
    by (auto simp: enum_all_message_type_def) (metis message_type.exhaust)
  show "enum_class.enum_ex P \<longleftrightarrow> Bex UNIV P" for P :: "message_type \<Rightarrow> bool"
    by (auto simp: enum_ex_message_type_def) (metis message_type.exhaust)
qed

end

lemma as_u8_inject [simp]: "as_u8 s = as_u8 t \<longleftrightarrow> s = t"
  by (cases s; cases t) simp_all

text \<open>The message types partition: exactly one of the four classes holds of each.\<close>

lemma mt_classes_exclusive:
  "length (filter (\<lambda>p. p t) [mt_is_handshake, mt_is_data, mt_is_heartbeat, mt_is_close]) = 1"
  by (cases t) (simp_all add: mt_predicates)

end
