(* ===== verification/Errors.thy ===== *)
theory Errors
  imports Message_Type
begin

text \<open>
  Failures as values, and the actions that can fail. The source's functions return
  \<open>anyhow::Result\<close>: every \<open>anyhow!\<close> and every \<open>?\<close> site is a constructor of \<open>terror\<close>, carrying
  the data its message prints. A panic also ends the function early but is not an error
  value that a caller can match on, so it is a constructor of its own in \<open>fault\<close>.
  An \<open>act\<close> over a state \<open>'s\<close> is a \<open>&mut self\<close> method: it returns the state it leaves
  behind even when it fails.
\<close>

datatype terror =
    Io
  | UnknownMessageType u8
  | BufferTooShort nat
  | FrameLengthMismatch nat nat
  | FrameTooShort nat
  | FrameTooLarge nat
  | ReplayTooOld u64 u64
  | ReplayDuplicate u64
  | PrivateKeyHex
  | PrivateKeyHexLength nat
  | PrivateKeyLength nat
  | PublicKeyHex
  | PublicKeyLength nat
  | AeadEncrypt
  | NonceOverflow
  | NonceOrder u64 u64
  | AeadDecrypt
  | ClientKeyLength nat
  | ServerKeyLength nat
  | HkdfClient
  | HkdfServer
  | ExpectedHandshakeInit message_type
  | InitPayloadSize
  | ExpectedHandshakeResp message_type
  | RespPayloadSize
  | BadHandshakeAck
  | ExpectedDataReply message_type
  | InvalidUtf8
  | TimedOut
  | VerificationFailed nat

datatype panic = ArithmeticOverflow | SliceLength | AssertionFailed | UnwrapFailed | ExplicitPanic

datatype fault = Err terror | Panic panic

type_synonym 'a result = "fault + 'a"

type_synonym ('s, 'a) act = "'s \<Rightarrow> 's \<times> 'a result"

definition ret :: "'a \<Rightarrow> ('s, 'a) act" where
  "ret x = (\<lambda>s. (s, Inr x))"

definition throw :: "fault \<Rightarrow> ('s, 'a) act" where
  "throw e = (\<lambda>s. (s, Inl e))"

text \<open>Sequencing with the early return of \<open>?\<close>.\<close>

definition bindA :: "('s, 'a) act \<Rightarrow> ('a \<Rightarrow> ('s, 'b) act) \<Rightarrow> ('s, 'b) act" where
  "bindA m k = (\<lambda>s. case m s of (s', Inl e) \<Rightarrow> (s', Inl e) | (s', Inr x) \<Rightarrow> k x s')"

definition modifyA :: "('s \<Rightarrow> 's) \<Rightarrow> ('s, unit) act" where
  "modifyA f = (\<lambda>s. (f s, Inr ()))"

definition getsA :: "('s \<Rightarrow> 'a) \<Rightarrow> ('s, 'a) act" where
  "getsA f = (\<lambda>s. (s, Inr (f s)))"

text \<open>A stateless fallible computation used inside an action.\<close>

definition liftA :: "'a result \<Rightarrow> ('s, 'a) act" where
  "liftA r = (\<lambda>s. (s, r))"

text \<open>An arithmetic operation that panics where it is \<open>None\<close>.\<close>

definition arithA :: "'a option \<Rightarrow> ('s, 'a) act" where
  "arithA v = (\<lambda>s. (s, case v of None \<Rightarrow> Inl (Panic ArithmeticOverflow) | Some x \<Rightarrow> Inr x))"

text \<open>A method call on a field of the state: \<open>self.field.method()\<close>.\<close>

definition onA :: "('s \<Rightarrow> 'f) \<Rightarrow> (('f \<Rightarrow> 'f) \<Rightarrow> 's \<Rightarrow> 's) \<Rightarrow> ('f, 'a) act \<Rightarrow> ('s, 'a) act" where
  "onA sel upd m = (\<lambda>s. case m (sel s) of (x, r) \<Rightarrow> (upd (\<lambda>_. x) s, r))"

text \<open>\<open>self.field += k\<close>.\<close>

definition add_assign ::
  "profile \<Rightarrow> ('s \<Rightarrow> u64) \<Rightarrow> ((u64 \<Rightarrow> u64) \<Rightarrow> 's \<Rightarrow> 's) \<Rightarrow> u64 \<Rightarrow> ('s, unit) act" where
  "add_assign prof sel upd k =
     bindA (getsA sel) (\<lambda>old.
     bindA (arithA (u64_add prof old k)) (\<lambda>new.
     modifyA (upd (\<lambda>_. new))))"

text \<open>A local value on which an action runs and that is dropped afterwards.\<close>

definition on_local :: "'c \<Rightarrow> ('c, 'a) act \<Rightarrow> ('s, 'a) act" where
  "on_local c m = liftA (snd (m c))"

text \<open>\<open>let _ = ...\<close>: the error value is dropped, a panic is not.\<close>

definition discard :: "('s, 'a) act \<Rightarrow> ('s, unit) act" where
  "discard m = (\<lambda>s. case m s of
       (s', Inl (Panic p)) \<Rightarrow> (s', Inl (Panic p))
     | (s', _) \<Rightarrow> (s', Inr ()))"

text \<open>\<open>unwrap()\<close> turns an error into a panic; \<open>assert!\<close> and \<open>assert_eq!\<close> panic when they fail.\<close>

definition unwrapA :: "('s, 'a) act \<Rightarrow> ('s, 'a) act" where
  "unwrapA m = (\<lambda>s. case m s of
       (s', Inl (Err _)) \<Rightarrow> (s', Inl (Panic UnwrapFailed))
     | (s', r) \<Rightarrow> (s', r))"

definition assertA :: "bool \<Rightarrow> ('s, unit) act" where
  "assertA b = (if b then ret () else throw (Panic AssertionFailed))"

definition assert_eq :: "'a \<Rightarrow> 'a \<Rightarrow> ('s, unit) act" where
  "assert_eq x y = assertA (x = y)"

text \<open>\<open>result.is_ok()\<close> and \<open>result.is_err()\<close>; a panic of the call stays a panic.\<close>

definition is_okA :: "('s, 'a) act \<Rightarrow> ('s, bool) act" where
  "is_okA m = (\<lambda>s. case m s of
       (s', Inl (Err _)) \<Rightarrow> (s', Inr False)
     | (s', Inl (Panic p)) \<Rightarrow> (s', Inl (Panic p))
     | (s', Inr _) \<Rightarrow> (s', Inr True))"

text \<open>Loops: \<open>for _ in 0..n\<close>, and \<open>for i in start..start + n\<close> over 64-bit numbers.\<close>

fun repeatA :: "nat \<Rightarrow> ('s, unit) act \<Rightarrow> ('s, unit) act" where
  "repeatA 0 body = ret ()"
| "repeatA (Suc n) body = bindA body (\<lambda>_. repeatA n body)"

fun for_range :: "nat \<Rightarrow> u64 \<Rightarrow> (u64 \<Rightarrow> ('s, unit) act) \<Rightarrow> ('s, unit) act" where
  "for_range 0 i body = ret ()"
| "for_range (Suc n) i body = bindA (body i) (\<lambda>_. for_range n (i + 1) body)"

text \<open>
  Slices and indices, whose bounds Rust checks in every build: \<open>&xs[a..b]\<close>, \<open>&xs[..b]\<close>,
  \<open>&xs[a..]\<close> and \<open>xs[i]\<close> panic out of range, and \<open>copy_from_slice\<close> into an array of \<open>n\<close>
  elements panics on a source of another length.
\<close>

definition slice :: "nat \<Rightarrow> nat \<Rightarrow> 'a list \<Rightarrow> 'a list result" where
  "slice a b xs =
     (if a \<le> b \<and> b \<le> length xs then Inr (take (b - a) (drop a xs)) else Inl (Panic SliceLength))"

definition slice_to :: "nat \<Rightarrow> 'a list \<Rightarrow> 'a list result" where
  "slice_to b xs = slice 0 b xs"

definition slice_from :: "nat \<Rightarrow> 'a list \<Rightarrow> 'a list result" where
  "slice_from a xs = slice a (length xs) xs"

definition index_at :: "nat \<Rightarrow> 'a list \<Rightarrow> 'a result" where
  "index_at i xs = (if i < length xs then Inr (xs ! i) else Inl (Panic SliceLength))"

definition copy_from_slice :: "nat \<Rightarrow> 'a list \<Rightarrow> 'a list result" where
  "copy_from_slice n xs = (if length xs = n then Inr xs else Inl (Panic SliceLength))"

text \<open>Sequencing of results without a state.\<close>

definition bindR :: "'a result \<Rightarrow> ('a \<Rightarrow> 'b result) \<Rightarrow> 'b result" where
  "bindR r f = (case r of Inl e \<Rightarrow> Inl e | Inr x \<Rightarrow> f x)"

lemma bindR_simps [simp]: "bindR (Inr x) f = f x" "bindR (Inl e) f = Inl e"
  by (simp_all add: bindR_def)

lemma bindR_Inr: "bindR r f = Inr y \<longleftrightarrow> (\<exists>x. r = Inr x \<and> f x = Inr y)"
  by (cases r) simp_all

text \<open>In range they are what \<open>take\<close>, \<open>drop\<close> and \<open>nth\<close> say.\<close>

lemma slices_in_range [simp]:
  "a \<le> b \<Longrightarrow> b \<le> length xs \<Longrightarrow> slice a b xs = Inr (take (b - a) (drop a xs))"
  "b \<le> length xs \<Longrightarrow> slice_to b xs = Inr (take b xs)"
  "a \<le> length xs \<Longrightarrow> slice_from a xs = Inr (drop a xs)"
  "i < length xs \<Longrightarrow> index_at i xs = Inr (xs ! i)"
  "length xs = n \<Longrightarrow> copy_from_slice n xs = Inr xs"
  by (simp_all add: slice_def slice_to_def slice_from_def index_at_def copy_from_slice_def)

lemma slices_Inr [simp]:
  "slice a b xs = Inr ys \<longleftrightarrow> a \<le> b \<and> b \<le> length xs \<and> ys = take (b - a) (drop a xs)"
  "slice_to b xs = Inr ys \<longleftrightarrow> b \<le> length xs \<and> ys = take b xs"
  "slice_from a xs = Inr ys \<longleftrightarrow> a \<le> length xs \<and> ys = drop a xs"
  "index_at i xs = Inr x \<longleftrightarrow> i < length xs \<and> x = xs ! i"
  "copy_from_slice n xs = Inr ys \<longleftrightarrow> length xs = n \<and> ys = xs"
  by (auto simp: slice_def slice_to_def slice_from_def index_at_def copy_from_slice_def)

text \<open>A slice that fails panics, and only out of range.\<close>

lemma slices_Inl:
  "slice a b xs = Inl e \<longleftrightarrow> \<not> (a \<le> b \<and> b \<le> length xs) \<and> e = Panic SliceLength"
  "slice_to b xs = Inl e \<longleftrightarrow> length xs < b \<and> e = Panic SliceLength"
  "slice_from a xs = Inl e \<longleftrightarrow> length xs < a \<and> e = Panic SliceLength"
  "index_at i xs = Inl e \<longleftrightarrow> length xs \<le> i \<and> e = Panic SliceLength"
  "copy_from_slice n xs = Inl e \<longleftrightarrow> length xs \<noteq> n \<and> e = Panic SliceLength"
  by (auto simp: slice_def slice_to_def slice_from_def index_at_def copy_from_slice_def)

lemma on_local_apply: "on_local c m s = (s, snd (m c))"
  by (simp add: on_local_def liftA_def)

lemma check_apply [act_simps]:
  "assertA True s = (s, Inr ())"
  "assert_eq x x s = (s, Inr ())"
  "m s = (s', Inr y) \<Longrightarrow> unwrapA m s = (s', Inr y)"
  "m s = (s', Inr y) \<Longrightarrow> is_okA m s = (s', Inr True)"
  "m s = (s', Inl (Err e)) \<Longrightarrow> is_okA m s = (s', Inr False)"
  "m s = (s', Inr y) \<Longrightarrow> discard m s = (s', Inr ())"
  "m s = (s', Inl (Err e)) \<Longrightarrow> discard m s = (s', Inr ())"
  by (simp_all add: assertA_def assert_eq_def unwrapA_def is_okA_def discard_def ret_def)

text \<open>An invariant indexed by the number of rounds carries a loop to its end.\<close>

lemma repeatA_invariant:
  assumes "I k s" "\<And>i s. I i s \<Longrightarrow> k \<le> i \<Longrightarrow> i < k + n \<Longrightarrow> \<exists>s'. body s = (s', Inr ()) \<and> I (Suc i) s'"
  shows "\<exists>s'. repeatA n body s = (s', Inr ()) \<and> I (k + n) s'"
  using assms
proof (induction n arbitrary: k s)
  case (Suc n)
  obtain s1 where s1: "body s = (s1, Inr ())" "I (Suc k) s1" using Suc.prems(2) [OF Suc.prems(1)] by auto
  obtain s' where "repeatA n body s1 = (s', Inr ())" "I (Suc k + n) s'"
    using Suc.IH [OF s1(2)] Suc.prems(2) by fastforce
  with s1 show ?case by (simp add: bindA_def)
qed (simp add: ret_def)

lemma for_range_invariant:
  assumes "I k s"
    and "\<And>i s. I i s \<Longrightarrow> k \<le> i \<Longrightarrow> i < k + n \<Longrightarrow> \<exists>s'. body (word_of_nat i) s = (s', Inr ()) \<and> I (Suc i) s'"
  shows "\<exists>s'. for_range n (word_of_nat k) body s = (s', Inr ()) \<and> I (k + n) s'"
  using assms
proof (induction n arbitrary: k s)
  case (Suc n)
  obtain s1 where s1: "body (word_of_nat k) s = (s1, Inr ())" "I (Suc k) s1"
    using Suc.prems(2) [OF Suc.prems(1)] by auto
  obtain s' where "for_range n (word_of_nat (Suc k)) body s1 = (s', Inr ())" "I (Suc k + n) s'"
    using Suc.IH [OF s1(2)] Suc.prems(2) by fastforce
  moreover have next_word: "(word_of_nat k + 1 :: u64) = word_of_nat (Suc k)" by simp
  ultimately show ?case using s1 by (simp add: bindA_def next_word del: of_nat_Suc)
qed (simp add: ret_def)

lemma ret_apply [act_simps]: "ret x s = (s, Inr x)"
  by (simp add: ret_def)

lemma throw_apply [act_simps]: "throw e s = (s, Inl e)"
  by (simp add: throw_def)

lemma modifyA_apply [act_simps]: "modifyA f s = (f s, Inr ())"
  by (simp add: modifyA_def)

lemma getsA_apply [act_simps]: "getsA f s = (s, Inr (f s))"
  by (simp add: getsA_def)

lemma liftA_apply [act_simps]: "liftA r s = (s, r)"
  by (simp add: liftA_def)

lemma arithA_apply [act_simps]:
  "arithA (Some x) s = (s, Inr x)"
  "arithA None s = (s, Inl (Panic ArithmeticOverflow))"
  by (simp_all add: arithA_def)

lemma bindA_Inr [act_simps]: "m s = (s', Inr x) \<Longrightarrow> bindA m k s = k x s'"
  by (simp add: bindA_def)

lemma bindA_Inl [act_simps]: "m s = (s', Inl e) \<Longrightarrow> bindA m k s = (s', Inl e)"
  by (simp add: bindA_def)

lemma onA_eq [act_simps]: "m (sel s) = (x, r) \<Longrightarrow> onA sel upd m s = (upd (\<lambda>_. x) s, r)"
  by (simp add: onA_def)

lemma add_assign_eq:
  "add_assign prof sel upd k s =
     (case u64_add prof (sel s) k of
        None \<Rightarrow> (s, Inl (Panic ArithmeticOverflow))
      | Some v \<Rightarrow> (upd (\<lambda>_. v) s, Inr ()))"
  by (simp add: add_assign_def bindA_def getsA_def arithA_def modifyA_def split: option.split)

lemma add_assign_no_overflow [act_simps]:
  "unat (sel s) + unat k < 2 ^ 64 \<Longrightarrow>
   add_assign prof sel upd k s = (upd (\<lambda>_. sel s + k) s, Inr ())"
  by (simp add: add_assign_eq u64_add_no_overflow)

lemma bindA_case:
  "bindA m k s = (case m s of (s', Inl e) \<Rightarrow> (s', Inl e) | (s', Inr x) \<Rightarrow> k x s')"
  by (simp add: bindA_def)

lemma bindA_eq_Inr:
  "bindA m k s = (s'', Inr y) \<longleftrightarrow> (\<exists>s' x. m s = (s', Inr x) \<and> k x s' = (s'', Inr y))"
  by (auto simp: bindA_def split: prod.split sum.split)

lemma bindA_assoc: "bindA (bindA m f) g = bindA m (\<lambda>x. bindA (f x) g)"
  by (auto simp: bindA_def fun_eq_iff split: prod.split sum.split)

lemma bindA_ret [simp]: "bindA (ret x) k = k x" "bindA m ret = m"
  by (auto simp: bindA_def ret_def fun_eq_iff split: prod.split sum.split)

text \<open>The successful runs of an action, component by component.\<close>

lemma onA_Inr:
  "onA sel upd m s = (s', Inr x) \<longleftrightarrow> (\<exists>y. m (sel s) = (y, Inr x) \<and> s' = upd (\<lambda>_. y) s)"
  by (auto simp: onA_def split: prod.split)

lemma simple_Inr:
  "getsA f s = (s', Inr y) \<longleftrightarrow> s' = s \<and> y = f s"
  "ret z s = (s', Inr w) \<longleftrightarrow> s' = s \<and> w = z"
  "throw e s \<noteq> (s', Inr w)"
  "modifyA g s = (s', Inr u) \<longleftrightarrow> s' = g s"
  "liftA r s = (s', Inr w) \<longleftrightarrow> s' = s \<and> r = Inr w"
  by (auto simp: getsA_def ret_def throw_def modifyA_def liftA_def)

lemmas act_Inr = bindA_eq_Inr onA_Inr simple_Inr

end
