(* ===== verification/Guard.thy ===== *)
theory Guard
  imports Prelude
begin

text \<open>
  The interface of a component that admits each sequence number at most once. \<open>step\<close>
  offers one packet, whose number is \<open>num\<close>: \<open>None\<close> when the component panics, otherwise
  the next state and whether the packet was admitted. The client's fact, proved once here,
  is that over any run no number is admitted twice. It is interpreted on the replay filter
  (theory \<open>Replay\<close>) and on the receiving cipher state (theory \<open>Cipher\<close>).
\<close>

text \<open>The packets a run admits, in order.\<close>

fun admitted :: "('s \<Rightarrow> 'p \<Rightarrow> ('s \<times> bool) option) \<Rightarrow> 's \<Rightarrow> 'p list \<Rightarrow> 'p list" where
  "admitted step s [] = []"
| "admitted step s (p # ps) =
     (case step s p of
        None \<Rightarrow> []
      | Some (s', b) \<Rightarrow> (if b then p # admitted step s' ps else admitted step s' ps))"

locale replay_guard =
  fixes step :: "'s \<Rightarrow> 'p \<Rightarrow> ('s \<times> bool) option"
    and num :: "'p \<Rightarrow> 'n"
    and inv :: "'s \<Rightarrow> bool"
    and seen :: "'s \<Rightarrow> 'n set"
  assumes step_inv: "inv s \<Longrightarrow> step s p = Some (s', b) \<Longrightarrow> inv s'"
    and step_mono: "inv s \<Longrightarrow> step s p = Some (s', b) \<Longrightarrow> seen s \<subseteq> seen s'"
    and step_fresh: "inv s \<Longrightarrow> step s p = Some (s', True) \<Longrightarrow> num p \<notin> seen s"
    and step_marks: "inv s \<Longrightarrow> step s p = Some (s', True) \<Longrightarrow> num p \<in> seen s'"
begin

lemma admitted_unseen: "inv s \<Longrightarrow> num ` set (admitted step s ps) \<inter> seen s = {}"
proof (induction ps arbitrary: s)
  case (Cons p ps)
  show ?case
  proof (cases "step s p")
    case (Some q)
    obtain s' b where q: "q = (s', b)" by fastforce
    with Some Cons.prems have "inv s'" "seen s \<subseteq> seen s'"
      using step_inv step_mono by blast+
    with Cons.IH [of s'] Some q show ?thesis
      using step_fresh [OF Cons.prems] by auto
  qed simp
qed simp

lemma admitted_distinct: "inv s \<Longrightarrow> distinct (map num (admitted step s ps))"
proof (induction ps arbitrary: s)
  case (Cons p ps)
  show ?case
  proof (cases "step s p")
    case (Some q)
    obtain s' b where q: "q = (s', b)" by fastforce
    with Some Cons.prems have s': "inv s'"
      using step_inv by blast
    show ?thesis
    proof (cases b)
      case True
      with Some q Cons.prems have "num p \<in> seen s'"
        using step_marks [of s p s'] by simp
      with Cons.IH [OF s'] admitted_unseen [OF s', of ps] Some q True
      show ?thesis by auto
    qed (use Cons.IH [OF s'] Some q in simp)
  qed simp
qed simp

end

end
