(* ===== verification/Replay.thy ===== *)
theory Replay
  imports Errors Guard
begin

text \<open>
  The anti-replay sliding window (\<open>struct ReplayFilter\<close>, src/src/protocol/mod.rs 356-540).
  The filter is a record with the source's fields at their widths, \<open>validate_and_record\<close>
  is the source's method branch by branch, with its overflow-checked arithmetic and its
  counters, and the lemmas show that the 128-bit bitmap implements a set of accepted
  sequence numbers: \<open>verdict\<close> and \<open>slide\<close> are the closed forms of one call,
  \<open>window_rel\<close> the simulation relation with the set.
\<close>

section \<open>The filter and its operations\<close>

record replay_filter =
  window_size :: u64
  bitmap :: u128
  last_seq :: u64
  initialized :: bool
  total_seen :: u64
  total_accepted :: u64
  total_rejected :: u64

definition REPLAY_WINDOW_SIZE :: u64 where
  "REPLAY_WINDOW_SIZE = 128"

definition clamp_window :: "u64 \<Rightarrow> u64" where
  "clamp_window w = (if w < 1 then 1 else if 128 < w then 128 else w)"

definition with_window_size :: "u64 \<Rightarrow> replay_filter" where
  "with_window_size w =
     \<lparr>window_size = clamp_window w, bitmap = 0, last_seq = 0, initialized = False,
      total_seen = 0, total_accepted = 0, total_rejected = 0\<rparr>"

definition new_filter :: replay_filter where
  "new_filter = with_window_size REPLAY_WINDOW_SIZE"

definition validate_and_record :: "profile \<Rightarrow> u64 \<Rightarrow> (replay_filter, unit) act" where
  "validate_and_record prof seq =
     bindA (add_assign prof total_seen total_seen_update 1) (\<lambda>_.
     bindA (getsA initialized) (\<lambda>init.
     if \<not> init then
       bindA (modifyA (\<lambda>f. f\<lparr>last_seq := seq, bitmap := 1, initialized := True\<rparr>)) (\<lambda>_.
       add_assign prof total_accepted total_accepted_update 1)
     else
       bindA (getsA last_seq) (\<lambda>last.
       bindA (getsA window_size) (\<lambda>window.
       if last < seq then
         bindA (arithA (u64_sub prof seq last)) (\<lambda>diff.
         bindA (if diff < window
                then bindA (getsA bitmap) (\<lambda>b.
                     bindA (arithA (u128_shl prof b diff)) (\<lambda>b'.
                     modifyA (\<lambda>f. f\<lparr>bitmap := b' OR 1\<rparr>)))
                else modifyA (\<lambda>f. f\<lparr>bitmap := 1\<rparr>)) (\<lambda>_.
         bindA (modifyA (\<lambda>f. f\<lparr>last_seq := seq\<rparr>)) (\<lambda>_.
         add_assign prof total_accepted total_accepted_update 1)))
       else
         bindA (arithA (u64_sub prof last seq)) (\<lambda>diff.
         if window \<le> diff then
           bindA (add_assign prof total_rejected total_rejected_update 1) (\<lambda>_.
           throw (Err (ReplayTooOld seq window)))
         else
           bindA (arithA (u128_shl prof 1 diff)) (\<lambda>one_bit.
           bindA (getsA bitmap) (\<lambda>b.
           if b AND one_bit \<noteq> 0 then
             bindA (add_assign prof total_rejected total_rejected_update 1) (\<lambda>_.
             throw (Err (ReplayDuplicate seq)))
           else
             bindA (modifyA (\<lambda>f. f\<lparr>bitmap := b OR one_bit\<rparr>)) (\<lambda>_.
             add_assign prof total_accepted total_accepted_update 1))))))))"

definition highest_seen :: "replay_filter \<Rightarrow> u64" where
  "highest_seen f = last_seq f"

definition capacity :: "replay_filter \<Rightarrow> u64" where
  "capacity f = window_size f"

definition has_seen :: "profile \<Rightarrow> replay_filter \<Rightarrow> u64 \<Rightarrow> bool result" where
  "has_seen prof f seq =
     (if \<not> initialized f then Inr False
      else if last_seq f < seq then Inr False
      else case u64_sub prof (last_seq f) seq of
          None \<Rightarrow> Inl (Panic ArithmeticOverflow)
        | Some diff \<Rightarrow>
            if window_size f \<le> diff then Inr True
            else case u128_shl prof 1 diff of
                None \<Rightarrow> Inl (Panic ArithmeticOverflow)
              | Some one_bit \<Rightarrow> Inr (bitmap f AND one_bit \<noteq> 0))"

definition is_initialized :: "replay_filter \<Rightarrow> bool" where
  "is_initialized f = initialized f"

definition filter_is_empty :: "replay_filter \<Rightarrow> bool" where
  "filter_is_empty f = (\<not> initialized f)"

definition min_valid_seq :: "replay_filter \<Rightarrow> u64" where
  "min_valid_seq f =
     (if \<not> initialized f then 0
      else u64_saturating_sub (last_seq f) (u64_saturating_sub (window_size f) 1))"

definition reset :: "replay_filter \<Rightarrow> replay_filter" where
  "reset f = f\<lparr>bitmap := 0, last_seq := 0, initialized := False,
               total_seen := 0, total_accepted := 0, total_rejected := 0\<rparr>"

section \<open>The window invariant and the closed form of one call\<close>

text \<open>
  The constructor clamps the window to 1..128 and no operation changes it, so a shift by
  less than the window never leaves the width of the bitmap.
\<close>

definition window_ok :: "replay_filter \<Rightarrow> bool" where
  "window_ok f \<longleftrightarrow> 1 \<le> unat (window_size f) \<and> unat (window_size f) \<le> 128"

definition verdict :: "replay_filter \<Rightarrow> u64 \<Rightarrow> terror option" where
  "verdict f seq =
     (if \<not> initialized f \<or> last_seq f < seq then None
      else if window_size f \<le> last_seq f - seq then Some (ReplayTooOld seq (window_size f))
      else if bit (bitmap f) (unat (last_seq f - seq)) then Some (ReplayDuplicate seq)
      else None)"

text \<open>The window part of the state after an accepted number.\<close>

definition slide :: "replay_filter \<Rightarrow> u64 \<Rightarrow> replay_filter" where
  "slide f seq =
     (if \<not> initialized f then f\<lparr>last_seq := seq, bitmap := 1, initialized := True\<rparr>
      else if last_seq f < seq then
        f\<lparr>last_seq := seq,
          bitmap := (if seq - last_seq f < window_size f
                     then push_bit (unat (seq - last_seq f)) (bitmap f) OR 1 else 1)\<rparr>
      else f\<lparr>bitmap := bitmap f OR push_bit (unat (last_seq f - seq)) 1\<rparr>)"

definition after_call :: "replay_filter \<Rightarrow> u64 \<Rightarrow> replay_filter" where
  "after_call f seq =
     (let g = f\<lparr>total_seen := total_seen f + 1\<rparr> in
      case verdict f seq of
        None \<Rightarrow> (slide g seq)\<lparr>total_accepted := total_accepted f + 1\<rparr>
      | Some _ \<Rightarrow> g\<lparr>total_rejected := total_rejected f + 1\<rparr>)"

lemma and_single_bit_u128: "(b :: u128) AND 2 ^ n = 0 \<longleftrightarrow> \<not> bit b n"
  by (simp add: bit_iff_and_push_bit_not_eq_0)

lemma unat_diff_lt_window:
  "window_ok f \<Longrightarrow> d < window_size f \<Longrightarrow> unat d < 128"
  by (simp add: window_ok_def word_less_nat_alt)

text \<open>
  One call either panics in a counter or leaves exactly \<open>after_call\<close> and answers with the
  verdict: the shifts and subtractions in between never panic and never wrap.
\<close>

lemma validate_cases:
  assumes "window_ok f" "validate_and_record prof seq f = (f', r)"
  shows "(\<exists>p. r = Inl (Panic p)) \<or>
         (f' = after_call f seq \<and>
          r = (case verdict f seq of None \<Rightarrow> Inr () | Some e \<Rightarrow> Inl (Err e)))"
  using assms
  by (auto simp: validate_and_record_def bindA_case add_assign_eq getsA_def modifyA_def
        throw_def arithA_def after_call_def verdict_def slide_def Let_def
        and_single_bit_u128 u64_sub_no_underflow u128_shl_in_range unat_diff_lt_window
      split: if_splits option.splits dest!: u64_add_Some)

lemma has_seen_verdict: "window_ok f \<Longrightarrow> has_seen prof f seq = Inr (verdict f seq \<noteq> None)"
  by (simp add: has_seen_def verdict_def u64_sub_no_underflow u128_shl_in_range
      and_single_bit_u128 unat_diff_lt_window)

lemma validate_Release:
  assumes "window_ok f"
  shows "validate_and_record Release seq f =
    (after_call f seq, case verdict f seq of None \<Rightarrow> Inr () | Some e \<Rightarrow> Inl (Err e))"
  using assms
  by (auto simp: validate_and_record_def bindA_case add_assign_eq getsA_def modifyA_def
        throw_def arithA_def after_call_def verdict_def slide_def Let_def u64_add_Release
        and_single_bit_u128 u64_sub_no_underflow u128_shl_in_range unat_diff_lt_window
      split: if_splits option.splits)

section \<open>The counters\<close>

text \<open>Every call is counted once as seen and once as accepted or rejected.\<close>

definition counters_ok :: "replay_filter \<Rightarrow> bool" where
  "counters_ok f \<longleftrightarrow> unat (total_accepted f) + unat (total_rejected f) = unat (total_seen f)"

lemma validate_no_overflow:
  assumes "window_ok f" "counters_ok f" "unat (total_seen f) + 1 < 2 ^ 64"
  shows "validate_and_record prof seq f =
    (after_call f seq, case verdict f seq of None \<Rightarrow> Inr () | Some e \<Rightarrow> Inl (Err e))"
proof -
  have acc: "unat (total_accepted f) + 1 < 2 ^ 64" and rej: "unat (total_rejected f) + 1 < 2 ^ 64"
    using assms by (simp_all add: counters_ok_def)
  show ?thesis
    using assms(1,3) acc rej
    by (auto simp: validate_and_record_def bindA_case add_assign_eq getsA_def modifyA_def
        throw_def arithA_def after_call_def verdict_def slide_def Let_def u64_add_no_overflow
        and_single_bit_u128 u64_sub_no_underflow u128_shl_in_range unat_diff_lt_window
      split: if_splits option.splits)
qed

lemma slide_frame [simp]:
  "window_size (slide f seq) = window_size f"
  "total_seen (slide f seq) = total_seen f"
  "total_accepted (slide f seq) = total_accepted f"
  "total_rejected (slide f seq) = total_rejected f"
  "initialized (slide f seq)"
  by (simp_all add: slide_def)

lemma after_call_window_size [simp]: "window_size (after_call f seq) = window_size f"
  by (simp add: after_call_def Let_def split: option.split)

lemma after_call_window_ok [simp]: "window_ok (after_call f seq) = window_ok f"
  by (simp add: window_ok_def)

lemma after_call_counters:
  assumes "counters_ok f" "unat (total_seen f) + 1 < 2 ^ 64"
  shows "counters_ok (after_call f seq) \<and>
         unat (total_seen (after_call f seq)) = unat (total_seen f) + 1"
  using assms
  by (auto simp: counters_ok_def after_call_def Let_def unat_suc_u64 split: option.split)

lemma window_ok_new [simp]: "window_ok (with_window_size w)"
  by (auto simp: window_ok_def with_window_size_def clamp_window_def word_less_nat_alt)

lemma counters_ok_new [simp]: "counters_ok (with_window_size w)"
  by (simp add: counters_ok_def with_window_size_def)

section \<open>No number is admitted twice\<close>

text \<open>One offered number: \<open>None\<close> is the panic of a counter in a debug build.\<close>

definition filter_step ::
  "profile \<Rightarrow> replay_filter \<Rightarrow> u64 \<Rightarrow> (replay_filter \<times> bool) option" where
  "filter_step prof f seq =
     (case validate_and_record prof seq f of
        (f', Inr _) \<Rightarrow> Some (f', True)
      | (f', Inl (Err _)) \<Rightarrow> Some (f', False)
      | (f', Inl (Panic _)) \<Rightarrow> None)"

definition seen_set :: "replay_filter \<Rightarrow> u64 set" where
  "seen_set f = {n. verdict f n \<noteq> None}"

lemma filter_step_Some:
  assumes "window_ok f" "filter_step prof f seq = Some (f', b)"
  shows "f' = after_call f seq \<and> b = (verdict f seq = None)"
proof -
  obtain g r where v: "validate_and_record prof seq f = (g, r)" by fastforce
  have step: "filter_step prof f seq = (case r of Inr _ \<Rightarrow> Some (g, True)
      | Inl (Err _) \<Rightarrow> Some (g, False) | Inl (Panic _) \<Rightarrow> None)"
    by (simp only: filter_step_def v prod.case)
  with assms(2) have "\<nexists>p. r = Inl (Panic p)"
    by auto
  with validate_cases [OF assms(1) v] have g: "g = after_call f seq"
    and r: "r = (case verdict f seq of None \<Rightarrow> Inr () | Some e \<Rightarrow> Inl (Err e))"
    by blast+
  show ?thesis
    using step assms(2) g by (cases "verdict f seq") (simp_all add: r)
qed

lemma bit_slide_bitmap:
  assumes "initialized f" "last_seq f < seq" "k < 128"
  shows "bit (bitmap (slide f seq)) k \<longleftrightarrow>
    k = 0 \<or> (seq - last_seq f < window_size f \<and> unat (seq - last_seq f) \<le> k \<and>
             bit (bitmap f) (k - unat (seq - last_seq f)))"
  using assms by (auto simp: slide_def bit_simps bit_1_iff)

lemma verdict_mono:
  assumes "window_ok f" "verdict f seq = None" "verdict f m \<noteq> None"
  shows "verdict (slide f seq) m \<noteq> None"
proof -
  have init: "initialized f" and m: "m \<le> last_seq f"
    using assms(3) by (auto simp: verdict_def split: if_splits)
  show ?thesis
  proof (cases "last_seq f < seq")
    case True
    define d where "d = unat (seq - last_seq f)"
    have d: "d = unat seq - unat (last_seq f)" "unat (last_seq f) < unat seq"
      using True unat_minus_u64 [of "last_seq f" seq]
      by (simp_all add: d_def flip: word_less_nat_alt)
    have "m \<le> seq" using m True by simp
    then have diff: "unat (seq - m) = unat (last_seq f - m) + d"
      using d m by (simp add: unat_minus_u64 word_le_nat_alt)
    have "last_seq (slide f seq) = seq"
      using True by (simp add: slide_def)
    moreover have "bit (bitmap (slide f seq)) (unat (seq - m))"
      if inside: "\<not> window_size f \<le> seq - m"
    proof -
      have k: "unat (seq - m) < 128" "unat (seq - m) < unat (window_size f)"
        using inside assms(1) by (auto simp: window_ok_def word_le_nat_alt)
      with diff have "\<not> window_size f \<le> last_seq f - m" "seq - last_seq f < window_size f"
        by (simp_all add: word_le_nat_alt word_less_nat_alt d_def)
      with assms(3) init m have "bit (bitmap f) (unat (last_seq f - m))"
        by (auto simp: verdict_def split: if_splits)
      with k diff \<open>seq - last_seq f < window_size f\<close> show ?thesis
        by (simp add: bit_slide_bitmap [OF init True] flip: d_def)
    qed
    ultimately show ?thesis
      using \<open>m \<le> seq\<close> by (auto simp: verdict_def)
  next
    case False
    with init assms(3) show ?thesis
      by (auto simp: verdict_def slide_def bit_simps split: if_splits)
  qed
qed

lemma verdict_after_call:
  "verdict (after_call f seq) m =
     (if verdict f seq = None then verdict (slide f seq) m else verdict f m)"
  by (auto simp: after_call_def Let_def verdict_def slide_def split: option.split)

lemma verdict_slide_self:
  assumes "window_ok f"
  shows "verdict (slide f seq) seq \<noteq> None"
proof (cases "initialized f \<and> last_seq f < seq")
  case True
  then have "bit (bitmap (slide f seq)) 0" "last_seq (slide f seq) = seq"
    by (auto simp: bit_slide_bitmap) (simp add: slide_def)
  then show ?thesis by (simp add: verdict_def)
next
  case False
  then show ?thesis
    using unat_diff_lt_window [OF assms, of "last_seq f - seq"]
    by (auto simp: verdict_def slide_def bit_simps bit_1_iff not_le)
qed

interpretation filter_guard: replay_guard "filter_step prof" id window_ok seen_set for prof
proof
  fix f :: replay_filter and seq f' b
  assume ok: "window_ok f" and "filter_step prof f seq = Some (f', b)"
  then have f': "f' = after_call f seq" and b: "b = (verdict f seq = None)"
    using filter_step_Some by blast+
  show "window_ok f'"
    using ok f' by simp
  show "seen_set f \<subseteq> seen_set f'"
    using verdict_mono [OF ok] by (auto simp: f' seen_set_def verdict_after_call)
next
  fix f :: replay_filter and seq f'
  assume ok: "window_ok f" and "filter_step prof f seq = Some (f', True)"
  then have f': "f' = after_call f seq" and b: "verdict f seq = None"
    using filter_step_Some by blast+
  show "id seq \<notin> seen_set f"
    using b by (simp add: seen_set_def)
  show "id seq \<in> seen_set f'"
    using b verdict_slide_self [OF ok, of seq] by (simp add: f' seen_set_def verdict_after_call)
qed

section \<open>The bitmap implements a set\<close>

text \<open>
  The specification keeps the set of all numbers ever accepted. A number is accepted when
  nothing was accepted before, when it is above the highest accepted one, or when it is
  new and less than a window below it.
\<close>

definition spec_verdict :: "u64 \<Rightarrow> nat set \<Rightarrow> u64 \<Rightarrow> terror option" where
  "spec_verdict w A n =
     (if A = {} \<or> Max A < unat n then None
      else if unat w \<le> Max A - unat n then Some (ReplayTooOld n w)
      else if unat n \<in> A then Some (ReplayDuplicate n)
      else None)"

definition spec_insert :: "u64 \<Rightarrow> nat set \<Rightarrow> u64 \<Rightarrow> nat set" where
  "spec_insert w A n = (if spec_verdict w A n = None then insert (unat n) A else A)"

fun spec_verdicts :: "u64 \<Rightarrow> nat set \<Rightarrow> u64 list \<Rightarrow> terror option list" where
  "spec_verdicts w A [] = []"
| "spec_verdicts w A (n # ns) = spec_verdict w A n # spec_verdicts w (spec_insert w A n) ns"

definition verdict_result :: "terror option \<Rightarrow> unit result" where
  "verdict_result v = (case v of None \<Rightarrow> Inr () | Some e \<Rightarrow> Inl (Err e))"

text \<open>The answers of the filter to a sequence of calls.\<close>

fun filter_outcomes :: "profile \<Rightarrow> replay_filter \<Rightarrow> u64 list \<Rightarrow> unit result list" where
  "filter_outcomes prof f [] = []"
| "filter_outcomes prof f (n # ns) =
     (case validate_and_record prof n f of (f', r) \<Rightarrow> r # filter_outcomes prof f' ns)"

definition window_rel :: "replay_filter \<Rightarrow> nat set \<Rightarrow> bool" where
  "window_rel f A \<longleftrightarrow>
     window_ok f \<and> finite A \<and> (initialized f \<longleftrightarrow> A \<noteq> {}) \<and>
     (initialized f \<longrightarrow> unat (last_seq f) = Max A \<and>
        (\<forall>k. k < unat (window_size f) \<longrightarrow> k \<le> Max A \<longrightarrow>
             bit (bitmap f) k = (Max A - k \<in> A)))"

lemma window_rel_verdict:
  assumes "window_rel f A"
  shows "verdict f seq = spec_verdict (window_size f) A seq"
proof (cases "initialized f \<and> \<not> last_seq f < seq")
  case True
  then have le: "seq \<le> last_seq f" by (simp add: not_less)
  with True assms have m: "unat (last_seq f) = Max A" "A \<noteq> {}" "unat seq \<le> Max A"
    by (auto simp: window_rel_def word_le_nat_alt)
  have d: "unat (last_seq f - seq) = Max A - unat seq"
    using le m by (simp add: unat_minus_u64)
  have "bit (bitmap f) (Max A - unat seq) \<longleftrightarrow> unat seq \<in> A"
    if "\<not> unat (window_size f) \<le> Max A - unat seq"
    using assms True m that by (auto simp: window_rel_def)
  then show ?thesis
    using True m d
    by (auto simp: verdict_def spec_verdict_def word_le_nat_alt simp del: Max_less_iff)
next
  case False
  then show ?thesis
    using assms
    by (auto simp: verdict_def spec_verdict_def window_rel_def word_less_nat_alt
        simp del: Max_less_iff)
qed

lemma window_rel_slide:
  assumes rel: "window_rel f A" and acc: "verdict f seq = None"
  shows "window_rel (slide f seq) (insert (unat seq) A)"
proof -
  have ok: "window_ok f" and fin: "finite A"
    using rel by (simp_all add: window_rel_def)
  consider (first) "\<not> initialized f" | (ahead) "initialized f" "last_seq f < seq"
    | (inside) "initialized f" "seq \<le> last_seq f"
    by (meson not_less)
  then show ?thesis
  proof cases
    case first
    then show ?thesis
      using rel by (auto simp: window_rel_def slide_def window_ok_def bit_1_iff)
  next
    case ahead
    define d where "d = unat (seq - last_seq f)"
    have m: "unat (last_seq f) = Max A" "A \<noteq> {}" "Max A < unat seq"
      using rel ahead by (auto simp: window_rel_def word_less_nat_alt simp del: Max_less_iff)
    have d: "unat seq = Max A + d"
      using ahead m unat_minus_u64 [of "last_seq f" seq] by (simp add: d_def)
    have max: "Max (insert (unat seq) A) = unat seq"
      using m fin by simp
    have "bit (bitmap (slide f seq)) k \<longleftrightarrow> unat seq - k \<in> insert (unat seq) A"
      if k: "k < unat (window_size f)" "k \<le> unat seq" for k
    proof (cases "k = 0 \<or> d \<le> k")
      case True
      then show ?thesis
        using k rel ahead m d ok
        by (auto simp: bit_slide_bitmap window_rel_def window_ok_def word_less_nat_alt
            simp flip: d_def simp del: Max_less_iff)
    next
      case False
      then have "Max A < unat seq - k"
        using d k by linarith
      then have "unat seq - k \<notin> A"
        using Max_ge [OF fin] by (meson leD)
      with False ahead k ok show ?thesis
        by (auto simp: bit_slide_bitmap window_ok_def simp flip: d_def)
    qed
    moreover have "last_seq (slide f seq) = seq"
      using ahead by (simp add: slide_def)
    ultimately show ?thesis
      using ok fin max by (simp add: window_rel_def window_ok_def)
  next
    case inside
    have m: "unat (last_seq f) = Max A" "A \<noteq> {}" "unat seq \<le> Max A"
      using rel inside by (auto simp: window_rel_def word_le_nat_alt)
    have d: "unat (last_seq f - seq) = Max A - unat seq"
      using inside m by (simp add: unat_minus_u64)
    have max: "Max (insert (unat seq) A) = Max A"
      using m fin by simp
    have "bit (bitmap (slide f seq)) k \<longleftrightarrow> Max A - k \<in> insert (unat seq) A"
      if "k < unat (window_size f)" "k \<le> Max A" for k
      using that rel inside m d ok
      by (auto simp: slide_def window_rel_def window_ok_def bit_simps)
    moreover have "last_seq (slide f seq) = last_seq f"
      using inside by (auto simp: slide_def dest: leD)
    ultimately show ?thesis
      using ok fin max m by (simp add: window_rel_def window_ok_def)
  qed
qed

lemma window_rel_counters:
  "window_rel f A \<Longrightarrow> window_rel (f\<lparr>total_seen := a, total_accepted := b\<rparr>) A"
  "window_rel f A \<Longrightarrow> window_rel (f\<lparr>total_seen := a, total_rejected := c\<rparr>) A"
  by (simp_all add: window_rel_def window_ok_def)

lemma after_call_accept:
  "verdict f seq = None \<Longrightarrow>
   after_call f seq =
     (slide f seq)\<lparr>total_seen := total_seen f + 1, total_accepted := total_accepted f + 1\<rparr>"
  by (simp add: after_call_def slide_def Let_def)

lemma after_call_reject:
  "verdict f seq \<noteq> None \<Longrightarrow>
   after_call f seq = f\<lparr>total_seen := total_seen f + 1, total_rejected := total_rejected f + 1\<rparr>"
  by (auto simp: after_call_def Let_def)

lemma window_rel_step:
  assumes "window_rel f A"
  shows "window_rel (after_call f seq) (spec_insert (window_size f) A seq)"
proof (cases "verdict f seq = None")
  case True
  then show ?thesis
    using window_rel_counters(1) [OF window_rel_slide [OF assms True]]
      window_rel_verdict [OF assms, of seq]
    by (simp add: after_call_accept spec_insert_def)
next
  case False
  then show ?thesis
    using window_rel_counters(2) [OF assms] window_rel_verdict [OF assms, of seq]
    by (auto simp: after_call_reject spec_insert_def)
qed

lemma window_rel_new: "window_rel (with_window_size w) {}"
  using window_ok_new [of w] by (simp add: window_rel_def with_window_size_def)

lemma filter_outcomes_spec:
  assumes "window_rel f A" "counters_ok f" "unat (total_seen f) + length ns < 2 ^ 64"
  shows "filter_outcomes prof f ns = map verdict_result (spec_verdicts (window_size f) A ns)"
  using assms
proof (induction ns arbitrary: f A)
  case (Cons n ns)
  have ok: "window_ok f" using Cons.prems(1) by (simp add: window_rel_def)
  have room: "unat (total_seen f) + 1 < 2 ^ 64" using Cons.prems(3) by simp
  from after_call_counters [OF Cons.prems(2) room]
  have c: "counters_ok (after_call f n)" "unat (total_seen (after_call f n)) = unat (total_seen f) + 1"
    by simp_all
  have "filter_outcomes prof (after_call f n) ns =
        map verdict_result (spec_verdicts (window_size f) (spec_insert (window_size f) A n) ns)"
    using Cons.IH [OF window_rel_step [OF Cons.prems(1), of n] c(1)] c(2) Cons.prems(3)
    by simp
  then show ?case
    by (simp add: validate_no_overflow [OF ok Cons.prems(2) room]
        window_rel_verdict [OF Cons.prems(1)] verdict_result_def)
qed simp

section \<open>Properties\<close>

text \<open>
  The last state of a run of calls, whatever they answer, and the sequence numbers the
  run admits.
\<close>

fun filter_after :: "profile \<Rightarrow> replay_filter \<Rightarrow> u64 list \<Rightarrow> replay_filter" where
  "filter_after prof f [] = f"
| "filter_after prof f (n # ns) = filter_after prof (fst (validate_and_record prof n f)) ns"

text \<open>
  C11. Over any sequence of calls on a filter built by the constructor, with any window
  size and in either build profile, no sequence number is accepted twice.
\<close>

theorem replay_never_twice:
  "distinct (admitted (filter_step prof) (with_window_size w) ns)"
  using filter_guard.admitted_distinct [OF window_ok_new, of prof w ns] by simp

text \<open>
  C10. The 128-bit bitmap implements the set of all accepted numbers: a run of calls on a
  new filter returns, call by call, exactly what the set-based specification prescribes
  (accepted, too old for the window, or already processed), errors included.
\<close>

theorem replay_refines_set:
  assumes "length ns < 2 ^ 64"
  shows "filter_outcomes prof (with_window_size w) ns =
         map verdict_result (spec_verdicts (clamp_window w) {} ns)"
  using filter_outcomes_spec [OF window_rel_new counters_ok_new, of w ns prof] assms
  by (simp add: with_window_size_def)

theorem replay_refines_set_witness:
  "filter_outcomes Debug (with_window_size 64) [100, 200, 100, 150, 150] =
     [Inr (), Inr (), Inl (Err (ReplayTooOld 100 64)), Inr (), Inl (Err (ReplayDuplicate 150))]"
  using replay_refines_set [of "[100, 200, 100, 150, 150]" Debug 64]
  by (simp add: spec_verdict_def spec_insert_def verdict_result_def clamp_window_def)

text \<open>
  \<open>has_seen\<close> predicts \<open>validate_and_record\<close>: it never panics, and it answers \<open>true\<close>
  for exactly those numbers that a call would reject at this moment.
\<close>

theorem has_seen_predicts_rejection:
  assumes "window_ok f"
  shows "has_seen prof f seq =
         Inr (\<exists>e. snd (validate_and_record Release seq f) = Inl (Err e))"
  using has_seen_verdict [OF assms, of prof seq] validate_Release [OF assms, of seq]
  by (cases "verdict f seq") simp_all

theorem has_seen_predicts_rejection_witness:
  "has_seen Debug (fst (validate_and_record Release 10 new_filter)) 10 = Inr True \<and>
   has_seen Debug (fst (validate_and_record Release 10 new_filter)) 11 = Inr False"
proof -
  let ?f = "fst (validate_and_record Release 10 new_filter)"
  have ok: "window_ok ?f"
    using validate_Release [OF window_ok_new, of 10] by (simp add: new_filter_def)
  show ?thesis
    unfolding has_seen_predicts_rejection [OF ok]
    using validate_Release [OF window_ok_new] validate_Release [OF ok]
    by (simp add: new_filter_def verdict_after_call verdict_def slide_def after_call_def
        with_window_size_def)
qed

lemma filter_after_counters:
  assumes "window_ok f" "counters_ok f" "unat (total_seen f) + length ns < 2 ^ 64"
  shows "unat (total_seen (filter_after prof f ns)) = unat (total_seen f) + length ns \<and>
    unat (total_accepted (filter_after prof f ns)) =
      unat (total_accepted f) + length (filter (\<lambda>r. r = Inr ()) (filter_outcomes prof f ns)) \<and>
    unat (total_rejected (filter_after prof f ns)) =
      unat (total_rejected f) + length (filter (\<lambda>r. r \<noteq> Inr ()) (filter_outcomes prof f ns))"
  using assms
proof (induction ns arbitrary: f)
  case (Cons n ns)
  have room: "unat (total_seen f) + 1 < 2 ^ 64" using Cons.prems(3) by simp
  have small: "unat (total_accepted f) + 1 < 2 ^ 64" "unat (total_rejected f) + 1 < 2 ^ 64"
    using room Cons.prems(2) by (simp_all add: counters_ok_def)
  have step: "validate_and_record prof n f = (after_call f n, verdict_result (verdict f n))"
    by (simp add: validate_no_overflow [OF Cons.prems(1,2) room] verdict_result_def)
  have next_ok: "counters_ok (after_call f n)"
      "unat (total_seen (after_call f n)) = unat (total_seen f) + 1"
    using after_call_counters [OF Cons.prems(2) room] by simp_all
  moreover from this Cons.prems(3)
  have "unat (total_seen (after_call f n)) + length ns < 2 ^ 64" by simp
  moreover have "unat (total_accepted (after_call f n)) =
      unat (total_accepted f) + (if verdict f n = None then 1 else 0)"
    "unat (total_rejected (after_call f n)) =
      unat (total_rejected f) + (if verdict f n = None then 0 else 1)"
    using small by (cases "verdict f n";
        simp add: after_call_accept after_call_reject unat_suc_u64)+
  ultimately show ?case
    using Cons.IH [of "after_call f n"] Cons.prems(1)
    by (cases "verdict f n") (simp_all add: step verdict_result_def)
qed simp

text \<open>
  The counters are exact: after any sequence of fewer than \<open>2 ^ 64\<close> calls on a new
  filter \<open>total_seen\<close> is the number of calls, \<open>total_accepted\<close> the number that returned
  \<open>Ok\<close> and \<open>total_rejected\<close> the number that returned an error.
\<close>

theorem filter_counters_exact:
  assumes "length ns < 2 ^ 64"
  shows "unat (total_seen (filter_after prof (with_window_size w) ns)) = length ns \<and>
    unat (total_accepted (filter_after prof (with_window_size w) ns)) =
      length (filter (\<lambda>r. r = Inr ()) (filter_outcomes prof (with_window_size w) ns)) \<and>
    unat (total_rejected (filter_after prof (with_window_size w) ns)) =
      length (filter (\<lambda>r. r \<noteq> Inr ()) (filter_outcomes prof (with_window_size w) ns))"
  using filter_after_counters [OF window_ok_new counters_ok_new, of w ns prof] assms
  by (simp add: with_window_size_def)

theorem filter_counters_exact_witness:
  "unat (total_seen (filter_after Debug (with_window_size 128) [10, 11, 10])) = 3 \<and>
   unat (total_rejected (filter_after Debug (with_window_size 128) [10, 11, 10])) = 1"
  using filter_counters_exact [of "[10, 11, 10]" Debug 128]
    filter_outcomes_spec [OF window_rel_new counters_ok_new, of 128 "[10, 11, 10]" Debug]
  by (simp add: spec_verdict_def spec_insert_def verdict_result_def clamp_window_def
      with_window_size_def)

text \<open>
  \<open>min_valid_seq\<close> is the exact lower edge of the window: the numbers below it are the
  ones that a call rejects as too old, for every reachable window size and without the
  subtraction ever going below zero.
\<close>

theorem min_valid_seq_edge:
  assumes "window_ok f"
  shows "seq < min_valid_seq f \<longleftrightarrow>
    snd (validate_and_record Release seq f) = Inl (Err (ReplayTooOld seq (window_size f)))"
proof (cases "initialized f \<and> seq \<le> last_seq f")
  case True
  then have "\<not> last_seq f < seq"
    by (simp add: not_less)
  with True have d: "unat (last_seq f - seq) = unat (last_seq f) - unat seq"
      "\<not> last_seq f < seq" "unat seq \<le> unat (last_seq f)"
    by (simp_all add: unat_minus_u64 flip: word_le_nat_alt)
  have "seq < min_valid_seq f \<longleftrightarrow> window_size f \<le> last_seq f - seq"
    using assms True d
    by (simp add: min_valid_seq_def word_less_nat_alt word_le_nat_alt unat_u64_saturating_sub
        window_ok_def) arith
  then show ?thesis
    using True d by (simp add: validate_Release [OF assms] verdict_def)
next
  case False
  then show ?thesis
    using assms
    by (auto simp: validate_Release verdict_def min_valid_seq_def word_less_nat_alt
        unat_u64_saturating_sub not_le)
qed

theorem min_valid_seq_edge_witness:
  "min_valid_seq (fst (validate_and_record Release 100 (with_window_size 64))) = 37 \<and>
   snd (validate_and_record Release 36 (fst (validate_and_record Release 100 (with_window_size 64)))) =
     Inl (Err (ReplayTooOld 36 64))"
proof -
  let ?f = "fst (validate_and_record Release 100 (with_window_size 64))"
  have f: "?f = after_call (with_window_size 64) 100"
    by (simp add: validate_Release [OF window_ok_new])
  have ok: "window_ok ?f" unfolding f by simp
  have w: "window_size ?f = 64" unfolding f by (simp add: with_window_size_def clamp_window_def)
  have m: "min_valid_seq ?f = 37"
    unfolding f by (simp add: min_valid_seq_def after_call_def verdict_def slide_def
        with_window_size_def clamp_window_def u64_saturating_sub_def)
  show ?thesis
    using min_valid_seq_edge [OF ok, of 36] m w by simp
qed

text \<open>
  \<open>reset\<close> returns the filter to exactly the state of a new filter of the same window
  size, so that a number seen before is accepted again.
\<close>

theorem reset_is_new:
  assumes "window_ok f"
  shows "reset f = with_window_size (window_size f) \<and>
         snd (validate_and_record prof seq (reset f)) = Inr ()"
proof -
  have "clamp_window (window_size f) = window_size f"
    using assms by (auto simp: clamp_window_def window_ok_def word_less_nat_alt)
  then have r: "reset f = with_window_size (window_size f)"
    by (simp add: reset_def with_window_size_def)
  have "unat (total_seen (with_window_size (window_size f))) + 1 < 2 ^ 64"
    by (simp add: with_window_size_def)
  from validate_no_overflow [OF window_ok_new counters_ok_new this, of prof seq] show ?thesis
    by (simp add: r verdict_def with_window_size_def)
qed

theorem reset_is_new_witness:
  "reset (with_window_size 7) = with_window_size 7 \<and>
   snd (validate_and_record Debug 42 (reset (with_window_size 7))) = Inr ()"
proof -
  have w: "window_size (with_window_size 7) = 7"
    by (simp add: with_window_size_def clamp_window_def)
  show ?thesis
    using reset_is_new [OF window_ok_new [of 7], of Debug 42] unfolding w .
qed

end
