(* ===== verification/Net.thy ===== *)
theory Net
  imports Errors
begin

text \<open>
  One TCP connection as an endpoint's task sees it (tokio's \<open>TcpStream\<close> behind
  \<open>AsyncReadExt\<close> and \<open>AsyncWriteExt\<close>), and the monotonic clock behind \<open>Instant::now\<close>.
  \<open>inbox\<close> holds the bytes the peer has sent or will send and that are not read yet; where
  it ends the stream is at end of file or broken, and a read that needs more fails.
  \<open>outbox\<close> collects the bytes handed to the transport. \<open>write_faults\<close> is the script of
  the environment for the coming writes and flushes: \<open>Some k\<close> makes one fail after \<open>k\<close>
  bytes, and the empty script means that no more fail. \<open>ticks\<close> are the time that passes
  before each reading of the clock.
\<close>

record net =
  inbox :: bytes
  outbox :: bytes
  write_faults :: "nat option list"
  clock :: nat
  ticks :: "nat list"

text \<open>A connection with no write faults whose peer sends the given bytes.\<close>

definition connection :: "bytes \<Rightarrow> net" where
  "connection bs = \<lparr>inbox = bs, outbox = [], write_faults = [], clock = 0, ticks = []\<rparr>"

lemma connection_simps [simp]:
  "inbox (connection bs) = bs" "outbox (connection bs) = []"
  "write_faults (connection bs) = []"
  by (simp_all add: connection_def)

definition read_exact :: "nat \<Rightarrow> (net, bytes) act" where
  "read_exact n = (\<lambda>s.
     if n \<le> length (inbox s) then (s\<lparr>inbox := drop n (inbox s)\<rparr>, Inr (take n (inbox s)))
     else (s\<lparr>inbox := []\<rparr>, Inl (Err Io)))"

definition write_all :: "bytes \<Rightarrow> (net, unit) act" where
  "write_all bs = (\<lambda>s. case write_faults s of
       [] \<Rightarrow> (s\<lparr>outbox := outbox s @ bs\<rparr>, Inr ())
     | None # fs \<Rightarrow> (s\<lparr>outbox := outbox s @ bs, write_faults := fs\<rparr>, Inr ())
     | Some k # fs \<Rightarrow>
         (s\<lparr>outbox := outbox s @ take k bs, write_faults := fs\<rparr>, Inl (Err Io)))"

definition flush :: "(net, unit) act" where
  "flush = (\<lambda>s. case write_faults s of
       [] \<Rightarrow> (s, Inr ())
     | None # fs \<Rightarrow> (s\<lparr>write_faults := fs\<rparr>, Inr ())
     | Some _ # fs \<Rightarrow> (s\<lparr>write_faults := fs\<rparr>, Inl (Err Io)))"

definition instant_now :: "(net, nat) act" where
  "instant_now = (\<lambda>s. case ticks s of
       [] \<Rightarrow> (s, Inr (clock s))
     | d # ds \<Rightarrow> (s\<lparr>clock := clock s + d, ticks := ds\<rparr>, Inr (clock s + d)))"

lemma read_exact_enough [act_simps]:
  "n \<le> length (inbox s) \<Longrightarrow>
   read_exact n s = (s\<lparr>inbox := drop n (inbox s)\<rparr>, Inr (take n (inbox s)))"
  by (simp add: read_exact_def)

lemma read_exact_short [act_simps]:
  "length (inbox s) < n \<Longrightarrow> read_exact n s = (s\<lparr>inbox := []\<rparr>, Inl (Err Io))"
  by (simp add: read_exact_def)

lemma write_all_clean [act_simps]:
  "write_faults s = [] \<Longrightarrow> write_all bs s = (s\<lparr>outbox := outbox s @ bs\<rparr>, Inr ())"
  by (simp add: write_all_def)

lemma flush_clean [act_simps]: "write_faults s = [] \<Longrightarrow> flush s = (s, Inr ())"
  by (simp add: flush_def)

text \<open>Writing and flushing never touch what is still to be read; the clock is monotonic.\<close>

lemma write_all_frame: "inbox (fst (write_all bs s)) = inbox s"
  by (auto simp: write_all_def split: list.split option.split)

lemma flush_frame: "inbox (fst (flush s)) = inbox s"
  by (auto simp: flush_def split: list.split option.split)

lemma instant_now_total:
  "\<exists>s' t. instant_now s = (s', Inr t) \<and> inbox s' = inbox s \<and> outbox s' = outbox s \<and>
     write_faults s' = write_faults s \<and> clock s \<le> clock s' \<and> t = clock s'"
  by (cases "ticks s") (auto simp: instant_now_def)

end
