(* ===== verification/Codec.thy ===== *)
theory Codec
  imports Prelude
begin

text \<open>
  The interface of a self-delimiting encoding: an encoder and a decoder that reads one
  value off the front of a byte stream and hands the rest back. From the two laws follow,
  once for all encodings, that a concatenation of encodings is read back value by value
  and that it determines the values. It is interpreted on the wire frames (theory \<open>Wire\<close>)
  and on the big-endian nonce field.
\<close>

text \<open>Read \<open>n\<close> values off the front of a stream.\<close>

fun decode_n :: "(bytes \<Rightarrow> ('a \<times> bytes) option) \<Rightarrow> nat \<Rightarrow> bytes \<Rightarrow> ('a list \<times> bytes) option" where
  "decode_n dec 0 bs = Some ([], bs)"
| "decode_n dec (Suc n) bs =
     (case dec bs of
        None \<Rightarrow> None
      | Some (x, rest) \<Rightarrow> map_option (\<lambda>(xs, r). (x # xs, r)) (decode_n dec n rest))"

locale codec =
  fixes enc :: "'a \<Rightarrow> bytes"
    and dec :: "bytes \<Rightarrow> ('a \<times> bytes) option"
    and valid :: "'a \<Rightarrow> bool"
  assumes dec_enc: "valid x \<Longrightarrow> dec (enc x @ rest) = Some (x, rest)"
    and enc_dec: "dec bs = Some (x, rest) \<Longrightarrow> valid x \<and> bs = enc x @ rest"
    and enc_nonempty: "enc x \<noteq> []"
begin

lemma decode_stream:
  "list_all valid xs \<Longrightarrow> decode_n dec (length xs) (concat (map enc xs) @ rest) = Some (xs, rest)"
  by (induction xs) (simp_all add: dec_enc)

lemma prefix_free:
  assumes "valid x" "valid y" "enc x @ r = enc y @ r'"
  shows "x = y \<and> r = r'"
proof -
  have "Some (x, r) = Some (y, r')"
    using dec_enc [OF assms(1), of r] dec_enc [OF assms(2), of r'] unfolding assms(3) by metis
  then show ?thesis by blast
qed

lemma stream_inject:
  "list_all valid xs \<Longrightarrow> list_all valid ys \<Longrightarrow>
   concat (map enc xs) = concat (map enc ys) \<Longrightarrow> xs = ys"
proof (induction xs arbitrary: ys)
  case Nil
  then show ?case
    by (cases ys) (simp_all add: enc_nonempty)
next
  case (Cons x xs)
  show ?case
  proof (cases ys)
    case Nil
    with Cons.prems(3) show ?thesis by (simp add: enc_nonempty)
  next
    case ys: (Cons y ys')
    have v: "valid x" "valid y" "list_all valid xs" "list_all valid ys'"
      using Cons.prems(1,2) ys by simp_all
    have "enc x @ concat (map enc xs) = enc y @ concat (map enc ys')"
      using Cons.prems(3) unfolding ys list.map concat.simps .
    from prefix_free [OF v(1,2) this] Cons.IH [OF v(3,4)] ys show ?thesis by blast
  qed
qed

lemma dec_shrinks: "dec bs = Some (x, rest) \<Longrightarrow> length rest < length bs"
  using enc_dec [of bs x rest] enc_nonempty [of x] by (cases "enc x") auto

end

text \<open>The 8-byte big-endian field.\<close>

definition u64_be_dec :: "bytes \<Rightarrow> (u64 \<times> bytes) option" where
  "u64_be_dec bs =
     (if length bs < 8 then None else Some (u64_from_be_bytes (take 8 bs), drop 8 bs))"

interpretation u64_be: codec u64_to_be_bytes u64_be_dec "\<lambda>_. True"
proof
  show "u64_be_dec (u64_to_be_bytes x @ rest) = Some (x, rest)" for x rest
    by (simp add: u64_be_dec_def)
  show "True \<and> bs = u64_to_be_bytes x @ rest" if "u64_be_dec bs = Some (x, rest)" for bs x rest
    using that by (auto simp: u64_be_dec_def u64_be_parse split: if_splits)
  show "u64_to_be_bytes x \<noteq> []" for x
    using length_word_bytes(2) [of x] by fastforce
qed

end
