(* ===== verification/Wire.thy ===== *)
theory Wire
  imports Net Codec
begin

text \<open>
  The length-prefixed wire frame (\<open>struct WireFrame\<close>, src/src/protocol/mod.rs 81-354): its
  constructors and accessors, the serialiser, and the two parsers, \<open>from_bytes\<close> on a
  complete buffer and \<open>read_from\<close> on a stream. The parsers are shown to accept exactly
  the serialisations of frames within the size limit.
\<close>

section \<open>Constants, the message-type parser and the frame\<close>

definition PROTOCOL_NAME :: bytes where
  "PROTOCOL_NAME = bytes_of ''Noise_NK_25519_ChaChaPoly_SHA256_v1''"

definition MAX_FRAME_SIZE :: nat where
  "MAX_FRAME_SIZE = 65536"

definition message_type_try_from :: "u8 \<Rightarrow> message_type result" where
  "message_type_try_from v =
     (if v = 0x01 then Inr HandshakeInit
      else if v = 0x02 then Inr HandshakeResp
      else if v = 0x03 then Inr DataPayload
      else if v = 0x04 then Inr Heartbeat
      else if v = 0x05 then Inr Close
      else Inl (Err (UnknownMessageType v)))"

record wire_frame =
  wf_msg_type :: message_type
  wf_nonce :: u64
  wf_payload :: bytes

definition new_frame :: "message_type \<Rightarrow> u64 \<Rightarrow> bytes \<Rightarrow> wire_frame" where
  "new_frame t n p = \<lparr>wf_msg_type = t, wf_nonce = n, wf_payload = p\<rparr>"

definition handshake_init_frame :: "u64 \<Rightarrow> bytes \<Rightarrow> wire_frame" where
  "handshake_init_frame n p = new_frame HandshakeInit n p"

definition handshake_resp_frame :: "u64 \<Rightarrow> bytes \<Rightarrow> wire_frame" where
  "handshake_resp_frame n p = new_frame HandshakeResp n p"

definition data_frame :: "u64 \<Rightarrow> bytes \<Rightarrow> wire_frame" where
  "data_frame n p = new_frame DataPayload n p"

definition data_from_slice :: "u64 \<Rightarrow> bytes \<Rightarrow> wire_frame" where
  "data_from_slice n p = new_frame DataPayload n p"

definition heartbeat_frame :: "u64 \<Rightarrow> bytes \<Rightarrow> wire_frame" where
  "heartbeat_frame n p = new_frame Heartbeat n p"

definition heartbeat_from_slice :: "u64 \<Rightarrow> bytes \<Rightarrow> wire_frame" where
  "heartbeat_from_slice n p = new_frame Heartbeat n p"

definition close_frame :: "u64 \<Rightarrow> wire_frame" where
  "close_frame n = new_frame Close n []"

definition is_handshake :: "wire_frame \<Rightarrow> bool" where
  "is_handshake f = mt_is_handshake (wf_msg_type f)"

definition is_handshake_init :: "wire_frame \<Rightarrow> bool" where
  "is_handshake_init f = mt_is_handshake_init (wf_msg_type f)"

definition is_handshake_resp :: "wire_frame \<Rightarrow> bool" where
  "is_handshake_resp f = mt_is_handshake_resp (wf_msg_type f)"

definition is_heartbeat :: "wire_frame \<Rightarrow> bool" where
  "is_heartbeat f = mt_is_heartbeat (wf_msg_type f)"

definition is_data :: "wire_frame \<Rightarrow> bool" where
  "is_data f = mt_is_data (wf_msg_type f)"

definition is_close :: "wire_frame \<Rightarrow> bool" where
  "is_close f = mt_is_close (wf_msg_type f)"

definition payload_len :: "wire_frame \<Rightarrow> nat" where
  "payload_len f = length (wf_payload f)"

definition frame_is_empty :: "wire_frame \<Rightarrow> bool" where
  "frame_is_empty f = (wf_payload f = [])"

definition max_payload_size :: nat where
  "max_payload_size = MAX_FRAME_SIZE - 9"

definition is_valid_payload_size :: "nat \<Rightarrow> bool" where
  "is_valid_payload_size len = (len \<le> max_payload_size)"

definition into_payload :: "wire_frame \<Rightarrow> bytes" where
  "into_payload f = wf_payload f"

definition into_parts :: "wire_frame \<Rightarrow> message_type \<times> u64 \<times> bytes" where
  "into_parts f = (wf_msg_type f, wf_nonce f, wf_payload f)"

definition header_bytes :: "wire_frame \<Rightarrow> bytes" where
  "header_bytes f = as_u8 (wf_msg_type f) # u64_to_be_bytes (wf_nonce f)"

section \<open>Serialisation and parsing\<close>

text \<open>The length field is the low 32 bits of the frame length (\<open>as u32\<close>).\<close>

definition serialize_into :: "wire_frame \<Rightarrow> bytes \<Rightarrow> bytes" where
  "serialize_into f buffer =
     (let total_frame_len = 1 + 8 + length (wf_payload f);
          buffer = buffer @ u32_to_be_bytes (word_of_nat total_frame_len);
          buffer = buffer @ [as_u8 (wf_msg_type f)];
          buffer = buffer @ u64_to_be_bytes (wf_nonce f)
      in buffer @ wf_payload f)"

definition serialize :: "wire_frame \<Rightarrow> bytes" where
  "serialize f = serialize_into f []"

definition write_to :: "wire_frame \<Rightarrow> (net, unit) act" where
  "write_to f = bindA (write_all (serialize f)) (\<lambda>_. flush)"

definition from_bytes :: "bytes \<Rightarrow> wire_frame result" where
  "from_bytes bs =
     (if length bs < 13 then Inl (Err (BufferTooShort (length bs)))
      else
        bindR (slice 0 4 bs) (\<lambda>len_bytes.
        let frame_len = unat (u32_from_be_bytes len_bytes) in
        if frame_len \<noteq> length bs - 4
        then Inl (Err (FrameLengthMismatch frame_len (length bs - 4)))
        else if frame_len < 9 then Inl (Err (FrameTooShort frame_len))
        else if MAX_FRAME_SIZE < frame_len then Inl (Err (FrameTooLarge frame_len))
        else
          bindR (index_at 4 bs) (\<lambda>tag.
          bindR (message_type_try_from tag) (\<lambda>t.
          bindR (slice 5 13 bs) (\<lambda>nonce_bytes.
          bindR (slice_from 13 bs) (\<lambda>payload.
          Inr \<lparr>wf_msg_type = t, wf_nonce = u64_from_be_bytes nonce_bytes, wf_payload = payload\<rparr>))))))"

definition read_from :: "(net, wire_frame) act" where
  "read_from =
     bindA (read_exact 4) (\<lambda>len_buf.
     let frame_len = unat (u32_from_be_bytes len_buf) in
     if frame_len < 9 then throw (Err (FrameTooShort frame_len))
     else if MAX_FRAME_SIZE < frame_len then throw (Err (FrameTooLarge frame_len))
     else
       bindA (read_exact frame_len) (\<lambda>raw_data.
       bindA (liftA (index_at 0 raw_data)) (\<lambda>tag.
       bindA (liftA (message_type_try_from tag)) (\<lambda>t.
       bindA (liftA (slice 1 9 raw_data)) (\<lambda>nonce_bytes.
       bindA (liftA (slice_from 9 raw_data)) (\<lambda>payload.
       ret \<lparr>wf_msg_type = t, wf_nonce = u64_from_be_bytes nonce_bytes, wf_payload = payload\<rparr>))))))"

section \<open>The serialiser's layout\<close>

lemma serialize_eq:
  "serialize f = u32_to_be_bytes (word_of_nat (9 + length (wf_payload f))) @ header_bytes f @ wf_payload f"
  by (simp add: serialize_def serialize_into_def header_bytes_def)

lemma serialize_into_append: "serialize_into f buffer = buffer @ serialize f"
  by (simp add: serialize_def serialize_into_def Let_def)

lemma length_header_bytes [simp, wire_simps]: "length (header_bytes f) = 9"
  by (simp add: header_bytes_def)

lemma length_serialize [simp, wire_simps]: "length (serialize f) = 13 + length (wf_payload f)"
  by (simp add: serialize_eq)

lemma serialize_nonempty [simp]: "serialize f \<noteq> []"
  using length_serialize [of f] by (metis add_is_0 list.size(3) zero_neq_numeral)

lemma message_type_roundtrip [simp]: "message_type_try_from (as_u8 t) = Inr t"
  by (cases t) (simp_all add: message_type_try_from_def)

lemma message_type_try_from_Inr: "message_type_try_from v = Inr t \<longleftrightarrow> v = as_u8 t"
  by (cases t) (auto simp: message_type_try_from_def)

definition valid_frame :: "wire_frame \<Rightarrow> bool" where
  "valid_frame f = is_valid_payload_size (payload_len f)"

lemma valid_frame_le: "valid_frame f \<longleftrightarrow> length (wf_payload f) \<le> 65527"
  by (simp add: valid_frame_def is_valid_payload_size_def max_payload_size_def
      MAX_FRAME_SIZE_def payload_len_def)

lemma u32_length_field:
  "n < 2 ^ 32 \<Longrightarrow> unat (u32_from_be_bytes (u32_to_be_bytes (word_of_nat n))) = n"
  by (simp add: unat_of_nat)

text \<open>The 9 header bytes followed by the payload determine the frame, and vice versa.\<close>

lemma header_parse:
  assumes "9 \<le> length raw" "message_type_try_from (raw ! 0) = Inr t"
  shows "header_bytes \<lparr>wf_msg_type = t, wf_nonce = u64_from_be_bytes (take 8 (drop 1 raw)),
           wf_payload = drop 9 raw\<rparr> @ drop 9 raw = raw"
proof -
  obtain b bs where raw: "raw = b # bs" using assms(1) by (cases raw) auto
  have "b = as_u8 t" using assms(2) raw by (simp add: message_type_try_from_Inr)
  moreover have "u64_to_be_bytes (u64_from_be_bytes (take 8 bs)) = take 8 bs"
    using assms(1) raw by (intro u64_be_parse) simp
  ultimately show ?thesis
    using raw by (simp add: header_bytes_def)
qed

lemma header_unparse:
  "(header_bytes f @ wf_payload f) ! 0 = as_u8 (wf_msg_type f)"
  "take 8 (drop 1 (header_bytes f @ wf_payload f)) = u64_to_be_bytes (wf_nonce f)"
  "drop (Suc 0) (header_bytes f) = u64_to_be_bytes (wf_nonce f)"
  "drop 9 (header_bytes f @ wf_payload f) = wf_payload f"
  by (simp_all add: header_bytes_def)

section \<open>The parsers accept exactly the serialised frames\<close>

lemma serialize_prefix:
  "take 4 (serialize f) = u32_to_be_bytes (word_of_nat (9 + length (wf_payload f)))"
  "drop 4 (serialize f) = header_bytes f @ wf_payload f"
  by (simp_all add: serialize_eq)

lemma read_from_serialize:
  assumes "valid_frame f" "inbox s = serialize f @ rest"
  shows "read_from s = (s\<lparr>inbox := rest\<rparr>, Inr f)"
proof -
  let ?n = "9 + length (wf_payload f)"
  have len: "unat (u32_from_be_bytes (take 4 (inbox s))) = ?n"
  proof -
    have "take 4 (inbox s) = u32_to_be_bytes (word_of_nat ?n)"
      using assms(2) by (simp add: serialize_prefix)
    then show ?thesis
      using assms(1) u32_length_field [of ?n] by (simp only: valid_frame_le) simp
  qed
  have first: "read_exact 4 s =
      (s\<lparr>inbox := header_bytes f @ wf_payload f @ rest\<rparr>, Inr (take 4 (inbox s)))"
    using assms(2) by (simp add: read_exact_def serialize_prefix)
  have second: "read_exact ?n (s\<lparr>inbox := header_bytes f @ wf_payload f @ rest\<rparr>) =
      (s\<lparr>inbox := rest\<rparr>, Inr (header_bytes f @ wf_payload f))"
    by (simp add: read_exact_def)
  show ?thesis
    using assms(1)
    by (simp add: read_from_def bindA_case first len Let_def valid_frame_le MAX_FRAME_SIZE_def
        second header_unparse liftA_def ret_def)
qed

lemma read_from_Inr_D:
  assumes "read_from s = (s', Inr f)"
  shows "valid_frame f \<and> inbox s = serialize f @ inbox s' \<and> s' = s\<lparr>inbox := inbox s'\<rparr>"
proof -
  define n where "n = unat (u32_from_be_bytes (take 4 (inbox s)))"
  define raw where "raw = take n (drop 4 (inbox s))"
  have four: "4 \<le> length (inbox s)"
    using assms by (auto simp: read_from_def bindA_case read_exact_def split: if_splits)
  have bounds: "9 \<le> n" "n \<le> 65536"
    using assms four
    by (auto simp: read_from_def bindA_case read_exact_def throw_def Let_def MAX_FRAME_SIZE_def
        n_def split: if_splits)
  have rest: "n \<le> length (drop 4 (inbox s))"
    using assms four bounds
    by (auto simp: read_from_def bindA_case read_exact_def throw_def Let_def MAX_FRAME_SIZE_def
        simp flip: n_def split: if_splits)
  have lraw: "length raw = n" using rest by (simp add: raw_def)
  obtain t where t: "message_type_try_from (raw ! 0) = Inr t"
    and f: "f = \<lparr>wf_msg_type = t, wf_nonce = u64_from_be_bytes (take 8 (drop 1 raw)),
                wf_payload = drop 9 raw\<rparr>"
    and s': "s' = s\<lparr>inbox := drop n (drop 4 (inbox s))\<rparr>"
    using assms four bounds rest
    by (auto simp: read_from_def bindA_case read_exact_def throw_def Let_def MAX_FRAME_SIZE_def
        liftA_def ret_def raw_def simp flip: n_def split: if_splits sum.splits)
  have body: "header_bytes f @ wf_payload f = raw"
    using header_parse [OF _ t] bounds lraw by (simp add: f)
  have "u32_to_be_bytes (word_of_nat n) = take 4 (inbox s)"
    using four by (simp add: n_def u32_be_parse)
  moreover have "9 + length (wf_payload f) = n"
    using bounds lraw by (simp add: f)
  ultimately have "serialize f = take 4 (inbox s) @ raw"
    by (simp add: serialize_eq body)
  moreover have "inbox s = take 4 (inbox s) @ raw @ drop n (drop 4 (inbox s))"
    unfolding raw_def append_take_drop_id ..
  ultimately show ?thesis
    using bounds lraw by (simp add: s' valid_frame_le f)
qed

lemma read_from_Inr:
  "read_from s = (s', Inr f) \<longleftrightarrow>
   valid_frame f \<and> inbox s = serialize f @ inbox s' \<and> s' = s\<lparr>inbox := inbox s'\<rparr>"
  using read_from_Inr_D [of s s' f] read_from_serialize [of f s "inbox s'"] by auto

lemma from_bytes_Inr: "from_bytes bs = Inr f \<longleftrightarrow> valid_frame f \<and> bs = serialize f"
proof
  assume ok: "from_bytes bs = Inr f"
  define n where "n = unat (u32_from_be_bytes (take 4 bs))"
  define raw where "raw = drop 4 bs"
  have l: "13 \<le> length bs" "n = length bs - 4" "9 \<le> n" "n \<le> 65536"
    using ok by (auto simp: from_bytes_def Let_def MAX_FRAME_SIZE_def n_def split: if_splits)
  have lraw: "length raw = n" using l by (simp add: raw_def)
  obtain t where t: "message_type_try_from (raw ! 0) = Inr t"
    and f: "f = \<lparr>wf_msg_type = t, wf_nonce = u64_from_be_bytes (take 8 (drop 1 raw)),
                wf_payload = drop 9 raw\<rparr>"
    using ok l
    by (auto simp: from_bytes_def Let_def MAX_FRAME_SIZE_def raw_def bindR_Inr
        simp flip: n_def split: if_splits sum.splits)
  have body: "header_bytes f @ wf_payload f = raw"
    using header_parse [OF _ t] l lraw by (simp add: f)
  have "u32_to_be_bytes (word_of_nat n) = take 4 bs"
    using l(1) by (simp add: n_def u32_be_parse)
  moreover have "9 + length (wf_payload f) = n"
    using l lraw by (simp add: f)
  ultimately have "serialize f = take 4 bs @ raw"
    by (simp add: serialize_eq body)
  then show "valid_frame f \<and> bs = serialize f"
    using l lraw by (simp add: raw_def valid_frame_le f)
next
  assume f: "valid_frame f \<and> bs = serialize f"
  let ?n = "9 + length (wf_payload f)"
  have bs: "bs = u32_to_be_bytes (word_of_nat ?n) @ as_u8 (wf_msg_type f) #
      u64_to_be_bytes (wf_nonce f) @ wf_payload f"
    using f by (simp only: serialize_eq header_bytes_def append_Cons)
  then have "take 4 bs = u32_to_be_bytes (word_of_nat ?n)"
    by simp
  then have "unat (u32_from_be_bytes (take 4 bs)) = ?n"
    using f u32_length_field [of ?n] by (simp only: valid_frame_le) simp
  moreover have "bs ! 4 = as_u8 (wf_msg_type f)" "take 8 (drop 5 bs) = u64_to_be_bytes (wf_nonce f)"
      "drop 13 bs = wf_payload f"
    unfolding bs by (simp_all add: nth_append)
  ultimately show "from_bytes bs = Inr f"
    using f by (simp add: from_bytes_def Let_def valid_frame_le MAX_FRAME_SIZE_def)
qed

section \<open>Frames as a codec\<close>

definition frame_dec :: "bytes \<Rightarrow> (wire_frame \<times> bytes) option" where
  "frame_dec bs =
     (case read_from (connection bs) of (s, Inr f) \<Rightarrow> Some (f, inbox s) | (_, Inl _) \<Rightarrow> None)"

lemma frame_dec_Some:
  "frame_dec bs = Some (f, rest) \<longleftrightarrow> (\<exists>s. read_from (connection bs) = (s, Inr f) \<and> rest = inbox s)"
  by (auto simp: frame_dec_def split: prod.splits sum.splits)

interpretation frames: codec serialize frame_dec valid_frame
proof
  show "frame_dec (serialize f @ rest) = Some (f, rest)" if "valid_frame f" for f rest
    using read_from_serialize [OF that, of "connection (serialize f @ rest)" rest]
    by (simp add: frame_dec_def)
  show "valid_frame f \<and> bs = serialize f @ rest" if "frame_dec bs = Some (f, rest)" for bs f rest
    using that by (auto simp: frame_dec_Some read_from_Inr)
  show "serialize f \<noteq> []" for f
    by simp
qed

lemma read_from_only_inbox: "fst (read_from s) = s\<lparr>inbox := inbox (fst (read_from s))\<rparr>"
  by (auto simp: read_from_def bindA_case read_exact_def throw_def liftA_def ret_def Let_def
      split: sum.split)

lemma read_from_no_panic: "read_from s \<noteq> (s', Inl (Panic p))"
  by (auto simp: read_from_def bindA_case read_exact_def throw_def liftA_def ret_def Let_def
      message_type_try_from_def split: sum.split)

lemma read_from_progress: "read_from s = (s', Inr f) \<Longrightarrow> length (inbox s') + 13 \<le> length (inbox s)"
  by (auto simp: read_from_Inr dest: arg_cong [where f = length])

lemma read_from_eof: "inbox s = [] \<Longrightarrow> read_from s = (s, Inl (Err Io))"
  by (simp add: read_from_def bindA_case read_exact_def)

lemma write_to_clean [act_simps]:
  "write_faults s = [] \<Longrightarrow> write_to f s = (s\<lparr>outbox := outbox s @ serialize f\<rparr>, Inr ())"
  by (simp add: write_to_def bindA_case act_simps)

lemma write_to_inbox: "inbox (fst (write_to f s)) = inbox s"
  using write_all_frame [of "serialize f" s] flush_frame
  by (auto simp: write_to_def bindA_case split: prod.split sum.split)

lemma write_effects:
  "write_all bs s = (s', Inr x) \<Longrightarrow> inbox s' = inbox s \<and> outbox s' = outbox s @ bs"
  "flush s = (s', Inr x) \<Longrightarrow> inbox s' = inbox s \<and> outbox s' = outbox s"
  by (auto simp: write_all_def flush_def split: list.split_asm option.split_asm)

lemma write_to_effect:
  "write_to f s = (s', Inr x) \<Longrightarrow> inbox s' = inbox s \<and> outbox s' = outbox s @ serialize f"
  by (auto simp: write_to_def bindA_eq_Inr dest!: write_effects)

section \<open>Properties\<close>

text \<open>
  C16. \<open>from_bytes\<close> is the exact inverse of \<open>serialize\<close>: a buffer is accepted if and only if
  it is the serialisation of a frame whose payload is within the protocol's limit, and
  then that frame is the result.
\<close>

theorem from_bytes_exact:
  "from_bytes bs = Inr f \<longleftrightarrow> is_valid_payload_size (payload_len f) \<and> bs = serialize f"
  by (simp add: from_bytes_Inr valid_frame_def)

text \<open>
  C15. Reading from a stream is exact: \<open>read_from\<close> returns a frame if and only if the stream
  starts with the serialisation of that frame, its payload is within the limit, and it
  leaves the reader just behind it, with nothing else of the connection changed.
\<close>

theorem read_from_exact:
  "read_from s = (s', Inr f) \<longleftrightarrow>
     is_valid_payload_size (payload_len f) \<and> inbox s = serialize f @ inbox s' \<and>
     s' = s\<lparr>inbox := inbox s'\<rparr>"
  by (simp add: read_from_Inr valid_frame_def)

text \<open>
  A stream of back-to-back frames within the limit is read back frame by frame, in
  order and without losing what follows them.
\<close>

theorem frame_stream_roundtrip:
  assumes "list_all (\<lambda>f. is_valid_payload_size (payload_len f)) fs"
  shows "decode_n frame_dec (length fs) (concat (map serialize fs) @ rest) = Some (fs, rest)"
  using assms frames.decode_stream [of fs rest] by (simp add: valid_frame_def [abs_def])

theorem frame_stream_roundtrip_witness:
  "decode_n frame_dec 2 (serialize (data_frame 7 [1, 2, 3]) @ serialize (close_frame 8) @ [9]) =
     Some ([data_frame 7 [1, 2, 3], close_frame 8], [9])"
  using frame_stream_roundtrip [of "[data_frame 7 [1, 2, 3], close_frame 8]" "[9]"]
  by (simp add: is_valid_payload_size_def max_payload_size_def MAX_FRAME_SIZE_def payload_len_def
      data_frame_def close_frame_def new_frame_def numeral_2_eq_2)

text \<open>
  The size guard holds before any body is read: a length prefix above the limit is
  refused with exactly the four prefix bytes consumed, one below the header size likewise,
  and whatever the peer sends, a frame that is returned has at most 65527 payload bytes.
\<close>

theorem read_from_size_guard:
  assumes "4 \<le> length (inbox s)"
    and "n = unat (u32_from_be_bytes (take 4 (inbox s)))"
  shows "(MAX_FRAME_SIZE < n \<longrightarrow>
           read_from s = (s\<lparr>inbox := drop 4 (inbox s)\<rparr>, Inl (Err (FrameTooLarge n)))) \<and>
         (n < 9 \<longrightarrow>
           read_from s = (s\<lparr>inbox := drop 4 (inbox s)\<rparr>, Inl (Err (FrameTooShort n)))) \<and>
         (\<forall>s' f. read_from s = (s', Inr f) \<longrightarrow>
           payload_len f = n - 9 \<and> payload_len f \<le> max_payload_size)"
proof (intro conjI impI allI)
  show "read_from s = (s\<lparr>inbox := drop 4 (inbox s)\<rparr>, Inl (Err (FrameTooLarge n)))"
    if "MAX_FRAME_SIZE < n"
    using assms that
    by (simp add: read_from_def bindA_case read_exact_def throw_def Let_def MAX_FRAME_SIZE_def)
  show "read_from s = (s\<lparr>inbox := drop 4 (inbox s)\<rparr>, Inl (Err (FrameTooShort n)))"
    if "n < 9"
    using assms that by (simp add: read_from_def bindA_case read_exact_def throw_def Let_def)
next
  fix s' f
  assume "read_from s = (s', Inr f)"
  then have f: "valid_frame f" "take 4 (inbox s) = u32_to_be_bytes (word_of_nat (9 + length (wf_payload f)))"
    by (auto simp: read_from_Inr serialize_prefix)
  have "n = 9 + length (wf_payload f)"
    unfolding assms(2) f(2) using f(1) by (intro u32_length_field) (simp add: valid_frame_le)
  then show "payload_len f = n - 9"
    by (simp add: payload_len_def)
  show "payload_len f \<le> max_payload_size"
    using f(1) by (simp add: valid_frame_def is_valid_payload_size_def)
qed

theorem read_from_size_guard_witness:
  "read_from (connection (u32_to_be_bytes 65546 @ replicate 16 0)) =
     (connection (replicate 16 0), Inl (Err (FrameTooLarge 65546)))"
  using read_from_size_guard [of "connection (u32_to_be_bytes 65546 @ replicate 16 0)" 65546]
  by (simp add: MAX_FRAME_SIZE_def connection_def)

end
