(* ===== verification/Primitives.thy ===== *)
theory Primitives
  imports Errors
begin

text \<open>
  The cryptographic and encoding crates the source calls (\<open>x25519-dalek\<close>, \<open>hkdf\<close>, \<open>sha2\<close>,
  \<open>chacha20poly1305\<close>, \<open>hex\<close>) are not part of the repository. They are one argument of the
  model, a record of functions, and every definition that calls one takes it. What the
  code relies on is stated as named predicates on that record, each a documented fact of
  the crate; a theorem that needs one says so. None of them is a secrecy assumption.
\<close>

record primitives =
  p_sha256 :: "bytes \<Rightarrow> bytes"
  p_hkdf_extract :: "bytes \<Rightarrow> bytes \<Rightarrow> bytes"
  p_hkdf_expand :: "bytes \<Rightarrow> bytes \<Rightarrow> nat \<Rightarrow> bytes option"
  p_seal :: "bytes \<Rightarrow> bytes \<Rightarrow> bytes \<Rightarrow> bytes \<Rightarrow> bytes option"
  p_open :: "bytes \<Rightarrow> bytes \<Rightarrow> bytes \<Rightarrow> bytes \<Rightarrow> bytes option"
  p_x25519 :: "bytes \<Rightarrow> bytes \<Rightarrow> bytes"
  p_x25519_base :: "bytes \<Rightarrow> bytes"
  p_hex_encode :: "bytes \<Rightarrow> bytes"
  p_hex_decode :: "bytes \<Rightarrow> bytes option"

section \<open>Documented behaviour\<close>

text \<open>RFC 7748: both parties compute the same shared secret; all values have 32 bytes.\<close>

definition dh_agrees :: "primitives \<Rightarrow> bool" where
  "dh_agrees P \<longleftrightarrow>
     (\<forall>a b. length a = 32 \<longrightarrow> length b = 32 \<longrightarrow>
        p_x25519 P a (p_x25519_base P b) = p_x25519 P b (p_x25519_base P a))"

definition dh_lengths :: "primitives \<Rightarrow> bool" where
  "dh_lengths P \<longleftrightarrow>
     (\<forall>a. length (p_x25519_base P a) = 32) \<and> (\<forall>a b. length (p_x25519 P a b) = 32)"

text \<open>RFC 5869: expanding to 32 bytes, below the limit of 255 hash lengths, always succeeds.\<close>

definition hkdf_expands :: "primitives \<Rightarrow> bool" where
  "hkdf_expands P \<longleftrightarrow>
     (\<forall>prk info. \<exists>okm. p_hkdf_expand P prk info 32 = Some okm \<and> length okm = 32)"

text \<open>
  RFC 8439 with a 16-byte tag appended: opening inverts sealing, sealing succeeds below
  the length limit of the cipher, and opening is the tag check, so a ciphertext that opens
  is the sealing of what it opens to. The last one is the stream cipher: ciphertexts that
  agree up to the tag open to the same plaintext if both open.
\<close>

definition aead_limit :: nat where
  "aead_limit = 2 ^ 38 - 64"

definition aead_correct :: "primitives \<Rightarrow> bool" where
  "aead_correct P \<longleftrightarrow> (\<forall>k n a m c. p_seal P k n a m = Some c \<longrightarrow> p_open P k n a c = Some m)"

definition aead_seals :: "primitives \<Rightarrow> bool" where
  "aead_seals P \<longleftrightarrow>
     (\<forall>k n a m. length m < aead_limit \<longrightarrow>
        (\<exists>c. p_seal P k n a m = Some c \<and> length c = length m + 16))"

definition aead_tagged :: "primitives \<Rightarrow> bool" where
  "aead_tagged P \<longleftrightarrow> (\<forall>k n a m c. p_open P k n a c = Some m \<longrightarrow> p_seal P k n a m = Some c)"

definition aead_stream :: "primitives \<Rightarrow> bool" where
  "aead_stream P \<longleftrightarrow>
     (\<forall>k n a c c' m m'. p_open P k n a c = Some m \<longrightarrow> p_open P k n a c' = Some m' \<longrightarrow>
        length c = length c' \<longrightarrow> take (length c - 16) c = take (length c - 16) c' \<longrightarrow> m = m')"

text \<open>The length of the ciphertext is that of the plaintext and the tag, whoever made it.\<close>

definition aead_sized :: "primitives \<Rightarrow> bool" where
  "aead_sized P \<longleftrightarrow>
     (\<forall>k n a m c. p_seal P k n a m = Some c \<or> p_open P k n a c = Some m \<longrightarrow> length c = length m + 16)"

text \<open>The \<open>hex\<close> crate: two lower-case digits per byte, and decoding inverts encoding
  and takes two digits for each byte.\<close>

definition hex_digit :: "u8 \<Rightarrow> bool" where
  "hex_digit b = ((0x30 \<le> b \<and> b \<le> 0x39) \<or> (0x61 \<le> b \<and> b \<le> 0x66))"

definition hex_inverts :: "primitives \<Rightarrow> bool" where
  "hex_inverts P \<longleftrightarrow>
     (\<forall>bs. p_hex_decode P (p_hex_encode P bs) = Some bs \<and>
           list_all hex_digit (p_hex_encode P bs) \<and>
           length (p_hex_encode P bs) = 2 * length bs)"

definition hex_halves :: "primitives \<Rightarrow> bool" where
  "hex_halves P \<longleftrightarrow> (\<forall>cs bs. p_hex_decode P cs = Some bs \<longrightarrow> length cs = 2 * length bs)"

text \<open>The facts a session between an honest client and an honest server rests on.\<close>

definition session_primitives :: "primitives \<Rightarrow> bool" where
  "session_primitives P \<longleftrightarrow>
     dh_agrees P \<and> dh_lengths P \<and> hkdf_expands P \<and> aead_correct P \<and> aead_seals P"

lemma session_primitivesD:
  assumes "session_primitives P"
  shows "dh_agrees P" "dh_lengths P" "hkdf_expands P" "aead_correct P" "aead_seals P"
  using assms by (simp_all add: session_primitives_def)

lemma seal_total:
  assumes "aead_correct P" "aead_seals P" "length m < aead_limit"
  obtains c where "p_seal P k n a m = Some c" "p_open P k n a c = Some m" "length c = length m + 16"
  using assms unfolding aead_correct_def aead_seals_def by meson

section \<open>A concrete instance\<close>

text \<open>
  A toy instance shows that the predicates can hold together; witnesses are evaluated on
  it. It has no security: the base point operation is the identity, the shared secret the
  byte-wise sum, the cipher the identity with a tag computed from key, nonce, associated
  data and message, and hexadecimal is written out.
\<close>

definition pad32 :: "bytes \<Rightarrow> bytes" where
  "pad32 bs = take 32 (bs @ replicate 32 0)"

definition toy_tag :: "bytes \<Rightarrow> bytes \<Rightarrow> bytes \<Rightarrow> bytes \<Rightarrow> bytes" where
  "toy_tag k n a m = u64_to_le_bytes (word_of_nat (le_val (k @ n))) @
                     u64_to_le_bytes (word_of_nat (le_val (a @ m)))"

definition hex_nibble :: "u8 \<Rightarrow> u8" where
  "hex_nibble d = (if d < 10 then 0x30 + d else 0x57 + d)"

definition hex_value :: "u8 \<Rightarrow> u8 option" where
  "hex_value c = (if 0x30 \<le> c \<and> c \<le> 0x39 then Some (c - 0x30)
                  else if 0x61 \<le> c \<and> c \<le> 0x66 then Some (c - 0x57) else None)"

fun toy_hex_encode :: "bytes \<Rightarrow> bytes" where
  "toy_hex_encode [] = []"
| "toy_hex_encode (b # bs) = hex_nibble (b div 16) # hex_nibble (b mod 16) # toy_hex_encode bs"

fun toy_hex_decode :: "bytes \<Rightarrow> bytes option" where
  "toy_hex_decode [] = Some []"
| "toy_hex_decode [c] = None"
| "toy_hex_decode (c # d # cs) =
     (case (hex_value c, hex_value d, toy_hex_decode cs) of
        (Some h, Some l, Some bs) \<Rightarrow> Some ((h * 16 + l) # bs)
      | _ \<Rightarrow> None)"

definition toy :: primitives where
  "toy = \<lparr>
     p_sha256 = pad32,
     p_hkdf_extract = (\<lambda>salt ikm. pad32 (ikm @ salt)),
     p_hkdf_expand = (\<lambda>prk info n. if n \<le> 8160 then Some (take n (pad32 (take 4 (drop 13 info) @ prk) @ replicate n 0)) else None),
     p_seal = (\<lambda>k n a m. if length m < aead_limit then Some (m @ toy_tag k n a m) else None),
     p_open = (\<lambda>k n a c.
        let m = take (length c - 16) c in
        if length m < aead_limit \<and> c = m @ toy_tag k n a m then Some m else None),
     p_x25519 = (\<lambda>a b. pad32 (map2 (+) a b)),
     p_x25519_base = pad32,
     p_hex_encode = toy_hex_encode,
     p_hex_decode = toy_hex_decode\<rparr>"

lemma length_pad32 [simp]: "length (pad32 bs) = 32"
  by (simp add: pad32_def)

lemma pad32_id: "length bs = 32 \<Longrightarrow> pad32 bs = bs"
  by (simp add: pad32_def)

lemma length_toy_tag [simp]: "length (toy_tag k n a m) = 16"
  by (simp add: toy_tag_def)

lemma map2_plus_commute: "map2 (+) xs ys = map2 (+) ys (xs :: bytes)"
  by (induction xs ys rule: list_induct2') (simp_all add: add.commute)

lemma toy_dh: "dh_agrees toy" "dh_lengths toy"
  by (simp_all add: dh_agrees_def dh_lengths_def toy_def pad32_id map2_plus_commute)

lemma toy_hkdf: "hkdf_expands toy"
  by (simp add: hkdf_expands_def toy_def)

lemma toy_aead: "aead_correct toy" "aead_seals toy" "aead_tagged toy" "aead_stream toy"
proof -
  show "aead_correct toy" "aead_seals toy"
    by (auto simp: aead_correct_def aead_seals_def toy_def Let_def)
  show "aead_tagged toy"
    by (auto simp: aead_tagged_def toy_def Let_def split: if_splits)
  show "aead_stream toy"
    by (auto simp: aead_stream_def toy_def Let_def split: if_splits)
qed

lemma toy_sized: "aead_sized toy"
proof -
  have "length c = length (take (length c - 16) c) + 16"
    if "c = take (length c - 16) c @ toy_tag k n a (take (length c - 16) c)" for k n a c
    using arg_cong [OF that, of length] by simp
  then show ?thesis
    by (auto simp: aead_sized_def toy_def Let_def simp del: length_take split: if_splits)
qed

lemma toy_session: "session_primitives toy"
  by (simp add: session_primitives_def toy_dh toy_hkdf toy_aead)

lemma hex_nibble_value:
  "d < 16 \<Longrightarrow> hex_digit (hex_nibble d) \<and> hex_value (hex_nibble d) = Some d"
  by (auto simp: hex_nibble_def hex_value_def hex_digit_def word_less_nat_alt word_le_nat_alt
      unat_word_ariths)

lemma nibbles: "(b :: u8) div 16 < 16" "b mod 16 < 16" "b div 16 * 16 + b mod 16 = b"
  using unat_u8 [of b] by (simp_all add: word_less_nat_alt unat_div unat_mod div_mult_mod_eq)

lemma toy_hex: "hex_inverts toy"
proof -
  have "toy_hex_decode (toy_hex_encode bs) = Some bs \<and> list_all hex_digit (toy_hex_encode bs) \<and>
        length (toy_hex_encode bs) = 2 * length bs" for bs
    by (induction bs) (simp_all add: hex_nibble_value nibbles)
  then show ?thesis by (simp add: hex_inverts_def toy_def)
qed

lemma toy_hex_halves: "hex_halves toy"
proof -
  have "toy_hex_decode cs = Some bs \<Longrightarrow> length cs = 2 * length bs" for cs bs
    by (induction cs arbitrary: bs rule: toy_hex_decode.induct) (auto split: option.splits)
  then show ?thesis by (simp add: hex_halves_def toy_def)
qed

end
