(* ===== verification/Utf8.thy ===== *)
theory Utf8
  imports Prelude
begin

text \<open>
  What the source uses of Rust's strings. A \<open>str\<close> is its UTF-8 bytes.
  \<open>utf8_head\<close> reads one character as the standard library's decoder does: the number of
  bytes of the next character, or of the maximal invalid prefix that is replaced as a
  unit, and whether it is a character. \<open>from_utf8\<close> and \<open>from_utf8_lossy\<close> are built on it.
\<close>

definition cont_byte :: "u8 \<Rightarrow> bool" where
  "cont_byte b = (0x80 \<le> b \<and> b \<le> 0xBF)"

text \<open>The range of the second byte for each first byte of a 3- or 4-byte character.\<close>

definition second3 :: "u8 \<Rightarrow> u8 \<Rightarrow> bool" where
  "second3 b c =
     (if b = 0xE0 then 0xA0 \<le> c \<and> c \<le> 0xBF
      else if b = 0xED then 0x80 \<le> c \<and> c \<le> 0x9F
      else cont_byte c)"

definition second4 :: "u8 \<Rightarrow> u8 \<Rightarrow> bool" where
  "second4 b c =
     (if b = 0xF0 then 0x90 \<le> c \<and> c \<le> 0xBF
      else if b = 0xF4 then 0x80 \<le> c \<and> c \<le> 0x8F
      else cont_byte c)"

fun utf8_tail2 :: "bytes \<Rightarrow> nat \<times> bool" where
  "utf8_tail2 (c # _) = (if cont_byte c then (2, True) else (1, False))"
| "utf8_tail2 [] = (1, False)"

fun utf8_tail3 :: "u8 \<Rightarrow> bytes \<Rightarrow> nat \<times> bool" where
  "utf8_tail3 b (c # d # _) =
     (if \<not> second3 b c then (1, False) else if cont_byte d then (3, True) else (2, False))"
| "utf8_tail3 b [c] = (if second3 b c then (2, False) else (1, False))"
| "utf8_tail3 b [] = (1, False)"

fun utf8_tail4 :: "u8 \<Rightarrow> bytes \<Rightarrow> nat \<times> bool" where
  "utf8_tail4 b (c # d # e # _) =
     (if \<not> second4 b c then (1, False)
      else if \<not> cont_byte d then (2, False)
      else if cont_byte e then (4, True) else (3, False))"
| "utf8_tail4 b [c, d] =
     (if \<not> second4 b c then (1, False) else if cont_byte d then (3, False) else (2, False))"
| "utf8_tail4 b [c] = (if second4 b c then (2, False) else (1, False))"
| "utf8_tail4 b [] = (1, False)"

definition utf8_head :: "u8 \<Rightarrow> bytes \<Rightarrow> nat \<times> bool" where
  "utf8_head b bs =
     (if b \<le> 0x7F then (1, True)
      else if 0xC2 \<le> b \<and> b \<le> 0xDF then utf8_tail2 bs
      else if 0xE0 \<le> b \<and> b \<le> 0xEF then utf8_tail3 b bs
      else if 0xF0 \<le> b \<and> b \<le> 0xF4 then utf8_tail4 b bs
      else (1, False))"

lemma utf8_tail_bounds:
  "1 \<le> fst (utf8_tail2 bs) \<and> fst (utf8_tail2 bs) \<le> Suc (length bs)"
  "1 \<le> fst (utf8_tail3 b bs) \<and> fst (utf8_tail3 b bs) \<le> Suc (length bs)"
  "1 \<le> fst (utf8_tail4 b bs) \<and> fst (utf8_tail4 b bs) \<le> Suc (length bs)"
  subgoal by (induction bs rule: utf8_tail2.induct) simp_all
  subgoal by (induction b bs rule: utf8_tail3.induct) simp_all
  subgoal by (induction b bs rule: utf8_tail4.induct) simp_all
  done

lemma utf8_head_bounds:
  "1 \<le> fst (utf8_head b bs)" "fst (utf8_head b bs) \<le> Suc (length bs)"
  using utf8_tail_bounds(1) [of bs] utf8_tail_bounds(2,3) [of b bs]
  by (simp_all add: utf8_head_def)

function from_utf8_lossy :: "bytes \<Rightarrow> bytes" where
  "from_utf8_lossy [] = []"
| "from_utf8_lossy (b # bs) =
     (if snd (utf8_head b bs) then take (fst (utf8_head b bs)) (b # bs) else [0xEF, 0xBF, 0xBD]) @
     from_utf8_lossy (drop (fst (utf8_head b bs)) (b # bs))"
  by pat_completeness auto
termination
proof (relation "measure length")
  show "(drop (fst (utf8_head b bs)) (b # bs), b # bs) \<in> measure length" for b bs
    using utf8_head_bounds(1) [of b bs] by simp
qed simp

function utf8_valid :: "bytes \<Rightarrow> bool" where
  "utf8_valid [] = True"
| "utf8_valid (b # bs) =
     (snd (utf8_head b bs) \<and> utf8_valid (drop (fst (utf8_head b bs)) (b # bs)))"
  by pat_completeness auto
termination
proof (relation "measure length")
  show "(drop (fst (utf8_head b bs)) (b # bs), b # bs) \<in> measure length" for b bs
    using utf8_head_bounds(1) [of b bs] by simp
qed simp

definition from_utf8 :: "bytes \<Rightarrow> bytes option" where
  "from_utf8 bs = (if utf8_valid bs then Some bs else None)"

declare from_utf8_lossy.simps(2) [simp del] utf8_valid.simps(2) [simp del]

section \<open>Characters do not depend on what follows\<close>

lemma utf8_tails_append:
  "snd (utf8_tail2 bs) \<Longrightarrow> utf8_tail2 (bs @ ys) = utf8_tail2 bs"
  "snd (utf8_tail3 b bs) \<Longrightarrow> utf8_tail3 b (bs @ ys) = utf8_tail3 b bs"
  "snd (utf8_tail4 b bs) \<Longrightarrow> utf8_tail4 b (bs @ ys) = utf8_tail4 b bs"
  subgoal by (induction bs rule: utf8_tail2.induct) simp_all
  subgoal by (induction b bs rule: utf8_tail3.induct) (simp_all split: if_splits)
  subgoal by (induction b bs rule: utf8_tail4.induct) (simp_all split: if_splits)
  done

lemma utf8_tails_take:
  "snd (utf8_tail2 bs) \<Longrightarrow> utf8_tail2 (take (fst (utf8_tail2 bs) - 1) bs) = utf8_tail2 bs"
  "snd (utf8_tail3 b bs) \<Longrightarrow> utf8_tail3 b (take (fst (utf8_tail3 b bs) - 1) bs) = utf8_tail3 b bs"
  "snd (utf8_tail4 b bs) \<Longrightarrow> utf8_tail4 b (take (fst (utf8_tail4 b bs) - 1) bs) = utf8_tail4 b bs"
  subgoal by (induction bs rule: utf8_tail2.induct) simp_all
  subgoal by (induction b bs rule: utf8_tail3.induct) (simp_all split: if_splits)
  subgoal by (induction b bs rule: utf8_tail4.induct) (simp_all split: if_splits)
  done

lemma utf8_head_append: "snd (utf8_head b bs) \<Longrightarrow> utf8_head b (bs @ ys) = utf8_head b bs"
  by (auto simp: utf8_head_def utf8_tails_append split: if_splits)

lemma utf8_head_take:
  "snd (utf8_head b bs) \<Longrightarrow> utf8_head b (take (fst (utf8_head b bs) - 1) bs) = utf8_head b bs"
  using utf8_tails_take(1) [of bs] utf8_tails_take(2,3) [of b bs]
  by (auto simp: utf8_head_def split: if_splits)

lemma utf8_valid_append: "utf8_valid xs \<Longrightarrow> utf8_valid (xs @ ys) = utf8_valid ys"
proof (induction xs rule: utf8_valid.induct)
  case (2 b bs)
  then have ok: "snd (utf8_head b bs)" "utf8_valid (drop (fst (utf8_head b bs)) (b # bs))"
    by (simp_all add: utf8_valid.simps(2))
  have "drop (fst (utf8_head b bs)) ((b # bs) @ ys) = drop (fst (utf8_head b bs)) (b # bs) @ ys"
    using utf8_head_bounds(2) [of b bs] unfolding drop_append by simp
  then show ?case
    using 2(1) [OF ok(2)] ok(1)
    by (simp only: append_Cons utf8_valid.simps(2) [of b "bs @ ys"] utf8_head_append simp_thms)
qed simp

lemma utf8_valid_char:
  assumes "snd (utf8_head b bs)"
  shows "utf8_valid (take (fst (utf8_head b bs)) (b # bs))"
proof -
  obtain m where m: "fst (utf8_head b bs) = Suc m"
    using utf8_head_bounds(1) [of b bs] by (cases "fst (utf8_head b bs)") auto
  with utf8_head_take [OF assms] have "utf8_head b (take m bs) = utf8_head b bs"
    by simp
  with m assms show ?thesis
    by (simp add: utf8_valid.simps(2))
qed

lemma utf8_valid_replacement: "utf8_valid [0xEF, 0xBF, 0xBD]"
  by (simp add: utf8_valid.simps(2) utf8_head_def second3_def cont_byte_def)

lemma utf8_valid_lossy: "utf8_valid (from_utf8_lossy bs)"
proof (induction bs rule: from_utf8_lossy.induct)
  case (2 b bs)
  then show ?case
    by (simp add: from_utf8_lossy.simps(2) utf8_valid_append utf8_valid_char
        utf8_valid_replacement del: take_Cons' append.simps)
qed simp

lemma lossy_valid: "utf8_valid bs \<Longrightarrow> from_utf8_lossy bs = bs"
proof (induction bs rule: utf8_valid.induct)
  case (2 b bs)
  then have ok: "snd (utf8_head b bs)" "utf8_valid (drop (fst (utf8_head b bs)) (b # bs))"
    by (simp_all add: utf8_valid.simps(2))
  from 2(1) [OF ok(2)] ok(1) show ?case
    by (simp only: from_utf8_lossy.simps(2) if_True append_take_drop_id)
qed simp

lemma length_lossy: "length (from_utf8_lossy bs) \<le> 3 * length bs"
proof (induction bs rule: from_utf8_lossy.induct)
  case (2 b bs)
  define n where "n = fst (utf8_head b bs)"
  have n: "1 \<le> n" "n \<le> length (b # bs)"
    using utf8_head_bounds [of b bs] by (simp_all add: n_def)
  have "length (from_utf8_lossy (b # bs)) \<le> 3 * n + length (from_utf8_lossy (drop n (b # bs)))"
    using n by (auto simp: from_utf8_lossy.simps(2) simp flip: n_def)
  also have "\<dots> \<le> 3 * n + 3 * length (drop n (b # bs))"
    using 2 by (simp flip: n_def)
  finally show ?case using n(2) by simp
qed simp

lemma utf8_valid_ascii: "list_all (\<lambda>b. b \<le> 0x7F) bs \<Longrightarrow> utf8_valid bs"
  by (induction bs) (simp_all add: utf8_valid.simps(2) utf8_head_def)

section \<open>Trimming and printing numbers\<close>

text \<open>
  \<open>str::trim\<close> strips the characters with the Unicode property \<open>White_Space\<close> from both
  ends; here they are given by their UTF-8 bytes.
\<close>

definition white_space :: "bytes list" where
  "white_space =
     [[0x09], [0x0A], [0x0B], [0x0C], [0x0D], [0x20], [0xC2, 0x85], [0xC2, 0xA0],
      [0xE1, 0x9A, 0x80], [0xE2, 0x80, 0x80], [0xE2, 0x80, 0x81], [0xE2, 0x80, 0x82],
      [0xE2, 0x80, 0x83], [0xE2, 0x80, 0x84], [0xE2, 0x80, 0x85], [0xE2, 0x80, 0x86],
      [0xE2, 0x80, 0x87], [0xE2, 0x80, 0x88], [0xE2, 0x80, 0x89], [0xE2, 0x80, 0x8A],
      [0xE2, 0x80, 0xA8], [0xE2, 0x80, 0xA9], [0xE2, 0x80, 0xAF], [0xE2, 0x81, 0x9F],
      [0xE3, 0x80, 0x80]]"

text \<open>Strip prefixes from a list of non-empty ones, as long as one matches.\<close>

function strip_front :: "bytes list \<Rightarrow> bytes \<Rightarrow> bytes" where
  "strip_front ws [] = []"
| "strip_front ws (b # bs) =
     (case List.find (\<lambda>w. take (length w) (b # bs) = w) ws of
        None \<Rightarrow> b # bs
      | Some w \<Rightarrow> strip_front ws (drop (length w - 1) bs))"
  by pat_completeness auto
termination
  by (relation "measure (length \<circ> snd)") auto

definition trim :: "bytes \<Rightarrow> bytes" where
  "trim bs = rev (strip_front (map rev white_space) (rev (strip_front white_space bs)))"

definition printable_ascii :: "u8 \<Rightarrow> bool" where
  "printable_ascii b = (0x21 \<le> b \<and> b \<le> 0x7E)"

lemma strip_front_stops:
  "bs = [] \<or> (\<forall>w \<in> set ws. w \<noteq> [] \<and> hd w \<noteq> hd bs) \<Longrightarrow> strip_front ws bs = bs"
proof (cases bs)
  case (Cons b cs)
  assume "bs = [] \<or> (\<forall>w \<in> set ws. w \<noteq> [] \<and> hd w \<noteq> hd bs)"
  with Cons have "List.find (\<lambda>w. take (length w) (b # cs) = w) ws = None"
    by (fastforce simp: find_None_iff neq_Nil_conv)
  with Cons show ?thesis by simp
qed simp

lemma trim_printable:
  assumes "list_all printable_ascii bs"
  shows "trim bs = bs"
proof -
  have front: "strip_front white_space bs = bs"
    using assms by (intro strip_front_stops)
      (cases bs; auto simp: white_space_def printable_ascii_def)
  have "strip_front (map rev white_space) (rev bs) = rev bs"
    using assms by (intro strip_front_stops)
      (cases bs rule: rev_cases; auto simp: white_space_def printable_ascii_def)
  with front show ?thesis by (simp add: trim_def)
qed

text \<open>The decimal digits \<open>Display\<close> prints for an unsigned integer.\<close>

fun dec_bytes :: "nat \<Rightarrow> bytes" where
  "dec_bytes n =
     (if n < 10 then [0x30 + word_of_nat n]
      else dec_bytes (n div 10) @ [0x30 + word_of_nat (n mod 10)])"

declare dec_bytes.simps [simp del]

fun dec_val :: "nat \<Rightarrow> bytes \<Rightarrow> nat" where
  "dec_val acc [] = acc"
| "dec_val acc (b # bs) = dec_val (10 * acc + unat (b - 0x30)) bs"

lemma dec_val_append: "dec_val acc (xs @ ys) = dec_val (dec_val acc xs) ys"
  by (induction xs arbitrary: acc) simp_all

lemma dec_roundtrip: "dec_val 0 (dec_bytes n) = n"
proof (induction n rule: dec_bytes.induct)
  case (1 n)
  have digit: "unat (word_of_nat d :: u8) = d" if "d < 10" for d
    using that by (simp add: unat_of_nat)
  show ?case
  proof (cases "n < 10")
    case True
    then show ?thesis by (simp add: dec_bytes.simps [of n] digit)
  next
    case False
    then show ?thesis
      using 1 digit [of "n mod 10"]
      by (simp add: dec_bytes.simps [of n] dec_val_append)
  qed
qed

lemma dec_bytes_inject: "dec_bytes m = dec_bytes n \<longleftrightarrow> m = n"
  by (metis dec_roundtrip)

text \<open>\<open>str::contains\<close>.\<close>

fun is_prefix_of :: "bytes \<Rightarrow> bytes \<Rightarrow> bool" where
  "is_prefix_of [] ys = True"
| "is_prefix_of (x # xs) [] = False"
| "is_prefix_of (x # xs) (y # ys) = (x = y \<and> is_prefix_of xs ys)"

fun contains :: "bytes \<Rightarrow> bytes \<Rightarrow> bool" where
  "contains [] pat = (pat = [])"
| "contains (x # xs) pat = (is_prefix_of pat (x # xs) \<or> contains xs pat)"

lemma prefix_self: "is_prefix_of pat (pat @ ys)"
  by (induction pat) simp_all

lemma contains_inside: "contains (xs @ pat @ ys) pat"
proof (induction xs)
  case Nil
  then show ?case using prefix_self [of pat ys] by (cases "pat @ ys") simp_all
qed simp

lemma contains_append: "contains (xs @ pat) pat"
  using contains_inside [of xs pat "[]"] by simp

text \<open>A pattern cannot extend over a byte that it does not contain.\<close>

lemma contains_prefix: "is_prefix_of pat ys \<longleftrightarrow> (\<exists>zs. ys = pat @ zs)"
  by (induction pat ys rule: is_prefix_of.induct) auto

lemma contains_split: "contains xs pat \<longleftrightarrow> (\<exists>us vs. xs = us @ pat @ vs)"
proof (induction xs)
  case (Cons x xs)
  have "(\<exists>us vs. x # xs = us @ pat @ vs) \<longleftrightarrow>
      (\<exists>vs. x # xs = pat @ vs) \<or> (\<exists>us vs. xs = us @ pat @ vs)"
    by (metis append_Cons append_self_conv2 list.sel(3) tl_append2)
  then show ?case unfolding contains.simps contains_prefix Cons.IH by blast
qed auto

lemma contains_length: "contains xs pat \<Longrightarrow> length pat \<le> length xs"
  by (auto simp: contains_split)

lemma contains_separated:
  assumes "contains (xs @ x # ys) pat" "x \<notin> set pat"
  shows "contains xs pat \<or> contains ys pat"
proof -
  obtain us vs where eq: "xs @ x # ys = us @ pat @ vs" using assms(1) by (auto simp: contains_split)
  consider zs where "xs = us @ zs" "zs @ x # ys = pat @ vs" | zs where "xs @ zs = us" "x # ys = zs @ pat @ vs"
    using eq by (auto simp: append_eq_append_conv2)
  then show ?thesis
  proof cases
    case 1
    then obtain ws where "zs = pat @ ws \<or> pat = zs @ ws \<and> ws @ vs = x # ys"
      unfolding append_eq_append_conv2 by metis
    with 1 assms(2) have "\<exists>ws. xs = us @ pat @ ws"
      by (cases ws) auto
    then show ?thesis by (auto simp: contains_split)
  next
    case 2
    show ?thesis
    proof (cases zs)
      case Nil
      with 2 assms(2) have "pat = []" by (cases pat) auto
      then show ?thesis by (auto simp: contains_split)
    next
      case (Cons z zs')
      with 2 have "ys = zs' @ pat @ vs" by simp
      then show ?thesis by (auto simp: contains_split)
    qed
  qed
qed

end
