(* ===== verification/Keys.thy ===== *)
theory Keys
  imports Primitives Utf8
begin

text \<open>
  Keys and key derivation (src/src/crypto/mod.rs 14-148 and 274-444): the static and
  ephemeral X25519 key pairs with their hexadecimal and slice constructors, the session
  keys, HKDF-SHA256 derivation and Diffie-Hellman. A fixed-size array \<open>[u8; 32]\<close> is a byte
  string; the constructors that take a slice check its length as the source does.
\<close>

definition KEY_LEN :: nat where
  "KEY_LEN = 32"

definition NONCE_LEN :: nat where
  "NONCE_LEN = 12"

definition TAG_LEN :: nat where
  "TAG_LEN = 16"

section \<open>Key pairs\<close>

record key_pair =
  private_key :: bytes
  public_key :: bytes

text \<open>\<open>generate\<close> draws 32 bytes from the operating system; they are an argument.\<close>

definition keypair_generate :: "primitives \<Rightarrow> bytes \<Rightarrow> key_pair" where
  "keypair_generate P os_random =
     \<lparr>private_key = os_random, public_key = p_x25519_base P os_random\<rparr>"

definition from_private_bytes :: "primitives \<Rightarrow> bytes \<Rightarrow> key_pair" where
  "from_private_bytes P bs = \<lparr>private_key = bs, public_key = p_x25519_base P bs\<rparr>"

definition from_private_hex :: "primitives \<Rightarrow> bytes \<Rightarrow> key_pair result" where
  "from_private_hex P hex_str =
     (case p_hex_decode P (trim hex_str) of
        None \<Rightarrow> Inl (Err PrivateKeyHex)
      | Some bs \<Rightarrow>
          if length bs \<noteq> KEY_LEN then Inl (Err (PrivateKeyHexLength (length bs)))
          else bindR (copy_from_slice KEY_LEN bs) (\<lambda>arr. Inr (from_private_bytes P arr)))"

definition from_private_slice :: "primitives \<Rightarrow> bytes \<Rightarrow> key_pair result" where
  "from_private_slice P bs =
     (if length bs \<noteq> KEY_LEN then Inl (Err (PrivateKeyLength (length bs)))
      else bindR (copy_from_slice KEY_LEN bs) (\<lambda>arr. Inr (from_private_bytes P arr)))"

definition parse_public_key_hex :: "primitives \<Rightarrow> bytes \<Rightarrow> bytes result" where
  "parse_public_key_hex P hex_str =
     (case p_hex_decode P (trim hex_str) of
        None \<Rightarrow> Inl (Err PublicKeyHex)
      | Some bs \<Rightarrow>
          if length bs \<noteq> KEY_LEN then Inl (Err (PublicKeyLength (length bs)))
          else copy_from_slice KEY_LEN bs)"

definition public_key_hex :: "primitives \<Rightarrow> key_pair \<Rightarrow> bytes" where
  "public_key_hex P kp = p_hex_encode P (public_key kp)"

definition private_key_hex :: "primitives \<Rightarrow> key_pair \<Rightarrow> bytes" where
  "private_key_hex P kp = p_hex_encode P (private_key kp)"

text \<open>The \<open>Debug\<close> output, with the private key redacted.\<close>

definition keypair_debug :: "primitives \<Rightarrow> key_pair \<Rightarrow> bytes" where
  "keypair_debug P kp =
     bytes_of ''KeyPair { public_key: '' @ [0x22] @ p_hex_encode P (public_key kp) @ [0x22] @
     bytes_of '', private_key: '' @ [0x22] @ bytes_of ''[REDACTED]'' @ [0x22] @ bytes_of '' }''"

definition diffie_hellman :: "primitives \<Rightarrow> bytes \<Rightarrow> bytes \<Rightarrow> bytes" where
  "diffie_hellman P secret_bytes public_bytes = p_x25519 P secret_bytes public_bytes"

record ephemeral_key_pair =
  eph_secret :: bytes
  eph_public_key :: bytes

definition ephemeral_generate :: "primitives \<Rightarrow> bytes \<Rightarrow> ephemeral_key_pair" where
  "ephemeral_generate P os_random =
     \<lparr>eph_secret = os_random, eph_public_key = p_x25519_base P os_random\<rparr>"

definition ephemeral_diffie_hellman :: "primitives \<Rightarrow> ephemeral_key_pair \<Rightarrow> bytes \<Rightarrow> bytes" where
  "ephemeral_diffie_hellman P e peer_public = diffie_hellman P (eph_secret e) peer_public"

section \<open>Session keys and their derivation\<close>

record session_keys =
  client_write_key :: bytes
  server_write_key :: bytes

definition session_keys_new :: "bytes \<Rightarrow> bytes \<Rightarrow> session_keys" where
  "session_keys_new ck sk = \<lparr>client_write_key = ck, server_write_key = sk\<rparr>"

definition session_keys_from_slices :: "bytes \<Rightarrow> bytes \<Rightarrow> session_keys result" where
  "session_keys_from_slices ck sk =
     (if length ck \<noteq> KEY_LEN then Inl (Err (ClientKeyLength (length ck)))
      else if length sk \<noteq> KEY_LEN then Inl (Err (ServerKeyLength (length sk)))
      else
        bindR (copy_from_slice KEY_LEN ck) (\<lambda>client_arr.
        bindR (copy_from_slice KEY_LEN sk) (\<lambda>server_arr.
        Inr (session_keys_new client_arr server_arr))))"

definition session_keys_into_parts :: "session_keys \<Rightarrow> bytes \<times> bytes" where
  "session_keys_into_parts k = (client_write_key k, server_write_key k)"

definition session_keys_swapped :: "session_keys \<Rightarrow> session_keys" where
  "session_keys_swapped k = session_keys_new (server_write_key k) (client_write_key k)"

definition session_keys_from_pair :: "bytes \<times> bytes \<Rightarrow> session_keys" where
  "session_keys_from_pair p = session_keys_new (fst p) (snd p)"

definition session_keys_to_pair :: "session_keys \<Rightarrow> bytes \<times> bytes" where
  "session_keys_to_pair k = session_keys_into_parts k"

definition derive_session_keypair :: "primitives \<Rightarrow> bytes \<Rightarrow> bytes \<Rightarrow> session_keys result" where
  "derive_session_keypair P shared_secret handshake_hash =
     (let hk = p_hkdf_extract P handshake_hash shared_secret in
      case p_hkdf_expand P hk (bytes_of ''noise-tunnel-client-write-key-v1'') KEY_LEN of
        None \<Rightarrow> Inl (Err HkdfClient)
      | Some ck \<Rightarrow>
          (case p_hkdf_expand P hk (bytes_of ''noise-tunnel-server-write-key-v1'') KEY_LEN of
             None \<Rightarrow> Inl (Err HkdfServer)
           | Some sk \<Rightarrow> Inr \<lparr>client_write_key = ck, server_write_key = sk\<rparr>))"

definition derive_session_keys :: "primitives \<Rightarrow> bytes \<Rightarrow> bytes \<Rightarrow> (bytes \<times> bytes) result" where
  "derive_session_keys P shared_secret handshake_hash =
     (case derive_session_keypair P shared_secret handshake_hash of
        Inl e \<Rightarrow> Inl e
      | Inr keys \<Rightarrow> Inr (session_keys_into_parts keys))"

text \<open>Derivation is total on the primitives' documented behaviour, and the keys fit.\<close>

lemma derive_total:
  assumes "hkdf_expands P"
  obtains ck sk where "derive_session_keys P secret h = Inr (ck, sk)" "length ck = 32" "length sk = 32"
proof -
  let ?hk = "p_hkdf_extract P h secret"
  obtain ck where "p_hkdf_expand P ?hk (bytes_of ''noise-tunnel-client-write-key-v1'') 32 = Some ck"
      "length ck = 32"
    using assms unfolding hkdf_expands_def by blast
  moreover obtain sk where "p_hkdf_expand P ?hk (bytes_of ''noise-tunnel-server-write-key-v1'') 32 = Some sk"
      "length sk = 32"
    using assms unfolding hkdf_expands_def by blast
  ultimately show thesis
    by (intro that [of ck sk]) (simp_all add: derive_session_keys_def derive_session_keypair_def Let_def
        KEY_LEN_def session_keys_into_parts_def)
qed

lemma hex_digit_printable: "list_all hex_digit bs \<Longrightarrow> list_all printable_ascii bs"
  by (erule list.pred_mono_strong) (auto simp: hex_digit_def printable_ascii_def word_le_nat_alt)

lemma trim_hex: "hex_inverts P \<Longrightarrow> trim (p_hex_encode P bs) = p_hex_encode P bs"
  by (intro trim_printable hex_digit_printable) (simp add: hex_inverts_def)

lemma read_private_hex:
  "hex_inverts P \<Longrightarrow> length s = 32 \<Longrightarrow> from_private_hex P (p_hex_encode P s) = Inr (from_private_bytes P s)"
  by (simp add: from_private_hex_def trim_hex) (simp add: hex_inverts_def KEY_LEN_def)

lemma read_public_hex:
  "hex_inverts P \<Longrightarrow> length s = 32 \<Longrightarrow> parse_public_key_hex P (p_hex_encode P s) = Inr s"
  by (simp add: parse_public_key_hex_def trim_hex) (simp add: hex_inverts_def KEY_LEN_def)

section \<open>Properties\<close>

text \<open>
  Key text round trip: the hexadecimal private key of any 32-byte key pair built by
  the source is read back to the same pair, its public text to its public key, and any
  32-byte private slice gives that pair too.
\<close>

theorem key_hex_roundtrip:
  assumes "hex_inverts P" "dh_lengths P" "length secret = 32"
  shows "from_private_hex P (private_key_hex P (from_private_bytes P secret)) =
           Inr (from_private_bytes P secret) \<and>
         parse_public_key_hex P (public_key_hex P (from_private_bytes P secret)) =
           Inr (public_key (from_private_bytes P secret)) \<and>
         from_private_slice P secret = Inr (from_private_bytes P secret)"
  using assms
  by (simp add: private_key_hex_def public_key_hex_def read_private_hex read_public_hex dh_lengths_def
      from_private_bytes_def from_private_slice_def KEY_LEN_def)

theorem key_hex_roundtrip_witness:
  "from_private_hex toy (private_key_hex toy (from_private_bytes toy (replicate 32 7))) =
     Inr (from_private_bytes toy (replicate 32 7))"
  using key_hex_roundtrip [OF toy_hex toy_dh(2), of "replicate 32 7"] by simp

end
