(* ===== verification/Channel.thy ===== *)
theory Channel
  imports Prelude
begin

text \<open>
  The interface of a synchronised one-way channel: a sender that turns messages into
  packets, a receiver that turns packets back, and a relation that says both ends agree
  and have room for \<open>n\<close> more messages. From the single-message law follows that a whole
  batch is delivered in order. It is interpreted on the two ends of the AEAD cipher state
  (theory \<open>Cipher\<close>).
\<close>

fun send_all :: "('s \<Rightarrow> 'm \<Rightarrow> 's \<times> 'c option) \<Rightarrow> 's \<Rightarrow> 'm list \<Rightarrow> 's \<times> 'c list option" where
  "send_all send s [] = (s, Some [])"
| "send_all send s (m # ms) =
     (case send s m of
        (s', None) \<Rightarrow> (s', None)
      | (s', Some c) \<Rightarrow>
          (case send_all send s' ms of (s'', r) \<Rightarrow> (s'', map_option ((#) c) r)))"

fun recv_all :: "('r \<Rightarrow> 'c \<Rightarrow> 'r \<times> 'm option) \<Rightarrow> 'r \<Rightarrow> 'c list \<Rightarrow> 'r \<times> 'm list option" where
  "recv_all recv r [] = (r, Some [])"
| "recv_all recv r (c # cs) =
     (case recv r c of
        (r', None) \<Rightarrow> (r', None)
      | (r', Some m) \<Rightarrow>
          (case recv_all recv r' cs of (r'', ms) \<Rightarrow> (r'', map_option ((#) m) ms)))"

locale channel =
  fixes send :: "'s \<Rightarrow> 'm \<Rightarrow> 's \<times> 'c option"
    and recv :: "'r \<Rightarrow> 'c \<Rightarrow> 'r \<times> 'm option"
    and sync :: "nat \<Rightarrow> 's \<Rightarrow> 'r \<Rightarrow> bool"
    and ok :: "'m \<Rightarrow> bool"
  assumes deliver: "sync (Suc n) s r \<Longrightarrow> ok m \<Longrightarrow>
    \<exists>s' c r'. send s m = (s', Some c) \<and> recv r c = (r', Some m) \<and> sync n s' r'"
begin

lemma deliver_all:
  "sync (length ms + n) s r \<Longrightarrow> list_all ok ms \<Longrightarrow>
   \<exists>s' cs r'. send_all send s ms = (s', Some cs) \<and> recv_all recv r cs = (r', Some ms) \<and>
     length cs = length ms \<and> sync n s' r'"
proof (induction ms arbitrary: s r)
  case (Cons m ms)
  then obtain s1 c r1 where one: "send s m = (s1, Some c)" "recv r c = (r1, Some m)"
      "sync (length ms + n) s1 r1"
    using deliver [of "length ms + n" s r m] by auto
  with Cons.IH [of s1 r1] Cons.prems(2) obtain s2 cs r2 where
    "send_all send s1 ms = (s2, Some cs)" "recv_all recv r1 cs = (r2, Some ms)"
    "length cs = length ms" "sync n s2 r2"
    by auto
  with one show ?case
    by (intro exI [of _ s2] exI [of _ "c # cs"] exI [of _ r2]) simp
qed simp

end

end
