(* ===== verification/Cipher.thy ===== *)
theory Cipher
  imports Keys Guard Channel "HOL-Library.Sublist"
begin

text \<open>
  The stateful AEAD context (\<open>struct CipherState\<close>, src/src/crypto/mod.rs 150-272): a key and
  a 64-bit counter used as nonce. \<open>encrypt\<close> increments with \<open>checked_add\<close>, \<open>decrypt\<close> with
  the profile-dependent \<open>+=\<close>, as in the source.
\<close>

record cipher_state =
  cs_key :: bytes
  cs_nonce :: u64

definition cipher_new :: "bytes \<Rightarrow> cipher_state" where
  "cipher_new key = \<lparr>cs_key = key, cs_nonce = 0\<rparr>"

definition cipher_with_nonce :: "bytes \<Rightarrow> u64 \<Rightarrow> cipher_state" where
  "cipher_with_nonce key n = \<lparr>cs_key = key, cs_nonce = n\<rparr>"

definition current_nonce :: "cipher_state \<Rightarrow> u64" where
  "current_nonce c = cs_nonce c"

definition remaining_nonces :: "cipher_state \<Rightarrow> u64" where
  "remaining_nonces c = u64_saturating_sub u64_max (cs_nonce c)"

definition is_exhausted :: "cipher_state \<Rightarrow> bool" where
  "is_exhausted c = (cs_nonce c = u64_max)"

definition is_near_exhaustion :: "cipher_state \<Rightarrow> u64 \<Rightarrow> bool" where
  "is_near_exhaustion c threshold = (remaining_nonces c < threshold)"

definition rekey :: "bytes \<Rightarrow> cipher_state \<Rightarrow> cipher_state" where
  "rekey new_key c =
     (let c = c\<lparr>cs_key := replicate KEY_LEN 0\<rparr>;
          c = c\<lparr>cs_key := new_key\<rparr>
      in c\<lparr>cs_nonce := 0\<rparr>)"

definition reset_nonce :: "cipher_state \<Rightarrow> cipher_state" where
  "reset_nonce c = c\<lparr>cs_nonce := 0\<rparr>"

definition build_nonce :: "u64 \<Rightarrow> bytes" where
  "build_nonce counter = u64_to_le_bytes counter @ replicate (NONCE_LEN - 8) 0"

definition encrypt :: "primitives \<Rightarrow> bytes \<Rightarrow> bytes \<Rightarrow> (cipher_state, bytes) act" where
  "encrypt P plaintext aad = (\<lambda>c.
     case p_seal P (cs_key c) (build_nonce (cs_nonce c)) aad plaintext of
       None \<Rightarrow> (c, Inl (Err AeadEncrypt))
     | Some ct \<Rightarrow>
         (case u64_checked_add (cs_nonce c) 1 of
            None \<Rightarrow> (c, Inl (Err NonceOverflow))
          | Some n \<Rightarrow> (c\<lparr>cs_nonce := n\<rparr>, Inr ct)))"

definition decrypt ::
  "primitives \<Rightarrow> profile \<Rightarrow> bytes \<Rightarrow> bytes \<Rightarrow> u64 \<Rightarrow> (cipher_state, bytes) act" where
  "decrypt P prof ciphertext aad expected_nonce = (\<lambda>c.
     if expected_nonce \<noteq> cs_nonce c
     then (c, Inl (Err (NonceOrder (cs_nonce c) expected_nonce)))
     else case p_open P (cs_key c) (build_nonce expected_nonce) aad ciphertext of
         None \<Rightarrow> (c, Inl (Err AeadDecrypt))
       | Some plaintext \<Rightarrow>
           bindA (add_assign prof cs_nonce cs_nonce_update 1) (\<lambda>_. ret plaintext) c)"

section \<open>The nonce bytes\<close>

lemma length_build_nonce [simp]: "length (build_nonce n) = 12"
  by (simp add: build_nonce_def NONCE_LEN_def)

lemma build_nonce_inject [simp]: "build_nonce m = build_nonce n \<longleftrightarrow> m = n"
  by (simp add: build_nonce_def u64_le_inj)

section \<open>Encryption and decryption by cases\<close>

lemma encrypt_Inr:
  "encrypt P m a c = (c', Inr ct) \<longleftrightarrow>
   p_seal P (cs_key c) (build_nonce (cs_nonce c)) a m = Some ct \<and>
   unat (cs_nonce c) + 1 < 2 ^ 64 \<and> c' = c\<lparr>cs_nonce := cs_nonce c + 1\<rparr>"
  by (auto simp: encrypt_def u64_checked_add_def split: option.splits if_splits)

lemma encrypt_Inl: "encrypt P m a c = (c', Inl e) \<Longrightarrow> c' = c"
  by (auto simp: encrypt_def split: option.splits)

lemma decrypt_Inr:
  "decrypt P prof ct a n c = (c', Inr m) \<longleftrightarrow>
   n = cs_nonce c \<and> p_open P (cs_key c) (build_nonce n) a ct = Some m \<and>
   (prof = Debug \<longrightarrow> unat (cs_nonce c) + 1 < 2 ^ 64) \<and> c' = c\<lparr>cs_nonce := cs_nonce c + 1\<rparr>"
  by (auto simp: decrypt_def bindA_case add_assign_eq ret_def u64_add_def split: option.splits if_splits)

lemma decrypt_Inl: "decrypt P prof ct a n c = (c', Inl e) \<Longrightarrow> c' = c"
  by (auto simp: decrypt_def bindA_case add_assign_eq ret_def split: option.splits if_splits)

lemma encrypt_ok:
  assumes "aead_correct P" "aead_seals P" "length m < aead_limit" "unat (cs_nonce c) + 1 < 2 ^ 64"
  obtains ct where "encrypt P m a c = (c\<lparr>cs_nonce := cs_nonce c + 1\<rparr>, Inr ct)"
    "p_seal P (cs_key c) (build_nonce (cs_nonce c)) a m = Some ct"
    "p_open P (cs_key c) (build_nonce (cs_nonce c)) a ct = Some m"
    "length ct = length m + 16"
  using seal_total [OF assms(1-3)] assms(4) encrypt_Inr by metis

lemma decrypt_ok:
  assumes "p_open P (cs_key c) (build_nonce (cs_nonce c)) a ct = Some m"
    "unat (cs_nonce c) + 1 < 2 ^ 64"
  shows "decrypt P prof ct a (cs_nonce c) c = (c\<lparr>cs_nonce := cs_nonce c + 1\<rparr>, Inr m)"
  using assms by (simp add: decrypt_Inr)

section \<open>The two ends as a channel\<close>

text \<open>A packet is the nonce, the associated data and the ciphertext.\<close>

definition cipher_send ::
  "primitives \<Rightarrow> cipher_state \<Rightarrow> bytes \<times> bytes \<Rightarrow> cipher_state \<times> (u64 \<times> bytes \<times> bytes) option" where
  "cipher_send P c am =
     (case encrypt P (snd am) (fst am) c of
        (c', Inr ct) \<Rightarrow> (c', Some (current_nonce c, fst am, ct))
      | (c', Inl _) \<Rightarrow> (c', None))"

definition cipher_recv ::
  "primitives \<Rightarrow> profile \<Rightarrow> cipher_state \<Rightarrow> u64 \<times> bytes \<times> bytes \<Rightarrow> cipher_state \<times> (bytes \<times> bytes) option" where
  "cipher_recv P prof c p =
     (case decrypt P prof (snd (snd p)) (fst (snd p)) (fst p) c of
        (c', Inr m) \<Rightarrow> (c', Some (fst (snd p), m))
      | (c', Inl _) \<Rightarrow> (c', None))"

definition in_sync :: "primitives \<Rightarrow> nat \<Rightarrow> cipher_state \<Rightarrow> cipher_state \<Rightarrow> bool" where
  "in_sync P n s r \<longleftrightarrow>
     aead_correct P \<and> aead_seals P \<and> cs_key s = cs_key r \<and> cs_nonce s = cs_nonce r \<and>
     unat (cs_nonce s) + n < 2 ^ 64"

lemma in_sync_step:
  assumes "in_sync P (Suc n) s r"
  shows "in_sync P n (s\<lparr>cs_nonce := cs_nonce s + 1\<rparr>) (r\<lparr>cs_nonce := cs_nonce r + 1\<rparr>)"
  using assms by (auto simp: in_sync_def unat_suc_u64)

interpretation aead_channel: channel "cipher_send P" "cipher_recv P prof" "in_sync P"
    "\<lambda>am. length (snd am) < aead_limit" for P prof
proof
  fix n s r and am :: "bytes \<times> bytes"
  assume sync: "in_sync P (Suc n) s r" and len: "length (snd am) < aead_limit"
  have room: "unat (cs_nonce s) + 1 < 2 ^ 64" and same: "cs_nonce r = cs_nonce s" "cs_key r = cs_key s"
    and laws: "aead_correct P" "aead_seals P"
    using sync by (auto simp: in_sync_def)
  obtain ct where ct: "encrypt P (snd am) (fst am) s = (s\<lparr>cs_nonce := cs_nonce s + 1\<rparr>, Inr ct)"
      "p_open P (cs_key s) (build_nonce (cs_nonce s)) (fst am) ct = Some (snd am)"
    using encrypt_ok [OF laws len room] by metis
  have "decrypt P prof ct (fst am) (cs_nonce r) r = (r\<lparr>cs_nonce := cs_nonce r + 1\<rparr>, Inr (snd am))"
    using ct(2) room same by (intro decrypt_ok) simp_all
  then show "\<exists>s' c r'. cipher_send P s am = (s', Some c) \<and>
      cipher_recv P prof r c = (r', Some am) \<and> in_sync P n s' r'"
    using ct(1) same in_sync_step [OF sync]
    by (simp add: cipher_send_def cipher_recv_def current_nonce_def)
qed

section \<open>The receiving end admits every counter value once\<close>

text \<open>
  One offered packet; \<open>None\<close> is the panic of the counter in a debug build.
\<close>

definition decrypt_step ::
  "primitives \<Rightarrow> profile \<Rightarrow> cipher_state \<Rightarrow> u64 \<times> bytes \<times> bytes \<Rightarrow> (cipher_state \<times> bool) option" where
  "decrypt_step P prof c p =
     (case decrypt P prof (snd (snd p)) (fst (snd p)) (fst p) c of
        (c', Inr _) \<Rightarrow> Some (c', True)
      | (c', Inl (Err _)) \<Rightarrow> Some (c', False)
      | (c', Inl (Panic _)) \<Rightarrow> None)"

definition used_nonces :: "cipher_state \<Rightarrow> u64 set" where
  "used_nonces c = {n. n < cs_nonce c}"

lemma decrypt_step_Some:
  "decrypt_step P prof c p = Some (c', b) \<Longrightarrow>
   (b \<and> fst p = cs_nonce c \<and> c' = c\<lparr>cs_nonce := cs_nonce c + 1\<rparr> \<and>
      (prof = Debug \<longrightarrow> unat (cs_nonce c) + 1 < 2 ^ 64)) \<or>
   (\<not> b \<and> c' = c)"
  by (auto simp: decrypt_step_def decrypt_Inr dest: decrypt_Inl
      split: prod.splits sum.splits fault.splits)

interpretation nonce_guard: replay_guard "decrypt_step P Debug" fst "\<lambda>_. True" used_nonces for P
proof
  fix c p c' b
  assume s: "decrypt_step P Debug c p = Some (c', b)"
  show "used_nonces c \<subseteq> used_nonces c'"
    using decrypt_step_Some [OF s] by (auto simp: used_nonces_def word_less_nat_alt unat_suc_u64)
next
  fix c p c'
  assume s: "decrypt_step P Debug c p = Some (c', True)"
  show "fst p \<notin> used_nonces c"
    using decrypt_step_Some [OF s] by (auto simp: used_nonces_def)
  show "fst p \<in> used_nonces c'"
    using decrypt_step_Some [OF s] by (auto simp: used_nonces_def word_less_nat_alt unat_suc_u64)
qed simp

lemma tag_flip:
  assumes "aead_tagged P" "aead_stream P" "p_open P k n a ct = Some m"
    and "length ct' = length ct" "take (length ct - 16) ct' = take (length ct - 16) ct" "ct' \<noteq> ct"
  shows "p_open P k n a ct' = None"
proof (rule ccontr)
  assume "p_open P k n a ct' \<noteq> None"
  then obtain m' where m': "p_open P k n a ct' = Some m'"
    by blast
  then have "m' = m"
    using assms(2-5) unfolding aead_stream_def by metis
  with m' assms(1,3) have "Some ct' = Some ct"
    unfolding aead_tagged_def by metis
  with assms(6) show False by simp
qed

section \<open>Properties\<close>

text \<open>
  What a run of \<open>encrypt\<close> calls hands out: for every call that succeeds the counter that the
  caller reads before it (and puts into the frame), the associated data, the plaintext and
  the ciphertext. A failing call hands out nothing and the next call goes on from the state
  it left.
\<close>

fun encrypt_trace ::
  "primitives \<Rightarrow> cipher_state \<Rightarrow> (bytes \<times> bytes) list \<Rightarrow> (u64 \<times> bytes \<times> bytes \<times> bytes) list" where
  "encrypt_trace P c [] = []"
| "encrypt_trace P c ((a, m) # ams) =
     (case encrypt P m a c of
        (c', Inr ct) \<Rightarrow> (current_nonce c, a, m, ct) # encrypt_trace P c' ams
      | (c', Inl _) \<Rightarrow> encrypt_trace P c' ams)"

text \<open>A ciphertext is the AEAD sealing under the given key and the nonce of its counter.\<close>

definition sealed_under :: "primitives \<Rightarrow> bytes \<Rightarrow> u64 \<times> bytes \<times> bytes \<times> bytes \<Rightarrow> bool" where
  "sealed_under P k x = (case x of (n, a, m, ct) \<Rightarrow> p_seal P k (build_nonce n) a m = Some ct)"

lemma trace_counters:
  "map (unat \<circ> fst) (encrypt_trace P c ams) =
     [unat (cs_nonce c) ..< unat (cs_nonce c) + length (encrypt_trace P c ams)] \<and>
   unat (cs_nonce c) + length (encrypt_trace P c ams) < 2 ^ 64"
proof (induction P c ams rule: encrypt_trace.induct)
  case (1 P c)
  show ?case using unat_u64 [of "cs_nonce c"] by simp
next
  case (2 P c a m ams)
  obtain c' r where e: "encrypt P m a c = (c', r)" by fastforce
  show ?case
  proof (cases r)
    case (Inl x)
    then have "c' = c" using e encrypt_Inl by blast
    then show ?thesis using e Inl 2 by simp
  next
    case (Inr ct)
    with e have step: "unat (cs_nonce c) + 1 < 2 ^ 64" "c' = c\<lparr>cs_nonce := cs_nonce c + 1\<rparr>"
      by (simp_all add: encrypt_Inr)
    have ih: "map (unat \<circ> fst) (encrypt_trace P c' ams) =
        [Suc (unat (cs_nonce c)) ..< Suc (unat (cs_nonce c)) + length (encrypt_trace P c' ams)]"
      "Suc (unat (cs_nonce c)) + length (encrypt_trace P c' ams) < 2 ^ 64"
      using 2(2) [OF e [symmetric] Inr] step by (simp_all add: unat_suc_u64 comp_def del: upt_Suc)
    show ?thesis using e Inr ih
      by (simp add: current_nonce_def upt_conv_Cons comp_def del: upt_Suc)
  qed
qed

lemma trace_sealed: "list_all (sealed_under P (cs_key c)) (encrypt_trace P c ams)"
proof (induction P c ams rule: encrypt_trace.induct)
  case (2 P c a m ams)
  obtain c' r where e: "encrypt P m a c = (c', r)" by fastforce
  show ?case
  proof (cases r)
    case (Inl x)
    then show ?thesis using e encrypt_Inl [of P m a c c'] 2(1) by fastforce
  next
    case (Inr ct)
    with e have step: "sealed_under P (cs_key c) (current_nonce c, a, m, ct)" "cs_key c' = cs_key c"
      by (auto simp: encrypt_Inr sealed_under_def current_nonce_def)
    then show ?thesis using e Inr 2(2) [OF e [symmetric] Inr] by simp
  qed
qed simp

lemma trace_subseq: "subseq (map (\<lambda>(n, a, m, ct). (a, m)) (encrypt_trace P c ams)) ams"
  by (induction P c ams rule: encrypt_trace.induct) (auto split: prod.split sum.split)

text \<open>
  C14. Nonce uniqueness: whatever is encrypted, every ciphertext handed out is the AEAD
  sealing, under the state's key and the nonce of the counter read before the call, of one
  of the messages, in order; these counters are consecutive from the current one and never
  wrap around, so no two of the ciphertexts are sealed under the same (key, nonce) pair.
\<close>

theorem encrypt_nonces_consecutive:
  "list_all (sealed_under P (cs_key c)) (encrypt_trace P c ams) \<and>
   map (unat \<circ> fst) (encrypt_trace P c ams) =
     [unat (cs_nonce c) ..< unat (cs_nonce c) + length (encrypt_trace P c ams)] \<and>
   unat (cs_nonce c) + length (encrypt_trace P c ams) < 2 ^ 64 \<and>
   distinct (map (build_nonce \<circ> fst) (encrypt_trace P c ams)) \<and>
   subseq (map (\<lambda>(n, a, m, ct). (a, m)) (encrypt_trace P c ams)) ams"
proof -
  let ?t = "encrypt_trace P c ams"
  have counters: "map (unat \<circ> fst) ?t = [unat (cs_nonce c) ..< unat (cs_nonce c) + length ?t]"
    by (rule trace_counters [THEN conjunct1])
  have "distinct (map fst ?t)"
    using counters distinct_upt by (metis distinct_map map_map)
  moreover have "map (build_nonce \<circ> fst) ?t = map build_nonce (map fst ?t)"
    by simp
  ultimately have "distinct (map (build_nonce \<circ> fst) ?t)"
    by (simp only: distinct_map) (simp add: inj_on_def)
  then show ?thesis
    using counters trace_counters [of P c ams] trace_sealed [of P c ams] trace_subseq [of P c ams] by simp
qed

text \<open>
  \<open>remaining_nonces\<close> is exact: of any batch of messages within the cipher's length
  limit, \<open>encrypt\<close> accepts as many as \<open>remaining_nonces\<close> says and refuses the rest; an
  exhausted state refuses every message and stays as it is.
\<close>

theorem remaining_nonces_exact:
  assumes "aead_correct P" "aead_seals P" "list_all (\<lambda>am. length (snd am) < aead_limit) ams"
  shows "length (encrypt_trace P c ams) = min (length ams) (unat (remaining_nonces c)) \<and>
    (is_exhausted c \<longrightarrow> (\<exists>e. encrypt P m a c = (c, Inl (Err e))))"
proof
  have rem: "unat (remaining_nonces d) = 2 ^ 64 - 1 - unat (cs_nonce d)" for d
    by (simp add: remaining_nonces_def unat_u64_saturating_sub unat_u64_max)
  show "length (encrypt_trace P c ams) = min (length ams) (unat (remaining_nonces c))"
    using assms(3)
  proof (induction ams arbitrary: c)
    case (Cons am ams)
    obtain a m where am: "am = (a, m)" by fastforce
    show ?case
    proof (cases "unat (cs_nonce c) + 1 < 2 ^ 64")
      case True
      then obtain ct where "encrypt P m a c = (c\<lparr>cs_nonce := cs_nonce c + 1\<rparr>, Inr ct)"
        using encrypt_ok [OF assms(1,2), of m c a] Cons.prems am by auto
      with Cons True show ?thesis by (simp add: am rem unat_suc_u64)
    next
      case False
      then obtain e where "encrypt P m a c = (c, Inl e)"
        using encrypt_Inr [of P m a c] encrypt_Inl [of P m a c] by (metis old.sum.exhaust surj_pair)
      with Cons False show ?thesis by (simp add: am rem)
    qed
  qed simp
  show "is_exhausted c \<longrightarrow> (\<exists>e. encrypt P m a c = (c, Inl (Err e)))"
    using u64_checked_add_one_None [of u64_max]
    by (auto simp: is_exhausted_def encrypt_def split: option.split)
qed

theorem remaining_nonces_exact_witness:
  "length (encrypt_trace toy (cipher_with_nonce (replicate 32 9) (u64_max - 2))
      (replicate 5 ([1], [2, 3]))) = 2"
proof -
  have short: "list_all (\<lambda>am. length (snd am) < aead_limit) (replicate 5 ([1 :: u8], [2, 3 :: u8]))"
    by (simp add: aead_limit_def list_all_iff)
  define c where "c = cipher_with_nonce (replicate 32 9) (u64_max - 2)"
  have two: "unat (remaining_nonces c) = 2"
    by (simp add: c_def remaining_nonces_def cipher_with_nonce_def u64_saturating_sub_def u64_max_def)
  have "length (encrypt_trace toy c (replicate 5 ([1], [2, 3]))) =
      min (length (replicate 5 ([1 :: u8], [2, 3 :: u8]))) (unat (remaining_nonces c))"
    by (rule remaining_nonces_exact [OF toy_aead(1,2) short, THEN conjunct1])
  then show ?thesis
    unfolding two length_replicate by (simp add: c_def)
qed

text \<open>
  Reliable in-order delivery: two cipher states with the same key and counter, room
  left and messages within the length limit deliver any batch, with its associated data,
  unchanged and in order, and are in step again afterwards.
\<close>

theorem cipher_delivers:
  assumes "in_sync P (length ms + n) s r" "list_all (\<lambda>am. length (snd am) < aead_limit) ms"
  shows "\<exists>s' ps r'. send_all (cipher_send P) s ms = (s', Some ps) \<and>
           recv_all (cipher_recv P prof) r ps = (r', Some ms) \<and>
           length ps = length ms \<and> in_sync P n s' r'"
  using assms by (rule aead_channel.deliver_all)

theorem cipher_delivers_witness:
  "\<exists>s' ps r'. send_all (cipher_send toy) (cipher_new (replicate 32 5)) [([1], [2]), ([3], [])] =
        (s', Some ps) \<and>
      recv_all (cipher_recv toy Debug) (cipher_new (replicate 32 5)) ps =
        (r', Some [([1], [2]), ([3], [])])"
  using cipher_delivers [of toy "[([1], [2]), ([3], [])]" 0 "cipher_new (replicate 32 5)"
      "cipher_new (replicate 32 5)" Debug]
  by (auto simp: in_sync_def toy_aead cipher_new_def aead_limit_def)

text \<open>
  In a build with overflow checks no counter value is accepted twice by \<open>decrypt\<close>, over
  any sequence of offered packets, genuine or forged, and for any primitives.
\<close>

theorem decrypt_never_twice:
  "distinct (map fst (admitted (decrypt_step P Debug) c ps))"
  by (rule nonce_guard.admitted_distinct) simp

text \<open>
  C37. Without overflow checks the unguarded \<open>self.nonce += 1\<close> of \<open>decrypt\<close> wraps: after a
  packet with the last counter value the state expects counter 0 again and accepts an old
  packet of the same key. A debug build panics at that point instead. (\<open>encrypt\<close> uses
  \<open>checked_add\<close> and refuses.)
\<close>

theorem decrypt_counter_wraps_in_release:
  assumes "p_open P key (build_nonce u64_max) a ct = Some m"
    and "p_open P key (build_nonce 0) a0 ct0 = Some m0"
  shows "decrypt P Release ct a u64_max (cipher_with_nonce key u64_max) = (cipher_new key, Inr m) \<and>
         decrypt P Release ct0 a0 0 (cipher_new key) = (cipher_with_nonce key 1, Inr m0) \<and>
         snd (decrypt P Debug ct a u64_max (cipher_with_nonce key u64_max)) =
           Inl (Panic ArithmeticOverflow)"
proof (intro conjI)
  show "decrypt P Release ct a u64_max (cipher_with_nonce key u64_max) = (cipher_new key, Inr m)"
    using assms(1) by (simp add: decrypt_Inr cipher_with_nonce_def cipher_new_def u64_max_def)
  show "decrypt P Release ct0 a0 0 (cipher_new key) = (cipher_with_nonce key 1, Inr m0)"
    using assms(2) by (simp add: decrypt_Inr cipher_with_nonce_def cipher_new_def)
  show "snd (decrypt P Debug ct a u64_max (cipher_with_nonce key u64_max)) =
      Inl (Panic ArithmeticOverflow)"
    using assms(1)
    by (simp add: decrypt_def cipher_with_nonce_def bindA_case add_assign_eq u64_add_def unat_u64_max)
qed

theorem decrypt_counter_wraps_in_release_witness:
  "\<exists>ct ct0. decrypt toy Release ct [] u64_max (cipher_with_nonce [7] u64_max) = (cipher_new [7], Inr [1]) \<and>
     decrypt toy Release ct0 [] 0 (cipher_new [7]) = (cipher_with_nonce [7] 1, Inr [2])"
proof -
  have small: "length [1 :: u8] < aead_limit" "length [2 :: u8] < aead_limit"
    by (simp_all add: aead_limit_def)
  obtain ct where ct: "p_open toy [7] (build_nonce u64_max) [] ct = Some [1]"
    using seal_total [OF toy_aead(1,2) small(1)] by metis
  obtain ct0 where ct0: "p_open toy [7] (build_nonce 0) [] ct0 = Some [2]"
    using seal_total [OF toy_aead(1,2) small(2)] by metis
  show ?thesis
    using decrypt_counter_wraps_in_release [OF ct ct0] by blast
qed

text \<open>
  Tampering with the tag is detected: if a ciphertext opens, no other ciphertext that
  differs from it only in its last 16 bytes does; \<open>decrypt\<close> reports the AEAD error and
  leaves key and counter as they were.
\<close>

theorem tag_tampering_detected:
  assumes "aead_tagged P" "aead_stream P"
    and "p_open P (cs_key c) (build_nonce (cs_nonce c)) a ct = Some m"
    and "length ct' = length ct" "take (length ct - 16) ct' = take (length ct - 16) ct" "ct' \<noteq> ct"
  shows "decrypt P prof ct' a (cs_nonce c) c = (c, Inl (Err AeadDecrypt))"
  using tag_flip [OF assms] by (simp add: decrypt_def)

theorem tag_tampering_detected_witness:
  "\<exists>ct. p_seal toy [7] (build_nonce 0) [] [1, 2] = Some ct \<and> length ct = 18 \<and>
     decrypt toy Debug (ct[17 := ct ! 17 + 1]) [] 0 (cipher_new [7]) =
       (cipher_new [7], Inl (Err AeadDecrypt))"
proof -
  have len: "length [1, 2 :: u8] < aead_limit" by (simp add: aead_limit_def)
  obtain ct where ct: "p_seal toy [7] (build_nonce 0) [] [1, 2] = Some ct"
      "p_open toy [7] (build_nonce 0) [] ct = Some [1, 2]" "length ct = length [1, 2 :: u8] + 16"
    by (rule seal_total [OF toy_aead(1,2) len])
  then have "ct[17 := ct ! 17 + 1] ! 17 \<noteq> ct ! 17" by simp
  then have "ct[17 := ct ! 17 + 1] \<noteq> ct" by metis
  with tag_tampering_detected [OF toy_aead(3,4), of "cipher_new [7]" "[]" ct "[1, 2]"
      "ct[17 := ct ! 17 + 1]" Debug] ct
  show ?thesis by (simp add: cipher_new_def)
qed

end
