(* ===== verification/Stats.thy ===== *)
theory Stats
  imports Errors Utf8
begin

text \<open>
  Session metrics (\<open>struct SessionMetrics\<close>, src/src/stats.rs 7-136): traffic counters with
  the profile-dependent \<open>+=\<close>, and two time stamps. The value that \<open>Instant::now()\<close> returns
  in an operation is an argument of it. A byte count of type \<open>usize\<close> is a \<open>nat\<close> that is cast
  to 64 bits as \<open>as u64\<close> does. The rates \<open>bytes_per_sec\<close> and \<open>frames_per_sec\<close>
  are in \<open>Rates\<close>.
\<close>

record session_metrics =
  bytes_sent :: u64
  bytes_received :: u64
  frames_sent :: u64
  frames_received :: u64
  started_at :: nat
  last_activity :: nat

definition metrics_new :: "nat \<Rightarrow> session_metrics" where
  "metrics_new now =
     \<lparr>bytes_sent = 0, bytes_received = 0, frames_sent = 0, frames_received = 0,
      started_at = now, last_activity = now\<rparr>"

definition record_tx :: "profile \<Rightarrow> nat \<Rightarrow> nat \<Rightarrow> (session_metrics, unit) act" where
  "record_tx prof n now =
     bindA (add_assign prof bytes_sent bytes_sent_update (word_of_nat n)) (\<lambda>_.
     bindA (add_assign prof frames_sent frames_sent_update 1) (\<lambda>_.
     modifyA (last_activity_update (\<lambda>_. now))))"

definition record_rx :: "profile \<Rightarrow> nat \<Rightarrow> nat \<Rightarrow> (session_metrics, unit) act" where
  "record_rx prof n now =
     bindA (add_assign prof bytes_received bytes_received_update (word_of_nat n)) (\<lambda>_.
     bindA (add_assign prof frames_received frames_received_update 1) (\<lambda>_.
     modifyA (last_activity_update (\<lambda>_. now))))"

definition total_bytes :: "profile \<Rightarrow> session_metrics \<Rightarrow> u64 option" where
  "total_bytes prof m = u64_add prof (bytes_sent m) (bytes_received m)"

definition total_frames :: "profile \<Rightarrow> session_metrics \<Rightarrow> u64 option" where
  "total_frames prof m = u64_add prof (frames_sent m) (frames_received m)"

text \<open>\<open>Instant::elapsed\<close> saturates at zero, as subtraction on natural numbers does.\<close>

definition metrics_elapsed :: "session_metrics \<Rightarrow> nat \<Rightarrow> nat" where
  "metrics_elapsed m now = now - started_at m"

definition idle_duration :: "session_metrics \<Rightarrow> nat \<Rightarrow> nat" where
  "idle_duration m now = now - last_activity m"

definition metrics_reset :: "nat \<Rightarrow> session_metrics \<Rightarrow> session_metrics" where
  "metrics_reset now m =
     m\<lparr>bytes_sent := 0, bytes_received := 0, frames_sent := 0, frames_received := 0,
       started_at := now, last_activity := now\<rparr>"

text \<open>
  The \<open>Display\<close> text; the text of the elapsed time (\<open>{:.2?}\<close> of a \<open>Duration\<close>) is an
  argument, and \<open>None\<close> is the overflow panic of the total.
\<close>

definition metrics_display :: "profile \<Rightarrow> bytes \<Rightarrow> session_metrics \<Rightarrow> bytes option" where
  "metrics_display prof elapsed_text m =
     map_option (\<lambda>total.
       bytes_of ''SessionMetrics(TX: '' @ dec_bytes (unat (frames_sent m)) @
       bytes_of '' frames ('' @ dec_bytes (unat (bytes_sent m)) @
       bytes_of '' B), RX: '' @ dec_bytes (unat (frames_received m)) @
       bytes_of '' frames ('' @ dec_bytes (unat (bytes_received m)) @
       bytes_of '' B), Total: '' @ dec_bytes (unat total) @
       bytes_of '' B, Elapsed: '' @ elapsed_text @ bytes_of '')'')
     (total_bytes prof m)"

section \<open>Runs of recorded frames\<close>

datatype traffic = Tx nat nat | Rx nat nat

fun record_all :: "profile \<Rightarrow> traffic list \<Rightarrow> (session_metrics, unit) act" where
  "record_all prof [] = ret ()"
| "record_all prof (Tx n now # es) = bindA (record_tx prof n now) (\<lambda>_. record_all prof es)"
| "record_all prof (Rx n now # es) = bindA (record_rx prof n now) (\<lambda>_. record_all prof es)"

fun sizes_tx :: "traffic list \<Rightarrow> nat list" where
  "sizes_tx [] = []"
| "sizes_tx (Tx n _ # es) = n # sizes_tx es"
| "sizes_tx (Rx _ _ # es) = sizes_tx es"

fun sizes_rx :: "traffic list \<Rightarrow> nat list" where
  "sizes_rx [] = []"
| "sizes_rx (Rx n _ # es) = n # sizes_rx es"
| "sizes_rx (Tx _ _ # es) = sizes_rx es"

text \<open>The metrics that a run adds up to, with 64-bit wrap-around.\<close>

definition traffic_sum :: "traffic list \<Rightarrow> session_metrics \<Rightarrow> session_metrics" where
  "traffic_sum es m =
     m\<lparr>bytes_sent := bytes_sent m + word_of_nat (sum_list (sizes_tx es)),
       bytes_received := bytes_received m + word_of_nat (sum_list (sizes_rx es)),
       frames_sent := frames_sent m + word_of_nat (length (sizes_tx es)),
       frames_received := frames_received m + word_of_nat (length (sizes_rx es)),
       last_activity := fold (\<lambda>e _. case e of Tx _ t \<Rightarrow> t | Rx _ t \<Rightarrow> t) es (last_activity m)\<rparr>"

lemma record_Inr:
  "record_tx prof n now m = (m', Inr x) \<longleftrightarrow>
     m' = m\<lparr>bytes_sent := bytes_sent m + word_of_nat n, frames_sent := frames_sent m + 1,
            last_activity := now\<rparr> \<and>
     (prof = Debug \<longrightarrow> unat (bytes_sent m) + unat (word_of_nat n :: u64) < 2 ^ 64 \<and>
                      unat (frames_sent m) + 1 < 2 ^ 64)"
  "record_rx prof n now m = (m', Inr x) \<longleftrightarrow>
     m' = m\<lparr>bytes_received := bytes_received m + word_of_nat n,
            frames_received := frames_received m + 1, last_activity := now\<rparr> \<and>
     (prof = Debug \<longrightarrow> unat (bytes_received m) + unat (word_of_nat n :: u64) < 2 ^ 64 \<and>
                      unat (frames_received m) + 1 < 2 ^ 64)"
  by (auto simp: record_tx_def record_rx_def bindA_eq_Inr add_assign_eq modifyA_def u64_add_def
      split: option.splits if_splits)

lemma record_release:
  "record_tx Release n now m =
     (m\<lparr>bytes_sent := bytes_sent m + word_of_nat n, frames_sent := frames_sent m + 1,
        last_activity := now\<rparr>, Inr ())"
  "record_rx Release n now m =
     (m\<lparr>bytes_received := bytes_received m + word_of_nat n,
        frames_received := frames_received m + 1, last_activity := now\<rparr>, Inr ())"
  by (simp_all add: record_Inr)

lemma traffic_sum_simps [simp]:
  "traffic_sum [] m = m"
  "traffic_sum (Tx n t # es) m =
     traffic_sum es (m\<lparr>bytes_sent := bytes_sent m + word_of_nat n,
       frames_sent := frames_sent m + 1, last_activity := t\<rparr>)"
  "traffic_sum (Rx n t # es) m =
     traffic_sum es (m\<lparr>bytes_received := bytes_received m + word_of_nat n,
       frames_received := frames_received m + 1, last_activity := t\<rparr>)"
  by (simp_all add: traffic_sum_def ac_simps)

lemma record_all_release: "record_all Release es m = (traffic_sum es m, Inr ())"
proof (induction es arbitrary: m)
  case (Cons e es)
  then show ?case by (cases e) (simp_all add: bindA_case record_release)
qed (simp add: ret_def)

lemma record_all_Inr: "record_all prof es m = (m', Inr x) \<Longrightarrow> m' = traffic_sum es m"
proof (induction es arbitrary: m)
  case (Cons e es)
  then show ?case by (cases e) (auto simp only: record_all.simps bindA_eq_Inr record_Inr traffic_sum_simps)
qed (simp add: ret_def)

text \<open>The counters of a run fit into 64 bits.\<close>

definition counters_fit :: "traffic list \<Rightarrow> session_metrics \<Rightarrow> bool" where
  "counters_fit es m \<longleftrightarrow>
     unat (bytes_sent m) + sum_list (sizes_tx es) < 2 ^ 64 \<and>
     unat (bytes_received m) + sum_list (sizes_rx es) < 2 ^ 64 \<and>
     unat (frames_sent m) + length (sizes_tx es) < 2 ^ 64 \<and>
     unat (frames_received m) + length (sizes_rx es) < 2 ^ 64"

definition usize_event :: "traffic \<Rightarrow> bool" where
  "usize_event e = (case e of Tx n _ \<Rightarrow> n < 2 ^ 64 | Rx n _ \<Rightarrow> n < 2 ^ 64)"

lemma unat_add_u64:
  "n < 2 ^ 64 \<Longrightarrow> unat (w :: u64) + n < 2 ^ 64 \<Longrightarrow> unat (w + word_of_nat n) = unat w + n"
  by (simp add: unat_word_ariths unat_of_nat)

lemma record_all_debug:
  "list_all usize_event es \<Longrightarrow>
   (\<exists>m'. record_all Debug es m = (m', Inr ())) \<longleftrightarrow> counters_fit es m"
proof (induction es arbitrary: m)
  case Nil
  show ?case
    using unat_u64 [of "bytes_sent m"] unat_u64 [of "bytes_received m"]
      unat_u64 [of "frames_sent m"] unat_u64 [of "frames_received m"]
    by (simp add: ret_def counters_fit_def)
next
  case (Cons e es)
  have len: "n < 2 ^ 64 \<Longrightarrow> unat (word_of_nat n :: u64) = n" for n
    by (simp add: unat_of_nat)
  show ?case
  proof (cases e)
    case (Tx n t)
    with Cons show ?thesis
      by (auto simp: bindA_eq_Inr record_Inr usize_event_def counters_fit_def len unat_add_u64
          unat_suc_u64)
  next
    case (Rx n t)
    with Cons show ?thesis
      by (auto simp: bindA_eq_Inr record_Inr usize_event_def counters_fit_def len unat_add_u64
          unat_suc_u64)
  qed
qed

section \<open>Properties\<close>

text \<open>
  The metrics count the traffic: over any sequence of recorded frames a release build
  ends with the sums modulo 2^64; a debug build returns if and only if every counter's
  exact sum fits into 64 bits, and then with the same values.
\<close>

theorem metrics_count_traffic:
  assumes "list_all usize_event es"
  shows "record_all Release es m = (traffic_sum es m, Inr ()) \<and>
    (counters_fit es m \<longleftrightarrow> record_all Debug es m = (traffic_sum es m, Inr ())) \<and>
    (counters_fit es m \<longrightarrow>
       unat (bytes_sent (traffic_sum es m)) = unat (bytes_sent m) + sum_list (sizes_tx es) \<and>
       unat (bytes_received (traffic_sum es m)) = unat (bytes_received m) + sum_list (sizes_rx es) \<and>
       unat (frames_sent (traffic_sum es m)) = unat (frames_sent m) + length (sizes_tx es) \<and>
       unat (frames_received (traffic_sum es m)) = unat (frames_received m) + length (sizes_rx es))"
proof (intro conjI)
  show "record_all Release es m = (traffic_sum es m, Inr ())"
    by (rule record_all_release)
  show "counters_fit es m \<longleftrightarrow> record_all Debug es m = (traffic_sum es m, Inr ())"
    using record_all_debug [OF assms, of m] record_all_Inr by blast
  show "counters_fit es m \<longrightarrow>
       unat (bytes_sent (traffic_sum es m)) = unat (bytes_sent m) + sum_list (sizes_tx es) \<and>
       unat (bytes_received (traffic_sum es m)) = unat (bytes_received m) + sum_list (sizes_rx es) \<and>
       unat (frames_sent (traffic_sum es m)) = unat (frames_sent m) + length (sizes_tx es) \<and>
       unat (frames_received (traffic_sum es m)) = unat (frames_received m) + length (sizes_rx es)"
    by (auto simp: counters_fit_def traffic_sum_def intro!: unat_add_u64)
qed

theorem metrics_count_traffic_witness:
  "unat (bytes_sent (traffic_sum [Tx 100 5, Rx 7 6, Tx 20 9] (metrics_new 0))) = 120 \<and>
   record_all Debug [Tx 100 5, Rx 7 6, Tx 20 9] (metrics_new 0) =
     (traffic_sum [Tx 100 5, Rx 7 6, Tx 20 9] (metrics_new 0), Inr ())"
  using metrics_count_traffic [of "[Tx 100 5, Rx 7 6, Tx 20 9]" "metrics_new 0"]
  by (simp add: usize_event_def counters_fit_def metrics_new_def)

end
