(* ===== verification/Handshake.thy ===== *)
theory Handshake
  imports Cipher Wire
begin

text \<open>
  The two sides of the handshake: the transcript hash (\<open>hash_handshake_state\<close>,
  src/src/protocol/mod.rs 542-557), the responder (src/src/server.rs 186-247, the part of
  \<open>handle_client_with_prologue\<close> before the transport loop) and the initiator
  (\<open>perform_handshake\<close>, src/src/client.rs 92-169). The 32 random bytes of the ephemeral key
  are an argument. Each side returns its receiving and its sending cipher.
\<close>

section \<open>The transcript hash\<close>

definition hash_handshake_state ::
  "primitives \<Rightarrow> bytes \<Rightarrow> bytes \<Rightarrow> bytes \<Rightarrow> bytes option \<Rightarrow> bytes" where
  "hash_handshake_state P prologue client_ephemeral server_public server_ephemeral =
     (let hasher = [];
          hasher = hasher @ prologue;
          hasher = hasher @ client_ephemeral;
          hasher = hasher @ server_public;
          hasher = (case server_ephemeral of None \<Rightarrow> hasher | Some se \<Rightarrow> hasher @ se)
      in p_sha256 P hasher)"

section \<open>The two sides\<close>

definition INIT_TEXT :: bytes where
  "INIT_TEXT = bytes_of ''HANDSHAKE_INIT_CLIENT''"

definition ACK_TEXT :: bytes where
  "ACK_TEXT = bytes_of ''HANDSHAKE_COMPLETE_ACK''"

definition server_handshake ::
  "primitives \<Rightarrow> profile \<Rightarrow> bytes \<Rightarrow> key_pair \<Rightarrow> bytes \<Rightarrow> (net, cipher_state \<times> cipher_state) act" where
  "server_handshake P prof prologue server_keys os_random =
     bindA read_from (\<lambda>init_frame.
     if wf_msg_type init_frame \<noteq> HandshakeInit
     then throw (Err (ExpectedHandshakeInit (wf_msg_type init_frame)))
     else if length (wf_payload init_frame) < KEY_LEN + 16 then throw (Err InitPayloadSize)
     else
       bindA (liftA (slice_to KEY_LEN (wf_payload init_frame))) (\<lambda>source.
       bindA (liftA (copy_from_slice KEY_LEN source)) (\<lambda>client_ephemeral.
       bindA (liftA (slice_from KEY_LEN (wf_payload init_frame))) (\<lambda>init_ciphertext.
       let dh_static = diffie_hellman P (private_key server_keys) client_ephemeral;
           h1 = hash_handshake_state P prologue client_ephemeral (public_key server_keys) None
       in
       bindA (liftA (derive_session_keys P dh_static h1)) (\<lambda>(k_init_c, _).
       bindA (on_local (cipher_new k_init_c) (decrypt P prof init_ciphertext h1 0)) (\<lambda>_.
       let server_ephemeral = ephemeral_generate P os_random;
           server_ephem_pub = eph_public_key server_ephemeral;
           dh_ephem = ephemeral_diffie_hellman P server_ephemeral client_ephemeral;
           combined_secret = dh_static @ dh_ephem;
           h2 = hash_handshake_state P prologue client_ephemeral (public_key server_keys)
                  (Some server_ephem_pub)
       in
       bindA (liftA (derive_session_keys P combined_secret h2)) (\<lambda>(client_write_key, server_write_key).
       bindA (liftA (derive_session_keys P dh_ephem h2)) (\<lambda>(_, k_resp_s).
       bindA (on_local (cipher_new k_resp_s) (encrypt P ACK_TEXT h2)) (\<lambda>resp_ciphertext.
       bindA (write_to (new_frame HandshakeResp 0 (server_ephem_pub @ resp_ciphertext))) (\<lambda>_.
       ret (cipher_new client_write_key, cipher_new server_write_key)))))))))))"

definition perform_handshake ::
  "primitives \<Rightarrow> profile \<Rightarrow> bytes \<Rightarrow> bytes \<Rightarrow> bytes \<Rightarrow> (net, cipher_state \<times> cipher_state) act" where
  "perform_handshake P prof prologue server_pubkey os_random =
     (let client_ephemeral = ephemeral_generate P os_random;
          client_ephem_pub = eph_public_key client_ephemeral;
          dh_static = ephemeral_diffie_hellman P client_ephemeral server_pubkey;
          h1 = hash_handshake_state P prologue client_ephem_pub server_pubkey None
      in
      bindA (liftA (derive_session_keys P dh_static h1)) (\<lambda>(k_init_c, _).
      bindA (on_local (cipher_new k_init_c) (encrypt P INIT_TEXT h1)) (\<lambda>init_ciphertext.
      bindA (write_to (new_frame HandshakeInit 0 (client_ephem_pub @ init_ciphertext))) (\<lambda>_.
      bindA read_from (\<lambda>resp_frame.
      if wf_msg_type resp_frame \<noteq> HandshakeResp
      then throw (Err (ExpectedHandshakeResp (wf_msg_type resp_frame)))
      else if length (wf_payload resp_frame) < KEY_LEN + 16 then throw (Err RespPayloadSize)
      else
        bindA (liftA (slice_to KEY_LEN (wf_payload resp_frame))) (\<lambda>source.
        bindA (liftA (copy_from_slice KEY_LEN source)) (\<lambda>server_ephemeral_pub.
        bindA (liftA (slice_from KEY_LEN (wf_payload resp_frame))) (\<lambda>resp_ciphertext.
        let dh_ephem = ephemeral_diffie_hellman P client_ephemeral server_ephemeral_pub;
            h2 = hash_handshake_state P prologue client_ephem_pub server_pubkey
                   (Some server_ephemeral_pub)
        in
        bindA (liftA (derive_session_keys P dh_ephem h2)) (\<lambda>(_, k_resp_s).
        bindA (on_local (cipher_new k_resp_s) (decrypt P prof resp_ciphertext h2 0)) (\<lambda>resp_ack.
        if resp_ack \<noteq> ACK_TEXT then throw (Err BadHandshakeAck)
        else
          let combined_secret = dh_static @ dh_ephem in
          bindA (liftA (derive_session_keys P combined_secret h2)) (\<lambda>(client_write_key, server_write_key).
          ret (cipher_new client_write_key, cipher_new server_write_key))))))))))))"

section \<open>One run of each side\<close>

definition transcript_bytes :: "bytes \<Rightarrow> bytes \<Rightarrow> bytes \<Rightarrow> bytes option \<Rightarrow> bytes" where
  "transcript_bytes prologue ce sp se =
     prologue @ ce @ sp @ (case se of None \<Rightarrow> [] | Some e \<Rightarrow> e)"

lemma hash_transcript:
  "hash_handshake_state P prologue ce sp se = p_sha256 P (transcript_bytes prologue ce sp se)"
  by (simp add: hash_handshake_state_def transcript_bytes_def split: option.split)

lemma encrypt_new:
  assumes "session_primitives P" "length m < aead_limit"
  obtains ct where "snd (encrypt P m a (cipher_new k)) = Inr ct"
    "\<And>prof. snd (decrypt P prof ct a 0 (cipher_new k)) = Inr m" "length ct = length m + 16"
proof -
  note laws = session_primitivesD [OF assms(1)]
  have zero: "unat (cs_nonce (cipher_new k)) + 1 < 2 ^ 64"
    by (simp add: cipher_new_def)
  obtain ct where ct:
      "encrypt P m a (cipher_new k) = ((cipher_new k)\<lparr>cs_nonce := cs_nonce (cipher_new k) + 1\<rparr>, Inr ct)"
      "p_open P (cs_key (cipher_new k)) (build_nonce (cs_nonce (cipher_new k))) a ct = Some m"
      "length ct = length m + 16"
    using encrypt_ok [OF laws(4,5) assms(2) zero] by metis
  show thesis
  proof (rule that [of ct])
    show "snd (decrypt P prof ct a 0 (cipher_new k)) = Inr m" for prof
      using decrypt_ok [OF ct(2) zero, of prof] by (simp add: cipher_new_def)
  qed (use ct in simp_all)
qed

lemma snd_decrypt:
  "snd (decrypt P prof ct a 0 (cipher_new k)) = Inr m \<Longrightarrow> p_open P k (build_nonce 0) a ct = Some m"
  by (metis cipher_new_def cipher_state.select_convs(1) decrypt_Inr prod.collapse)

lemma snd_encrypt:
  "snd (encrypt P m a (cipher_new k)) = Inr ct \<Longrightarrow> p_seal P k (build_nonce 0) a m = Some ct"
  by (metis cipher_new_def cipher_state.select_convs encrypt_Inr prod.collapse)

lemma length_texts: "length INIT_TEXT = 21" "length ACK_TEXT = 22"
  by (simp_all add: INIT_TEXT_def ACK_TEXT_def bytes_of_def)

lemma dh_symmetric:
  assumes "session_primitives P" "length a = 32" "length b = 32"
  shows "p_x25519 P a (p_x25519_base P b) = p_x25519 P b (p_x25519_base P a)"
  using session_primitivesD(1) [OF assms(1)] assms(2,3) unfolding dh_agrees_def by blast

lemma length_base: "session_primitives P \<Longrightarrow> length (p_x25519_base P a) = 32"
  using session_primitivesD(2) unfolding dh_lengths_def by blast

lemma handshake_runs:
  assumes P: "session_primitives P"
    and "length client_random = 32" "length server_random = 32"
    and keys: "server_keys = from_private_bytes P secret" "length secret = 32"
  obtains init resp ck sk where
    "valid_frame init" "valid_frame resp"
    "\<And>c rest. write_faults c = [] \<Longrightarrow> inbox c = serialize resp @ rest \<Longrightarrow>
       perform_handshake P prof prologue (public_key server_keys) client_random c =
         (c\<lparr>inbox := rest, outbox := outbox c @ serialize init\<rparr>, Inr (cipher_new ck, cipher_new sk))"
    "\<And>s rest. write_faults s = [] \<Longrightarrow> inbox s = serialize init @ rest \<Longrightarrow>
       server_handshake P prof' prologue server_keys server_random s =
         (s\<lparr>inbox := rest, outbox := outbox s @ serialize resp\<rparr>, Inr (cipher_new ck, cipher_new sk))"
    "length ck = 32" "length sk = 32"
proof -
  define cpub spub epub where "cpub = p_x25519_base P client_random"
    and "spub = p_x25519_base P secret" and "epub = p_x25519_base P server_random"
  define ds de where "ds = p_x25519 P client_random spub" and "de = p_x25519 P client_random epub"
  have ds: "p_x25519 P secret cpub = ds" and de: "p_x25519 P server_random cpub = de"
    unfolding ds_def de_def spub_def epub_def cpub_def by (intro dh_symmetric P assms)+
  have lens: "length cpub = 32" "length epub = 32"
    by (simp_all add: cpub_def epub_def length_base [OF P])
  define h1 h2 where "h1 = hash_handshake_state P prologue cpub spub None"
    and "h2 = hash_handshake_state P prologue cpub spub (Some epub)"
  note hkdf = derive_total [OF session_primitivesD(3) [OF P]]
  obtain ki ki' where ki: "derive_session_keys P ds h1 = Inr (ki, ki')" by (rule hkdf)
  obtain kr' kr where kr: "derive_session_keys P de h2 = Inr (kr', kr)" by (rule hkdf)
  obtain ck sk where ks: "derive_session_keys P (ds @ de) h2 = Inr (ck, sk)"
    and lks: "length ck = 32" "length sk = 32" by (rule hkdf)
  obtain ict where ict: "snd (encrypt P INIT_TEXT h1 (cipher_new ki)) = Inr ict"
      "\<And>prof. snd (decrypt P prof ict h1 0 (cipher_new ki)) = Inr INIT_TEXT" "length ict = 21 + 16"
    by (rule encrypt_new [OF P, of INIT_TEXT h1 ki]) (simp_all add: length_texts aead_limit_def)
  obtain rct where rct: "snd (encrypt P ACK_TEXT h2 (cipher_new kr)) = Inr rct"
      "\<And>prof. snd (decrypt P prof rct h2 0 (cipher_new kr)) = Inr ACK_TEXT" "length rct = 22 + 16"
    by (rule encrypt_new [OF P, of ACK_TEXT h2 kr]) (simp_all add: length_texts aead_limit_def)
  define init resp where "init = new_frame HandshakeInit 0 (cpub @ ict)"
    and "resp = new_frame HandshakeResp 0 (epub @ rct)"
  have valid: "valid_frame init" "valid_frame resp"
    by (simp_all add: valid_frame_le init_def resp_def new_frame_def lens ict rct)
  have parts: "wf_msg_type init = HandshakeInit" "wf_payload init = cpub @ ict"
      "wf_msg_type resp = HandshakeResp" "wf_payload resp = epub @ rct"
    by (simp_all add: init_def resp_def new_frame_def)
  note folds = cpub_def [symmetric] epub_def [symmetric] spub_def [symmetric]
  have pub: "public_key server_keys = spub" "private_key server_keys = secret"
    by (simp_all add: keys from_private_bytes_def spub_def)
  show thesis
  proof (rule that [OF valid _ _ lks])
    fix c :: net and rest
    assume c: "write_faults c = []" "inbox c = serialize resp @ rest"
    have "read_from (c\<lparr>outbox := outbox c @ serialize init\<rparr>) =
        (c\<lparr>outbox := outbox c @ serialize init, inbox := rest\<rparr>, Inr resp)"
      using read_from_serialize [OF valid(2), of "c\<lparr>outbox := outbox c @ serialize init\<rparr>" rest] c
      by simp
    then show "perform_handshake P prof prologue (public_key server_keys) client_random c =
        (c\<lparr>inbox := rest, outbox := outbox c @ serialize init\<rparr>, Inr (cipher_new ck, cipher_new sk))"
      using write_to_clean [OF c(1), of init]
      by (simp add: perform_handshake_def pub ephemeral_generate_def ephemeral_diffie_hellman_def
          diffie_hellman_def folds Let_def bindA_case liftA_def on_local_apply ret_def
          KEY_LEN_def lens parts rct ict ki kr ks
          flip: init_def ds_def de_def h1_def h2_def)
  next
    fix s :: net and rest
    assume s: "write_faults s = []" "inbox s = serialize init @ rest"
    have "write_to resp (s\<lparr>inbox := rest\<rparr>) =
        (s\<lparr>inbox := rest, outbox := outbox s @ serialize resp\<rparr>, Inr ())"
      using s by (simp add: write_to_clean)
    then show "server_handshake P prof' prologue server_keys server_random s =
        (s\<lparr>inbox := rest, outbox := outbox s @ serialize resp\<rparr>, Inr (cipher_new ck, cipher_new sk))"
      using read_from_serialize [OF valid(1) s(2)]
      by (simp add: server_handshake_def pub ephemeral_generate_def ephemeral_diffie_hellman_def
          diffie_hellman_def folds Let_def bindA_case liftA_def on_local_apply ret_def
          KEY_LEN_def lens parts rct ict ki kr ks ds de
          flip: resp_def h1_def h2_def)
  qed
qed

section \<open>Properties\<close>

text \<open>
  C3. Key agreement: for every pair of ephemeral secrets and every prologue there are an
  initiator's and a responder's message such that, on any connection without write faults,
  the client that finds the responder's message sends the initiator's one and succeeds,
  the server that finds that message sends the responder's one and succeeds, each reads
  exactly its message, and both end with the same two transport ciphers.
\<close>

theorem handshake_agrees:
  assumes "session_primitives P"
    and "length client_random = 32" "length server_random = 32"
    and "server_keys = from_private_bytes P secret" "length secret = 32"
  shows "\<exists>init resp ck sk.
    (\<forall>c rest. write_faults c = [] \<and> inbox c = serialize resp @ rest \<longrightarrow>
       perform_handshake P prof prologue (public_key server_keys) client_random c =
         (c\<lparr>inbox := rest, outbox := outbox c @ serialize init\<rparr>, Inr (cipher_new ck, cipher_new sk))) \<and>
    (\<forall>s rest. write_faults s = [] \<and> inbox s = serialize init @ rest \<longrightarrow>
       server_handshake P prof' prologue server_keys server_random s =
         (s\<lparr>inbox := rest, outbox := outbox s @ serialize resp\<rparr>, Inr (cipher_new ck, cipher_new sk)))"
  by (rule handshake_runs [OF assms, where prof = prof and prof' = prof' and prologue = prologue])
    blast

theorem handshake_agrees_witness:
  "\<exists>init resp ck sk.
    snd (perform_handshake toy Debug PROTOCOL_NAME (replicate 32 5) (replicate 32 1)
          (connection (serialize resp))) = Inr (cipher_new ck, cipher_new sk) \<and>
    snd (server_handshake toy Release PROTOCOL_NAME (from_private_bytes toy (replicate 32 5))
          (replicate 32 2) (connection (serialize init))) = Inr (cipher_new ck, cipher_new sk)"
proof -
  obtain init resp ck sk where runs:
    "\<And>c rest. write_faults c = [] \<and> inbox c = serialize resp @ rest \<Longrightarrow>
       perform_handshake toy Debug PROTOCOL_NAME (replicate 32 5) (replicate 32 1) c =
         (c\<lparr>inbox := rest, outbox := outbox c @ serialize init\<rparr>, Inr (cipher_new ck, cipher_new sk))"
    "\<And>s rest. write_faults s = [] \<and> inbox s = serialize init @ rest \<Longrightarrow>
       server_handshake toy Release PROTOCOL_NAME (from_private_bytes toy (replicate 32 5)) (replicate 32 2) s =
         (s\<lparr>inbox := rest, outbox := outbox s @ serialize resp\<rparr>, Inr (cipher_new ck, cipher_new sk))"
    using handshake_agrees [OF toy_session, of "replicate 32 1" "replicate 32 2"
        "from_private_bytes toy (replicate 32 5)" "replicate 32 5" Debug PROTOCOL_NAME Release]
    by (auto simp: from_private_bytes_def toy_def pad32_id)
  show ?thesis
    using runs(1) [of "connection (serialize resp)" "[]"] runs(2) [of "connection (serialize init)" "[]"]
    by (intro exI [of _ init] exI [of _ resp] exI [of _ ck] exI [of _ sk]) simp
qed

text \<open>
  C13. The server answers nobody it has not authenticated: if it sends anything during the
  handshake, then the first frame was a \<open>HandshakeInit\<close> of at least 48 payload bytes whose
  ciphertext opens under the key derived from the static secret and the transcript.
\<close>

theorem server_silent_until_authenticated:
  assumes "outbox (fst (server_handshake P prof prologue keys os_random s)) \<noteq> outbox s"
  shows "\<exists>s' f k k' m ce h1.
    read_from s = (s', Inr f) \<and> wf_msg_type f = HandshakeInit \<and> KEY_LEN + 16 \<le> length (wf_payload f) \<and>
    ce = take KEY_LEN (wf_payload f) \<and>
    h1 = hash_handshake_state P prologue ce (public_key keys) None \<and>
    derive_session_keys P (p_x25519 P (private_key keys) ce) h1 = Inr (k, k') \<and>
    p_open P k (build_nonce 0) h1 (drop KEY_LEN (wf_payload f)) = Some m"
proof -
  have silent: "outbox (fst (read_from s)) = outbox s"
    using read_from_only_inbox [of s] by (metis net.select_convs(2) net.update_convs(1) net.surjective)
  obtain s' f where f: "read_from s = (s', Inr f)"
    using assms silent by (cases "read_from s"; cases "snd (read_from s)")
      (auto simp: server_handshake_def bindA_case)
  define ce h1 where "ce = take KEY_LEN (wf_payload f)"
    and "h1 = hash_handshake_state P prologue ce (public_key keys) None"
  have shape: "wf_msg_type f = HandshakeInit" "KEY_LEN + 16 \<le> length (wf_payload f)"
    using assms silent f
    by (auto simp: server_handshake_def bindA_case throw_def split: if_splits)
  have lce: "length ce = KEY_LEN" using shape(2) by (simp add: ce_def)
  obtain k k' where k: "derive_session_keys P (p_x25519 P (private_key keys) ce) h1 = Inr (k, k')"
    using assms silent f shape lce
    by (cases "derive_session_keys P (p_x25519 P (private_key keys) ce) h1")
      (auto simp: server_handshake_def bindA_case throw_def liftA_def Let_def diffie_hellman_def
        ce_def h1_def)
  obtain m where "snd (decrypt P prof (drop KEY_LEN (wf_payload f)) h1 0 (cipher_new k)) = Inr m"
    using assms silent f shape k lce
    by (cases "snd (decrypt P prof (drop KEY_LEN (wf_payload f)) h1 0 (cipher_new k))")
      (auto simp: server_handshake_def bindA_case throw_def liftA_def Let_def diffie_hellman_def
        on_local_apply simp flip: ce_def h1_def)
  then have "p_open P k (build_nonce 0) h1 (drop KEY_LEN (wf_payload f)) = Some m"
    by (rule snd_decrypt)
  with f shape k show ?thesis
    unfolding ce_def h1_def by blast
qed

theorem server_silent_until_authenticated_witness:
  "\<exists>init s' f. read_from (connection (serialize init)) = (s', Inr f) \<and>
     wf_msg_type f = HandshakeInit \<and> KEY_LEN + 16 \<le> length (wf_payload f)"
proof -
  define keys where "keys = from_private_bytes toy (replicate 32 5)"
  obtain init resp ck sk where
    "\<And>c rest. write_faults c = [] \<Longrightarrow> inbox c = serialize resp @ rest \<Longrightarrow>
       perform_handshake toy Debug [] (public_key keys) (replicate 32 1) c =
         (c\<lparr>inbox := rest, outbox := outbox c @ serialize init\<rparr>, Inr (cipher_new ck, cipher_new sk))"
    and run: "\<And>s rest. write_faults s = [] \<Longrightarrow> inbox s = serialize init @ rest \<Longrightarrow>
       server_handshake toy Debug [] keys (replicate 32 2) s =
         (s\<lparr>inbox := rest, outbox := outbox s @ serialize resp\<rparr>, Inr (cipher_new ck, cipher_new sk))"
    by (rule handshake_runs [OF toy_session _ _ keys_def, of "replicate 32 1" "replicate 32 2",
        where prof = Debug and prof' = Debug and prologue = "[]"]) (simp, simp, simp, blast)
  have "outbox (fst (server_handshake toy Debug [] keys (replicate 32 2) (connection (serialize init))))
      \<noteq> outbox (connection (serialize init))"
    using run [of "connection (serialize init)" "[]"] by simp
  from server_silent_until_authenticated [OF this] show ?thesis by blast
qed

text \<open>
  C21. What a client that succeeds has sent, read and checked, and what it ends with: it has
  sent its ephemeral key and the sealed opening text, the input starts with a
  \<open>HandshakeResp\<close> frame, of which exactly that frame has been consumed, and the ciphertext in
  it opens, under the key derived from the ephemeral secret and the SHA-256 transcript of
  both messages, to the acknowledgement text; the sending key is the first and the receiving
  key the second one derived from both secrets and that transcript.
\<close>

theorem client_success_binds_keys:
  assumes "perform_handshake P prof prologue server_pubkey os_random c = (c', Inr (tx, rx))"
  shows "\<exists>resp cpub epub ds de h1 h2 k1 k1' ict k k' ck sk.
    cpub = p_x25519_base P os_random \<and> ds = p_x25519 P os_random server_pubkey \<and>
    h1 = p_sha256 P (transcript_bytes prologue cpub server_pubkey None) \<and>
    derive_session_keys P ds h1 = Inr (k1, k1') \<and> p_seal P k1 (build_nonce 0) h1 INIT_TEXT = Some ict \<and>
    outbox c' = outbox c @ serialize (new_frame HandshakeInit 0 (cpub @ ict)) \<and>
    inbox c = serialize resp @ inbox c' \<and> wf_msg_type resp = HandshakeResp \<and>
    KEY_LEN + 16 \<le> length (wf_payload resp) \<and> epub = take KEY_LEN (wf_payload resp) \<and>
    h2 = p_sha256 P (transcript_bytes prologue cpub server_pubkey (Some epub)) \<and>
    de = p_x25519 P os_random epub \<and> derive_session_keys P de h2 = Inr (k', k) \<and>
    p_open P k (build_nonce 0) h2 (drop KEY_LEN (wf_payload resp)) = Some ACK_TEXT \<and>
    derive_session_keys P (ds @ de) h2 = Inr (ck, sk) \<and> tx = cipher_new ck \<and> rx = cipher_new sk"
proof -
  define cpub ds where "cpub = p_x25519_base P os_random" and "ds = p_x25519 P os_random server_pubkey"
  define h1 where "h1 = p_sha256 P (transcript_bytes prologue cpub server_pubkey None)"
  define h2 where "h2 resp = p_sha256 P (transcript_bytes prologue cpub server_pubkey
      (Some (take KEY_LEN (wf_payload resp))))" for resp :: wire_frame
  obtain k1 k1' ict n resp k k' ck sk where
      k1: "derive_session_keys P ds h1 = Inr (k1, k1')"
    and ict: "snd (encrypt P INIT_TEXT h1 (cipher_new k1)) = Inr ict"
    and sent: "write_to (new_frame HandshakeInit 0 (cpub @ ict)) c = (n, Inr ())"
    and resp: "read_from n = (c', Inr resp)" "wf_msg_type resp = HandshakeResp"
      "KEY_LEN + 16 \<le> length (wf_payload resp)"
    and k: "derive_session_keys P (p_x25519 P os_random (take KEY_LEN (wf_payload resp))) (h2 resp) = Inr (k', k)"
    and ack: "snd (decrypt P prof (drop KEY_LEN (wf_payload resp)) (h2 resp) 0 (cipher_new k)) = Inr ACK_TEXT"
    and ks: "derive_session_keys P (ds @ p_x25519 P os_random (take KEY_LEN (wf_payload resp))) (h2 resp) = Inr (ck, sk)"
      "tx = cipher_new ck" "rx = cipher_new sk"
    using assms
    by (auto simp: perform_handshake_def act_Inr Let_def diffie_hellman_def ephemeral_generate_def
        ephemeral_diffie_hellman_def on_local_def hash_transcript h1_def h2_def cpub_def ds_def
        split: if_splits prod.splits)
  have seal: "p_seal P k1 (build_nonce 0) h1 INIT_TEXT = Some ict"
    by (rule snd_encrypt [OF ict])
  have opened: "p_open P k (build_nonce 0) (h2 resp) (drop KEY_LEN (wf_payload resp)) = Some ACK_TEXT"
    by (rule snd_decrypt [OF ack])
  have "inbox n = inbox c" "outbox n = outbox c @ serialize (new_frame HandshakeInit 0 (cpub @ ict))"
    using write_to_effect [OF sent] by simp_all
  moreover have "inbox n = serialize resp @ inbox c'" "outbox c' = outbox n"
    using resp(1) by (auto simp: read_from_Inr dest: arg_cong [where f = outbox])
  ultimately show ?thesis
    using k1 seal resp(2,3) k opened ks
    unfolding h1_def h2_def cpub_def ds_def by metis
qed

theorem client_success_binds_keys_witness:
  "\<exists>c resp c' tx rx k.
     perform_handshake toy Debug [] (replicate 32 5) (replicate 32 1) c = (c', Inr (tx, rx)) \<and>
     inbox c = serialize resp @ inbox c' \<and> wf_msg_type resp = HandshakeResp \<and>
     p_open toy k (build_nonce 0)
       (p_sha256 toy (transcript_bytes [] (p_x25519_base toy (replicate 32 1)) (replicate 32 5)
         (Some (take KEY_LEN (wf_payload resp))))) (drop KEY_LEN (wf_payload resp)) = Some ACK_TEXT"
proof -
  define keys where "keys = from_private_bytes toy (replicate 32 5)"
  have pub: "public_key keys = replicate 32 5"
    by (simp add: keys_def from_private_bytes_def toy_def pad32_id)
  obtain init resp ck sk where
    run: "\<And>c rest. write_faults c = [] \<Longrightarrow> inbox c = serialize resp @ rest \<Longrightarrow>
       perform_handshake toy Debug [] (public_key keys) (replicate 32 1) c =
         (c\<lparr>inbox := rest, outbox := outbox c @ serialize init\<rparr>, Inr (cipher_new ck, cipher_new sk))"
    by (rule handshake_runs [OF toy_session _ _ keys_def, of "replicate 32 1" "replicate 32 2",
        where prof = Debug and prologue = "[]"]) (simp, simp, simp, blast)
  have "perform_handshake toy Debug [] (replicate 32 5) (replicate 32 1) (connection (serialize resp)) =
      ((connection [])\<lparr>outbox := serialize init\<rparr>, Inr (cipher_new ck, cipher_new sk))"
    using run [of "connection (serialize resp)" "[]"] by (simp add: pub connection_def)
  from client_success_binds_keys [OF this] this show ?thesis by metis
qed

text \<open>A response built from public values and a fresh secret only.\<close>

definition rogue_response ::
  "primitives \<Rightarrow> bytes \<Rightarrow> bytes \<Rightarrow> bytes \<Rightarrow> bytes \<Rightarrow> wire_frame result" where
  "rogue_response P prologue server_pubkey rogue_random client_ephem_pub =
     (let epub = p_x25519_base P rogue_random;
          dh_ephem = p_x25519 P rogue_random client_ephem_pub;
          h2 = hash_handshake_state P prologue client_ephem_pub server_pubkey (Some epub)
      in case derive_session_keys P dh_ephem h2 of
           Inl e \<Rightarrow> Inl e
         | Inr (_, k) \<Rightarrow>
             (case snd (encrypt P ACK_TEXT h2 (cipher_new k)) of
                Inl e \<Rightarrow> Inl e
              | Inr ct \<Rightarrow> Inr (new_frame HandshakeResp 0 (epub @ ct))))"

text \<open>
  C32. The acknowledgement does not prove possession of the server's static key: anyone who
  sees the initiator's frame can build a response from public values and a fresh secret of
  its own (\<open>rogue_response\<close> has no argument for the static secret), and the client accepts
  the handshake, whatever the static key is. Only the transport keys depend on it.
\<close>

theorem handshake_completes_without_static_key:
  assumes P: "session_primitives P"
    and lens: "length client_random = 32" "length rogue_random = 32"
    and c: "write_faults c = []" "inbox c = serialize resp @ rest"
    and rogue: "rogue_response P prologue server_pubkey rogue_random (p_x25519_base P client_random) = Inr resp"
  shows "\<exists>tx rx. snd (perform_handshake P prof prologue server_pubkey client_random c) = Inr (tx, rx)"
proof -
  define cpub epub where "cpub = p_x25519_base P client_random" and "epub = p_x25519_base P rogue_random"
  define de where "de = p_x25519 P client_random epub"
  have de: "p_x25519 P rogue_random cpub = de"
    unfolding de_def epub_def cpub_def by (intro dh_symmetric P lens)
  have lepub: "length epub = 32" by (simp add: epub_def length_base [OF P])
  define ds h1 h2 where "ds = p_x25519 P client_random server_pubkey"
    and "h1 = hash_handshake_state P prologue cpub server_pubkey None"
    and "h2 = hash_handshake_state P prologue cpub server_pubkey (Some epub)"
  note hkdf = derive_total [OF session_primitivesD(3) [OF P]]
  obtain ki ki' where ki: "derive_session_keys P ds h1 = Inr (ki, ki')" by (rule hkdf)
  obtain kr' kr where kr: "derive_session_keys P de h2 = Inr (kr', kr)" by (rule hkdf)
  obtain ck sk where ks: "derive_session_keys P (ds @ de) h2 = Inr (ck, sk)" by (rule hkdf)
  obtain ict where ict: "snd (encrypt P INIT_TEXT h1 (cipher_new ki)) = Inr ict"
    by (rule encrypt_new [OF P, of INIT_TEXT h1 ki]) (simp_all add: length_texts aead_limit_def)
  obtain rct where rct: "snd (encrypt P ACK_TEXT h2 (cipher_new kr)) = Inr rct"
      "\<And>prof. snd (decrypt P prof rct h2 0 (cipher_new kr)) = Inr ACK_TEXT" "length rct = 22 + 16"
    by (rule encrypt_new [OF P, of ACK_TEXT h2 kr]) (simp_all add: length_texts aead_limit_def)
  have resp: "resp = new_frame HandshakeResp 0 (epub @ rct)"
    using rogue
    by (simp add: rogue_response_def Let_def de kr rct flip: cpub_def epub_def h2_def)
  have valid: "valid_frame resp"
    by (simp add: valid_frame_le resp new_frame_def lepub rct)
  have parts: "wf_msg_type resp = HandshakeResp" "wf_payload resp = epub @ rct"
    by (simp_all add: resp new_frame_def)
  define init where "init = new_frame HandshakeInit 0 (cpub @ ict)"
  have "read_from (c\<lparr>outbox := outbox c @ serialize init\<rparr>) =
      (c\<lparr>outbox := outbox c @ serialize init, inbox := rest\<rparr>, Inr resp)"
    using read_from_serialize [OF valid, of "c\<lparr>outbox := outbox c @ serialize init\<rparr>" rest] c by simp
  then show ?thesis
    using write_to_clean [OF c(1), of init]
    by (simp add: perform_handshake_def ephemeral_generate_def ephemeral_diffie_hellman_def
        diffie_hellman_def cpub_def [symmetric] Let_def bindA_case liftA_def on_local_apply ret_def
        KEY_LEN_def lepub parts rct ict ki kr ks
        flip: init_def ds_def de_def h1_def h2_def)
qed

theorem handshake_completes_without_static_key_witness:
  "\<exists>resp tx rx. rogue_response toy [1] (replicate 32 5) (replicate 32 66) (p_x25519_base toy (replicate 32 1)) = Inr resp \<and>
     snd (perform_handshake toy Debug [1] (replicate 32 5) (replicate 32 1) (connection (serialize resp))) = Inr (tx, rx)"
proof -
  let ?h2 = "hash_handshake_state toy [1] (p_x25519_base toy (replicate 32 1)) (replicate 32 5)
      (Some (p_x25519_base toy (replicate 32 66)))"
  let ?dh = "p_x25519 toy (replicate 32 66) (p_x25519_base toy (replicate 32 1))"
  obtain k' k where k: "derive_session_keys toy ?dh ?h2 = Inr (k', k)"
    by (rule derive_total [OF toy_hkdf])
  obtain ct where "snd (encrypt toy ACK_TEXT ?h2 (cipher_new k)) = Inr ct"
    by (rule encrypt_new [OF toy_session, of ACK_TEXT ?h2 k]) (simp_all add: length_texts aead_limit_def)
  then obtain resp where resp:
      "rogue_response toy [1] (replicate 32 5) (replicate 32 66) (p_x25519_base toy (replicate 32 1)) = Inr resp"
    using k by (simp add: rogue_response_def Let_def)
  from handshake_completes_without_static_key [OF toy_session _ _ _ _ resp, of "connection (serialize resp)" "[]" Debug]
  show ?thesis using resp by auto
qed

text \<open>
  The transcript binds the handshake: two transcripts of the same handshake message
  with equal hashes come from the same prologue and keys, or their two inputs are different
  byte strings with the same SHA-256 value. The prologue carries no length, so this does
  not extend to transcripts of different messages: the second one of a handshake is also
  the first one of a handshake with a longer prologue.
\<close>

theorem transcript_binds:
  assumes "hash_handshake_state P pr ce sp se = hash_handshake_state P pr' ce' sp' se'"
    and "length ce = 32" "length sp = 32" "length ce' = 32" "length sp' = 32"
    and "map_option length se = map_option length se'"
  shows "((pr, ce, sp, se) = (pr', ce', sp', se') \<or>
          (transcript_bytes pr ce sp se \<noteq> transcript_bytes pr' ce' sp' se' \<and>
           p_sha256 P (transcript_bytes pr ce sp se) = p_sha256 P (transcript_bytes pr' ce' sp' se'))) \<and>
         hash_handshake_state P pr ce sp (Some k) = hash_handshake_state P (pr @ ce) sp k None"
proof
  have "(pr, ce, sp, se) = (pr', ce', sp', se')"
    if eq: "transcript_bytes pr ce sp se = transcript_bytes pr' ce' sp' se'"
  proof -
    have tails: "length (case se of None \<Rightarrow> [] | Some e \<Rightarrow> e) = length (case se' of None \<Rightarrow> [] | Some e \<Rightarrow> e)"
      using assms(6) by (auto split: option.splits)
    have "pr @ ce = pr' @ ce' \<and> sp @ (case se of None \<Rightarrow> [] | Some e \<Rightarrow> e) = sp' @ (case se' of None \<Rightarrow> [] | Some e \<Rightarrow> e)"
      using eq tails assms(2-5) append_eq_append_conv [of "sp @ (case se of None \<Rightarrow> [] | Some e \<Rightarrow> e)"
          "sp' @ (case se' of None \<Rightarrow> [] | Some e \<Rightarrow> e)" "pr @ ce" "pr' @ ce'"]
      by (simp add: transcript_bytes_def)
    then show ?thesis
      using assms(2-6) by (auto simp: append_eq_append_conv split: option.splits)
  qed
  then show "(pr, ce, sp, se) = (pr', ce', sp', se') \<or>
      (transcript_bytes pr ce sp se \<noteq> transcript_bytes pr' ce' sp' se' \<and>
       p_sha256 P (transcript_bytes pr ce sp se) = p_sha256 P (transcript_bytes pr' ce' sp' se'))"
    using assms(1) by (auto simp: hash_transcript)
  show "hash_handshake_state P pr ce sp (Some k) = hash_handshake_state P (pr @ ce) sp k None"
    by (simp add: hash_transcript transcript_bytes_def)
qed

theorem transcript_binds_witness:
  "hash_handshake_state toy [1] (replicate 32 2) (replicate 32 3) None =
   hash_handshake_state toy [1] (replicate 32 2) (replicate 32 4) None \<and>
   transcript_bytes [1] (replicate 32 2) (replicate 32 3) None \<noteq>
   transcript_bytes [1] (replicate 32 2) (replicate 32 4) None"
proof -
  have eq: "hash_handshake_state toy [1] (replicate 32 2) (replicate 32 3) None =
      hash_handshake_state toy [1] (replicate 32 2) (replicate 32 4) None"
    by (simp add: hash_transcript transcript_bytes_def toy_def pad32_def)
  have "replicate 32 3 \<noteq> (replicate 32 4 :: bytes)" by (simp add: replicate_eq_replicate)
  then show ?thesis
    using transcript_binds [OF eq] eq by auto
qed

text \<open>
  C38. What a server that accepts has read, checked and sent, and what it ends with: the
  input starts with a \<open>HandshakeInit\<close> frame, of which exactly that frame has been consumed
  and whose ciphertext opens under the static secret and the SHA-256 transcript; the one
  frame it has sent carries its ephemeral key and the acknowledgement sealed under the
  ephemeral secret; and the receiving key is the first and the sending key the second one
  derived from both secrets and the transcript of both messages.
\<close>

theorem server_success_binds_keys:
  assumes "server_handshake P prof prologue keys os_random s = (s', Inr (rx, tx))"
  shows "\<exists>f ce epub ds de h1 h2 k1 k1' m k k' rct ck sk.
    inbox s = serialize f @ inbox s' \<and> wf_msg_type f = HandshakeInit \<and>
    KEY_LEN + 16 \<le> length (wf_payload f) \<and> ce = take KEY_LEN (wf_payload f) \<and>
    ds = p_x25519 P (private_key keys) ce \<and>
    h1 = p_sha256 P (transcript_bytes prologue ce (public_key keys) None) \<and>
    derive_session_keys P ds h1 = Inr (k1, k1') \<and>
    p_open P k1 (build_nonce 0) h1 (drop KEY_LEN (wf_payload f)) = Some m \<and>
    epub = p_x25519_base P os_random \<and> de = p_x25519 P os_random ce \<and>
    h2 = p_sha256 P (transcript_bytes prologue ce (public_key keys) (Some epub)) \<and>
    derive_session_keys P de h2 = Inr (k', k) \<and> p_seal P k (build_nonce 0) h2 ACK_TEXT = Some rct \<and>
    outbox s' = outbox s @ serialize (new_frame HandshakeResp 0 (epub @ rct)) \<and>
    derive_session_keys P (ds @ de) h2 = Inr (ck, sk) \<and> rx = cipher_new ck \<and> tx = cipher_new sk"
proof -
  define epub where "epub = p_x25519_base P os_random"
  define ce ds de where "ce f = take KEY_LEN (wf_payload f)" and "ds f = p_x25519 P (private_key keys) (ce f)"
    and "de f = p_x25519 P os_random (ce f)" for f :: wire_frame
  define h1 where "h1 f = p_sha256 P (transcript_bytes prologue (ce f) (public_key keys) None)" for f :: wire_frame
  define h2 where "h2 f = p_sha256 P (transcript_bytes prologue (ce f) (public_key keys) (Some epub))" for f :: wire_frame
  obtain n f k1 k1' m k k' rct ck sk where
      f: "read_from s = (n, Inr f)" "wf_msg_type f = HandshakeInit" "KEY_LEN + 16 \<le> length (wf_payload f)"
    and k1: "derive_session_keys P (ds f) (h1 f) = Inr (k1, k1')"
    and init: "snd (decrypt P prof (drop KEY_LEN (wf_payload f)) (h1 f) 0 (cipher_new k1)) = Inr m"
    and k: "derive_session_keys P (de f) (h2 f) = Inr (k', k)"
    and ack: "snd (encrypt P ACK_TEXT (h2 f) (cipher_new k)) = Inr rct"
    and sent: "write_to (new_frame HandshakeResp 0 (epub @ rct)) n = (s', Inr ())"
    and ks: "derive_session_keys P (ds f @ de f) (h2 f) = Inr (ck, sk)" "rx = cipher_new ck" "tx = cipher_new sk"
    using assms
    by (auto simp: server_handshake_def act_Inr Let_def diffie_hellman_def ephemeral_generate_def
        ephemeral_diffie_hellman_def on_local_def hash_transcript h1_def h2_def epub_def ds_def de_def ce_def
        split: if_splits prod.splits)
  have "inbox s' = inbox n" "outbox s' = outbox n @ serialize (new_frame HandshakeResp 0 (epub @ rct))"
    using write_to_effect [OF sent] by simp_all
  moreover have "inbox s = serialize f @ inbox n" "outbox n = outbox s"
    using f(1) by (auto simp: read_from_Inr dest: arg_cong [where f = outbox])
  ultimately show ?thesis
    using f(2,3) k1 snd_decrypt [OF init] k snd_encrypt [OF ack] ks
    unfolding h1_def h2_def epub_def ds_def de_def ce_def by metis
qed

theorem server_success_binds_keys_witness:
  "\<exists>s s' rx tx f ct.
     server_handshake toy Debug [] (from_private_bytes toy (replicate 32 5)) (replicate 32 2) s = (s', Inr (rx, tx)) \<and>
     inbox s = serialize f @ inbox s' \<and> wf_msg_type f = HandshakeInit \<and>
     outbox s' = outbox s @ serialize (new_frame HandshakeResp 0 (p_x25519_base toy (replicate 32 2) @ ct))"
proof -
  define keys where "keys = from_private_bytes toy (replicate 32 5)"
  obtain init resp ck sk where run: "\<And>s rest. write_faults s = [] \<Longrightarrow> inbox s = serialize init @ rest \<Longrightarrow>
       server_handshake toy Debug [] keys (replicate 32 2) s =
         (s\<lparr>inbox := rest, outbox := outbox s @ serialize resp\<rparr>, Inr (cipher_new ck, cipher_new sk))"
    by (rule handshake_runs [OF toy_session _ _ keys_def, of "replicate 32 1" "replicate 32 2",
        where prof' = Debug and prologue = "[]"]) (simp, simp, simp, blast)
  have ok: "server_handshake toy Debug [] keys (replicate 32 2) (connection (serialize init)) =
      ((connection (serialize init))\<lparr>inbox := [], outbox := serialize resp\<rparr>, Inr (cipher_new ck, cipher_new sk))"
    using run [of "connection (serialize init)" "[]"] by simp
  from server_success_binds_keys [OF ok] ok show ?thesis
    unfolding keys_def by metis
qed

text \<open>
  C27. The server's verdict on the first frame, case by case: a frame of another type, a
  payload below 48 bytes and a ciphertext that does not open under the derived key each
  have their own error; with any other frame, and without write faults, the handshake
  succeeds.
\<close>

theorem server_handshake_verdict:
  assumes "session_primitives P" "inbox s = serialize f @ rest" "is_valid_payload_size (payload_len f)"
    and "write_faults s = []"
    and h1: "h1 = hash_handshake_state P prologue (take KEY_LEN (wf_payload f)) (public_key keys) None"
    and k: "derive_session_keys P (p_x25519 P (private_key keys) (take KEY_LEN (wf_payload f))) h1 = Inr (k, k')"
  shows "if wf_msg_type f \<noteq> HandshakeInit then
      snd (server_handshake P prof prologue keys os_random s) = Inl (Err (ExpectedHandshakeInit (wf_msg_type f)))
    else if length (wf_payload f) < KEY_LEN + 16 then
      snd (server_handshake P prof prologue keys os_random s) = Inl (Err InitPayloadSize)
    else if p_open P k (build_nonce 0) h1 (drop KEY_LEN (wf_payload f)) = None then
      snd (server_handshake P prof prologue keys os_random s) = Inl (Err AeadDecrypt)
    else (\<exists>rx tx. snd (server_handshake P prof prologue keys os_random s) = Inr (rx, tx))"
proof -
  have read: "read_from s = (s\<lparr>inbox := rest\<rparr>, Inr f)"
    using read_from_serialize [of f s rest] assms(2,3) by (simp add: valid_frame_def)
  define ce where "ce = take KEY_LEN (wf_payload f)"
  have h1': "hash_handshake_state P prologue ce (public_key keys) None = h1"
    by (simp add: h1 ce_def)
  have k': "derive_session_keys P (p_x25519 P (private_key keys) ce) h1 = Inr (k, k')"
    using k by (simp add: ce_def)
  have lce: "length ce = KEY_LEN" if "\<not> length (wf_payload f) < KEY_LEN + 16"
    using that by (simp add: ce_def)
  let ?run = "server_handshake P prof prologue keys os_random s"
  note unf = server_handshake_def bindA_case read throw_def liftA_def Let_def diffie_hellman_def
    on_local_apply ret_def ephemeral_generate_def ephemeral_diffie_hellman_def
    ce_def [symmetric] h1' k'
  consider "wf_msg_type f \<noteq> HandshakeInit"
    | "wf_msg_type f = HandshakeInit" "length (wf_payload f) < KEY_LEN + 16"
    | "wf_msg_type f = HandshakeInit" "\<not> length (wf_payload f) < KEY_LEN + 16"
      "p_open P k (build_nonce 0) h1 (drop KEY_LEN (wf_payload f)) = None"
    | m where "wf_msg_type f = HandshakeInit" "\<not> length (wf_payload f) < KEY_LEN + 16"
      "p_open P k (build_nonce 0) h1 (drop KEY_LEN (wf_payload f)) = Some m"
    by (cases "p_open P k (build_nonce 0) h1 (drop KEY_LEN (wf_payload f))") auto
  then show ?thesis
  proof cases
    case 3
    then have "snd (decrypt P prof (drop KEY_LEN (wf_payload f)) h1 0 (cipher_new k)) = Inl (Err AeadDecrypt)"
      by (simp add: decrypt_def cipher_new_def)
    with 3 lce show ?thesis by (simp add: unf)
  next
    case (4 m)
    have dec: "snd (decrypt P prof (drop KEY_LEN (wf_payload f)) h1 0 (cipher_new k)) = Inr m"
      using 4(3) decrypt_ok [of P "cipher_new k" h1 "drop KEY_LEN (wf_payload f)" m prof]
      by (simp add: cipher_new_def)
    define epub where "epub = p_x25519_base P os_random"
    define de where "de = p_x25519 P os_random ce"
    define h2 where "h2 = hash_handshake_state P prologue ce (public_key keys) (Some epub)"
    note hkdf = derive_total [OF session_primitivesD(3) [OF assms(1)]]
    obtain ck sk where ks: "derive_session_keys P (p_x25519 P (private_key keys) ce @ de) h2 = Inr (ck, sk)"
      by (rule hkdf)
    obtain kr' kr where kr: "derive_session_keys P de h2 = Inr (kr', kr)" by (rule hkdf)
    obtain rct where rct: "snd (encrypt P ACK_TEXT h2 (cipher_new kr)) = Inr rct"
      by (rule encrypt_new [OF assms(1), of ACK_TEXT h2 kr]) (simp_all add: length_texts aead_limit_def)
    have "write_to g (s\<lparr>inbox := rest\<rparr>) = (s\<lparr>inbox := rest, outbox := outbox s @ serialize g\<rparr>, Inr ())" for g
      using assms(4) by (simp add: write_to_clean)
    with 4 dec ks kr rct lce show ?thesis
      by (simp add: unf flip: epub_def de_def h2_def)
  qed (simp_all add: unf)
qed

theorem server_handshake_verdict_witness:
  "snd (server_handshake toy Debug [] (from_private_bytes toy (replicate 32 5)) (replicate 32 2)
     (connection (serialize (data_frame 0 [1])))) = Inl (Err (ExpectedHandshakeInit DataPayload))"
proof -
  obtain k k' where k: "derive_session_keys toy (p_x25519 toy (private_key (from_private_bytes toy (replicate 32 5)))
      (take KEY_LEN (wf_payload (data_frame 0 [1]))))
      (hash_handshake_state toy [] (take KEY_LEN (wf_payload (data_frame 0 [1])))
        (public_key (from_private_bytes toy (replicate 32 5))) None) = Inr (k, k')"
    by (rule derive_total [OF toy_hkdf])
  show ?thesis
    using server_handshake_verdict [OF toy_session _ _ _ refl k, of "connection (serialize (data_frame 0 [1]))" "[]"
        Debug "replicate 32 2"]
    by (simp add: data_frame_def new_frame_def is_valid_payload_size_def max_payload_size_def
        MAX_FRAME_SIZE_def payload_len_def)
qed

end
