(* ===== verification/Transport.thy ===== *)
theory Transport
  imports Handshake Replay Stats
begin

text \<open>
  The server's transport phase (src/src/server.rs 245-307): the loop of
  \<open>handle_client_with_prologue\<close> that reads a frame, updates the metrics, checks the replay
  filter, decrypts and answers. One turn is \<open>transport_step\<close>, the loop is \<open>transport_loop\<close>,
  and it is total: every turn that goes on has consumed a frame of the finite input.
  Log output is not modelled.
\<close>

section \<open>The session and one turn of the loop\<close>

record session =
  s_net :: net
  s_rx :: cipher_state
  s_tx :: cipher_state
  s_replay :: replay_filter
  s_metrics :: session_metrics

datatype flow = Continue | Break

definition DATA_AAD :: bytes where
  "DATA_AAD = bytes_of ''tunnel-data''"

definition HEARTBEAT_AAD :: bytes where
  "HEARTBEAT_AAD = bytes_of ''heartbeat''"

definition REPLY_PREFIX :: bytes where
  "REPLY_PREFIX = bytes_of ''Server mottok: ''"

definition PONG :: bytes where
  "PONG = bytes_of ''PONG''"

text \<open>\<open>session_metrics.record_rx\<close> and \<open>record_tx\<close> with the reading of the clock inside them.\<close>

definition count_rx :: "profile \<Rightarrow> nat \<Rightarrow> (session, unit) act" where
  "count_rx prof n =
     bindA (onA s_net s_net_update instant_now) (\<lambda>now.
     onA s_metrics s_metrics_update (record_rx prof n now))"

definition count_tx :: "profile \<Rightarrow> nat \<Rightarrow> (session, unit) act" where
  "count_tx prof n =
     bindA (onA s_net s_net_update instant_now) (\<lambda>now.
     onA s_metrics s_metrics_update (record_tx prof n now))"

definition serve_frame :: "primitives \<Rightarrow> profile \<Rightarrow> wire_frame \<Rightarrow> (session, flow) act" where
  "serve_frame P prof frame =
     (case wf_msg_type frame of
        DataPayload \<Rightarrow>
          bindA (onA s_replay s_replay_update (validate_and_record prof (wf_nonce frame))) (\<lambda>_.
          bindA (onA s_rx s_rx_update
                   (decrypt P prof (wf_payload frame) DATA_AAD (wf_nonce frame))) (\<lambda>plaintext.
          let msg_str = from_utf8_lossy plaintext;
              reply_msg = REPLY_PREFIX @ msg_str in
          bindA (getsA (\<lambda>s. current_nonce (s_tx s))) (\<lambda>reply_nonce.
          bindA (onA s_tx s_tx_update (encrypt P reply_msg DATA_AAD)) (\<lambda>encrypted_reply.
          let reply_frame = new_frame DataPayload reply_nonce encrypted_reply in
          bindA (count_tx prof (payload_len reply_frame + 13)) (\<lambda>_.
          bindA (onA s_net s_net_update (write_to reply_frame)) (\<lambda>_.
          ret Continue))))))
      | Heartbeat \<Rightarrow>
          bindA (onA s_replay s_replay_update (validate_and_record prof (wf_nonce frame))) (\<lambda>_.
          bindA (onA s_rx s_rx_update
                   (decrypt P prof (wf_payload frame) HEARTBEAT_AAD (wf_nonce frame))) (\<lambda>_.
          bindA (getsA (\<lambda>s. current_nonce (s_tx s))) (\<lambda>pong_nonce.
          bindA (onA s_tx s_tx_update (encrypt P PONG HEARTBEAT_AAD)) (\<lambda>pong.
          let pong_frame = heartbeat_frame pong_nonce pong in
          bindA (count_tx prof (payload_len pong_frame + 13)) (\<lambda>_.
          bindA (onA s_net s_net_update (write_to pong_frame)) (\<lambda>_.
          ret Continue))))))
      | Close \<Rightarrow> ret Break
      | _ \<Rightarrow> ret Continue)"

text \<open>A failing read breaks out of the loop, it is not an error of the session.\<close>

definition transport_step :: "primitives \<Rightarrow> profile \<Rightarrow> (session, flow) act" where
  "transport_step P prof = (\<lambda>s.
     case onA s_net s_net_update read_from s of
       (s, Inl (Err _)) \<Rightarrow> (s, Inr Break)
     | (s, Inl (Panic p)) \<Rightarrow> (s, Inl (Panic p))
     | (s, Inr frame) \<Rightarrow>
         bindA (count_rx prof (payload_len frame + 13)) (\<lambda>_. serve_frame P prof frame) s)"

section \<open>The loop\<close>

text \<open>Everything after reading the frame leaves the input alone.\<close>

definition keeps_inbox :: "(session, 'a) act \<Rightarrow> bool" where
  "keeps_inbox m \<longleftrightarrow> (\<forall>s. inbox (s_net (fst (m s))) = inbox (s_net s))"

lemma keeps_inbox_bind [intro]:
  "keeps_inbox m \<Longrightarrow> (\<And>x. keeps_inbox (k x)) \<Longrightarrow> keeps_inbox (bindA m k)"
  unfolding keeps_inbox_def bindA_def
  by (metis (mono_tags, lifting) case_prod_beta fst_conv old.sum.simps(5,6) sum.exhaust_sel)

lemma keeps_inbox_basic [intro]:
  "keeps_inbox (ret x)"
  "keeps_inbox (getsA g)"
  "keeps_inbox (onA s_rx s_rx_update c)"
  "keeps_inbox (onA s_tx s_tx_update c)"
  "keeps_inbox (onA s_replay s_replay_update r)"
  "keeps_inbox (onA s_metrics s_metrics_update m)"
  "keeps_inbox (onA s_net s_net_update (write_to f))"
  "keeps_inbox (onA s_net s_net_update instant_now)"
  using write_to_inbox [of f] instant_now_total
  by (auto simp: keeps_inbox_def ret_def getsA_def onA_def split: prod.split)
    (metis fst_conv, metis prod.inject)

lemma keeps_inbox_count [intro]: "keeps_inbox (count_rx prof n)" "keeps_inbox (count_tx prof n)"
  by (auto simp: count_rx_def count_tx_def)

lemma keeps_inbox_serve [intro]: "keeps_inbox (serve_frame P prof f)"
  unfolding serve_frame_def Let_def
  by (cases "wf_msg_type f"; simp only: message_type.case;
      intro keeps_inbox_bind keeps_inbox_basic keeps_inbox_count)

lemma transport_step_consumes:
  assumes "transport_step P prof s = (s', Inr Continue)"
  shows "length (inbox (s_net s')) + 13 \<le> length (inbox (s_net s))"
proof -
  obtain n f where f: "read_from (s_net s) = (n, Inr f)"
    using assms by (cases "read_from (s_net s)"; cases "snd (read_from (s_net s))")
      (auto simp: transport_step_def onA_def split: fault.splits)
  have "keeps_inbox (bindA (count_rx prof (payload_len f + 13)) (\<lambda>_. serve_frame P prof f))"
    by auto
  moreover have "bindA (count_rx prof (payload_len f + 13)) (\<lambda>_. serve_frame P prof f)
      (s\<lparr>s_net := n\<rparr>) = (s', Inr Continue)"
    using assms f by (simp add: transport_step_def onA_def)
  ultimately have "inbox (s_net s') = inbox n"
    by (metis (no_types, lifting) fst_conv keeps_inbox_def session.select_convs(1)
        session.surjective session.update_convs(1))
  then show ?thesis
    using read_from_progress [OF f] by simp
qed

function transport_loop :: "primitives \<Rightarrow> profile \<Rightarrow> session \<Rightarrow> session \<times> unit result" where
  "transport_loop P prof s =
     (case transport_step P prof s of
        (s', Inl e) \<Rightarrow> (s', Inl e)
      | (s', Inr Break) \<Rightarrow> (s', Inr ())
      | (s', Inr Continue) \<Rightarrow> transport_loop P prof s')"
  by pat_completeness auto
termination
  by (relation "measure (\<lambda>(P, prof, s). length (inbox (s_net s)))")
    (auto dest!: transport_step_consumes [OF sym])

declare transport_loop.simps [simp del]

text \<open>The same loop with a budget of turns.\<close>

fun transport_fuel :: "nat \<Rightarrow> primitives \<Rightarrow> profile \<Rightarrow> session \<Rightarrow> (session \<times> unit result) option" where
  "transport_fuel 0 P prof s = None"
| "transport_fuel (Suc n) P prof s =
     (case transport_step P prof s of
        (s', Inl e) \<Rightarrow> Some (s', Inl e)
      | (s', Inr Break) \<Rightarrow> Some (s', Inr ())
      | (s', Inr Continue) \<Rightarrow> transport_fuel n P prof s')"

section \<open>A client's whole session\<close>

definition start_session :: "net \<Rightarrow> cipher_state \<Rightarrow> cipher_state \<Rightarrow> nat \<Rightarrow> session" where
  "start_session stream rx_cipher tx_cipher now =
     \<lparr>s_net = stream, s_rx = rx_cipher, s_tx = tx_cipher, s_replay = new_filter,
      s_metrics = metrics_new now\<rparr>"

text \<open>
  The closing log line of a session prints the metrics (\<open>Display\<close> in src/src/stats.rs), which
  adds up the bytes of both directions and reads the clock. The level of the line is \<open>info\<close>,
  which \<open>main\<close> enables, so the panic of that sum in a debug build is one of the task.
\<close>

definition log_session :: "profile \<Rightarrow> (session, unit) act" where
  "log_session prof =
     bindA (getsA s_metrics) (\<lambda>session_metrics.
     bindA (arithA (total_bytes prof session_metrics)) (\<lambda>_.
     bindA (onA s_net s_net_update instant_now) (\<lambda>_. ret ())))"

definition handle_client_with_prologue ::
  "primitives \<Rightarrow> profile \<Rightarrow> key_pair \<Rightarrow> bytes \<Rightarrow> bytes \<Rightarrow> (net, unit) act" where
  "handle_client_with_prologue P prof server_keys prologue os_random =
     bindA (server_handshake P prof prologue server_keys os_random) (\<lambda>(rx_cipher, tx_cipher).
     bindA instant_now (\<lambda>now. (\<lambda>stream.
       case transport_loop P prof (start_session stream rx_cipher tx_cipher now) of
         (s, Inl e) \<Rightarrow> (s_net s, Inl e)
       | (s, Inr _) \<Rightarrow> (case log_session prof s of (s, r) \<Rightarrow> (s_net s, r)))))"

definition handle_client ::
  "primitives \<Rightarrow> profile \<Rightarrow> key_pair \<Rightarrow> bytes \<Rightarrow> (net, unit) act" where
  "handle_client P prof server_keys os_random =
     handle_client_with_prologue P prof server_keys PROTOCOL_NAME os_random"

section \<open>What a turn accepts and what it answers\<close>

text \<open>An accepted frame carries a message or a ping; the server owes one answer for each.\<close>

datatype event = Said bytes | Pinged bytes

type_synonym item = "message_type \<times> bytes \<times> bytes"

fun request_item :: "event \<Rightarrow> item" where
  "request_item (Said m) = (DataPayload, DATA_AAD, m)"
| "request_item (Pinged m) = (Heartbeat, HEARTBEAT_AAD, m)"

fun answer_item :: "event \<Rightarrow> item" where
  "answer_item (Said m) = (DataPayload, DATA_AAD, REPLY_PREFIX @ from_utf8_lossy m)"
| "answer_item (Pinged m) = (Heartbeat, HEARTBEAT_AAD, PONG)"

definition next_nonce :: "cipher_state \<Rightarrow> cipher_state" where
  "next_nonce c = c\<lparr>cs_nonce := cs_nonce c + 1\<rparr>"

definition carries :: "primitives \<Rightarrow> cipher_state \<Rightarrow> wire_frame \<Rightarrow> event \<Rightarrow> bool" where
  "carries P c f e =
     (case request_item e of (t, a, m) \<Rightarrow>
        wf_msg_type f = t \<and> wf_nonce f = cs_nonce c \<and>
        p_open P (cs_key c) (build_nonce (cs_nonce c)) a (wf_payload f) = Some m)"

text \<open>The frame that seals an item with the next nonce of a cipher.\<close>

definition seals :: "primitives \<Rightarrow> cipher_state \<Rightarrow> item \<Rightarrow> wire_frame \<Rightarrow> bool" where
  "seals P c x f =
     (case x of (t, a, m) \<Rightarrow>
        \<exists>ct. p_seal P (cs_key c) (build_nonce (cs_nonce c)) a m = Some ct \<and>
             f = new_frame t (cs_nonce c) ct \<and> unat (cs_nonce c) + 1 < 2 ^ 64)"

definition in_step :: "session \<Rightarrow> bool" where
  "in_step s \<longleftrightarrow> window_ok (s_replay s) \<and>
     (if initialized (s_replay s) then cs_nonce (s_rx s) = last_seq (s_replay s) + 1
      else cs_nonce (s_rx s) = 0)"

lemma next_nonce_simps [simp]:
  "cs_key (next_nonce c) = cs_key c" "cs_nonce (next_nonce c) = cs_nonce c + 1"
  by (simp_all add: next_nonce_def)

lemma write_all_Inr: "write_all bs s = (s', Inr x) \<Longrightarrow> outbox s' = outbox s @ bs"
  by (auto simp: write_all_def split: list.split_asm option.split_asm)

lemma flush_Inr: "flush s = (s', Inr x) \<Longrightarrow> outbox s' = outbox s"
  by (auto simp: flush_def split: list.split_asm option.split_asm)

lemma write_to_Inr: "write_to f s = (s', Inr x) \<Longrightarrow> outbox s' = outbox s @ serialize f"
  by (auto simp: write_to_def bindA_eq_Inr dest!: write_all_Inr flush_Inr)

lemma count_Inr:
  "count_rx prof n s = (s', Inr x) \<Longrightarrow>
     outbox (s_net s') = outbox (s_net s) \<and> s_rx s' = s_rx s \<and> s_tx s' = s_tx s \<and> s_replay s' = s_replay s"
  "count_tx prof n s = (s', Inr x) \<Longrightarrow>
     outbox (s_net s') = outbox (s_net s) \<and> s_rx s' = s_rx s \<and> s_tx s' = s_tx s \<and> s_replay s' = s_replay s"
  using instant_now_total [of "s_net s"]
  by (auto simp: count_rx_def count_tx_def bindA_eq_Inr onA_def split: prod.splits)

lemma validate_Inr:
  assumes "window_ok r" "validate_and_record prof n r = (r', Inr x)"
  shows "r' = after_call r n \<and> verdict r n = None"
  using validate_cases [OF assms] by (auto split: option.splits)

lemma next_seq_accepted:
  assumes "window_ok r" "initialized r" "verdict r (last_seq r + 1) = None"
  shows "last_seq r < last_seq r + 1"
proof (rule ccontr)
  assume "\<not> last_seq r < last_seq r + 1"
  then have "unat (last_seq r) + 1 \<ge> 2 ^ 64"
    using unat_suc_u64 [of "last_seq r"] by (fastforce simp: word_less_nat_alt)
  then have "last_seq r = - 1"
    using unat_u64 [of "last_seq r"] by (simp add: u64_eq_max_iff flip: u64_max_def)
  then show False
    using assms by (simp add: verdict_def)
qed

lemma in_step_accept:
  assumes "in_step s" "verdict (s_replay s) (cs_nonce (s_rx s)) = None"
    and "s_replay s' = after_call (s_replay s) (cs_nonce (s_rx s))" "s_rx s' = next_nonce (s_rx s)"
  shows "in_step s'"
proof -
  have "window_ok (s_replay s')" using assms by (simp add: in_step_def)
  moreover have "initialized (s_replay s')" "last_seq (s_replay s') = cs_nonce (s_rx s)"
    using assms next_seq_accepted [of "s_replay s"]
    by (auto simp: in_step_def after_call_def slide_def Let_def split: if_splits)
  ultimately show ?thesis using assms(4) by (simp add: in_step_def)
qed

lemma serve_data_Inr:
  assumes "serve_frame P prof f s = (s', Inr x)" "wf_msg_type f = DataPayload" "in_step s"
  obtains m g where "x = Continue" "carries P (s_rx s) f (Said m)" "s_rx s' = next_nonce (s_rx s)"
    "seals P (s_tx s) (answer_item (Said m)) g" "s_tx s' = next_nonce (s_tx s)"
    "outbox (s_net s') = outbox (s_net s) @ serialize g" "in_step s'"
proof -
  have w: "window_ok (s_replay s)" using assms(3) by (simp add: in_step_def)
  show thesis
    using assms(1,2)
    by (auto simp: serve_frame_def Let_def act_Inr current_nonce_def
        encrypt_Inr decrypt_Inr carries_def seals_def next_nonce_def
        dest!: validate_Inr [OF w] count_Inr write_to_Inr
        intro!: that in_step_accept [OF assms(3)])
qed

lemma serve_heartbeat_Inr:
  assumes "serve_frame P prof f s = (s', Inr x)" "wf_msg_type f = Heartbeat" "in_step s"
  obtains m g where "x = Continue" "carries P (s_rx s) f (Pinged m)" "s_rx s' = next_nonce (s_rx s)"
    "seals P (s_tx s) (answer_item (Pinged m)) g" "s_tx s' = next_nonce (s_tx s)"
    "outbox (s_net s') = outbox (s_net s) @ serialize g" "in_step s'"
proof -
  have w: "window_ok (s_replay s)" using assms(3) by (simp add: in_step_def)
  show thesis
    using assms(1,2)
    by (auto simp: serve_frame_def Let_def act_Inr current_nonce_def heartbeat_frame_def
        encrypt_Inr decrypt_Inr carries_def seals_def next_nonce_def
        dest!: validate_Inr [OF w] count_Inr write_to_Inr
        intro!: that in_step_accept [OF assms(3)])
qed

lemma serve_frame_Inr:
  assumes "serve_frame P prof f s = (s', Inr x)" "in_step s"
  obtains (ignored) "x = Continue" "s' = s" "is_handshake f"
  | (closed) "x = Break" "s' = s" "wf_msg_type f = Close"
  | (answered) e g where "x = Continue" "carries P (s_rx s) f e" "s_rx s' = next_nonce (s_rx s)"
    "seals P (s_tx s) (answer_item e) g" "s_tx s' = next_nonce (s_tx s)"
    "outbox (s_net s') = outbox (s_net s) @ serialize g" "in_step s'"
proof (cases "wf_msg_type f")
  case DataPayload
  then show thesis using serve_data_Inr [OF assms(1) _ assms(2)] answered by metis
next
  case Heartbeat
  then show thesis using serve_heartbeat_Inr [OF assms(1) _ assms(2)] answered by metis
qed (use assms(1) ignored closed in
      \<open>auto simp: serve_frame_def simple_Inr is_handshake_def mt_is_handshake_def\<close>)

lemma transport_step_Inr:
  assumes "transport_step P prof s = (s', Inr x)" "in_step s"
  obtains (broken) n e where "x = Break" "read_from (s_net s) = (n, Inl (Err e))" "s' = s\<lparr>s_net := n\<rparr>"
  | (turn) n f s1 where "read_from (s_net s) = (n, Inr f)"
    "count_rx prof (payload_len f + 13) (s\<lparr>s_net := n\<rparr>) = (s1, Inr ())"
    "serve_frame P prof f s1 = (s', Inr x)" "in_step s1" "s_rx s1 = s_rx s" "s_tx s1 = s_tx s"
    "outbox (s_net s1) = outbox (s_net s)" "inbox (s_net s') = inbox n"
proof -
  obtain n r where r: "read_from (s_net s) = (n, r)" by fastforce
  have out: "outbox n = outbox (s_net s)"
    using read_from_only_inbox [of "s_net s"] r
    by (metis fst_conv net.select_convs(2) net.surjective net.update_convs(1))
  show thesis
  proof (cases r)
    case (Inl e)
    then show thesis
      using assms(1) r broken by (cases e) (auto simp: transport_step_def onA_def)
  next
    case (Inr f)
    then have "bindA (count_rx prof (payload_len f + 13)) (\<lambda>_. serve_frame P prof f) (s\<lparr>s_net := n\<rparr>) =
        (s', Inr x)"
      using assms(1) r by (simp add: transport_step_def onA_def)
    then obtain s1 where s1: "count_rx prof (payload_len f + 13) (s\<lparr>s_net := n\<rparr>) = (s1, Inr ())"
        "serve_frame P prof f s1 = (s', Inr x)"
      by (auto simp: bindA_eq_Inr)
    moreover have "inbox (s_net s1) = inbox n" "inbox (s_net s') = inbox (s_net s1)"
      using keeps_inbox_count(1) [of prof "payload_len f + 13"] keeps_inbox_serve [of P prof f] s1
      unfolding keeps_inbox_def by (metis fst_conv session.select_convs(1) session.surjective
          session.update_convs(1))+
    ultimately show thesis
      using turn r Inr count_Inr(1) [OF s1(1)] assms(2) out by (simp add: in_step_def)
  qed
qed

section \<open>The contract of a session\<close>

text \<open>
  What a session promises, without frames on a wire, filter, metrics or faults: from the
  two ciphers, a list of frames is consumed, the events they carry are accepted in the
  order of the receiving counter, and each is answered by one frame sealed with the sending
  counter. Handshake frames are skipped.
\<close>

inductive session_spec ::
  "primitives \<Rightarrow> cipher_state \<Rightarrow> cipher_state \<Rightarrow> wire_frame list \<Rightarrow> event list \<Rightarrow> wire_frame list \<Rightarrow>
   cipher_state \<Rightarrow> cipher_state \<Rightarrow> bool"
  for P where
  spec_done: "session_spec P rx tx [] [] [] rx tx"
| spec_skip: "is_handshake f \<Longrightarrow> session_spec P rx tx fs es gs rx' tx' \<Longrightarrow>
    session_spec P rx tx (f # fs) es gs rx' tx'"
| spec_answer: "carries P rx f e \<Longrightarrow> seals P tx (answer_item e) g \<Longrightarrow>
    session_spec P (next_nonce rx) (next_nonce tx) fs es gs rx' tx' \<Longrightarrow>
    session_spec P rx tx (f # fs) (e # es) (g # gs) rx' tx'"

inductive_cases session_spec_NilE: "session_spec P rx tx [] es gs rx' tx'"
inductive_cases session_spec_ConsE: "session_spec P rx tx (f # fs) es gs rx' tx'"

inductive_simps session_spec_simps:
  "session_spec P rx tx [] es gs rx' tx'"
  "session_spec P rx tx (f # fs) es gs rx' tx'"

definition reached ::
  "primitives \<Rightarrow> session \<Rightarrow> wire_frame list \<Rightarrow> event list \<Rightarrow> wire_frame list \<Rightarrow> session \<Rightarrow> bool" where
  "reached P s fs es gs s' \<longleftrightarrow>
     session_spec P (s_rx s) (s_tx s) fs es gs (s_rx s') (s_tx s') \<and> list_all valid_frame fs \<and>
     inbox (s_net s) = concat (map serialize fs) @ inbox (s_net s') \<and>
     outbox (s_net s') = outbox (s_net s) @ concat (map serialize gs) \<and> in_step s'"

lemma reached_refl: "in_step s \<Longrightarrow> reached P s [] [] [] s"
  by (simp add: reached_def spec_done)

lemma reached_step:
  assumes "transport_step P prof s = (s1, Inr Continue)" "in_step s" "reached P s1 fs es gs s2"
  shows "\<exists>fs es gs. reached P s fs es gs s2"
  using assms(1,2)
proof (cases rule: transport_step_Inr)
  case (turn n f s0)
  have inb: "inbox (s_net s) = serialize f @ inbox (s_net s1)" "valid_frame f"
    using turn(1,8) by (simp_all add: read_from_Inr)
  show ?thesis
    using turn(3,4)
  proof (cases rule: serve_frame_Inr)
    case ignored
    then have "reached P s (f # fs) es gs s2"
      using assms(3) turn inb by (auto simp: reached_def intro: spec_skip)
    then show ?thesis by blast
  next
    case (answered e g)
    then have "reached P s (f # fs) (e # es) (g # gs) s2"
      using assms(3) turn inb by (auto simp: reached_def intro: spec_answer)
    then show ?thesis by blast
  qed simp
qed simp

lemma transport_step_in_step:
  assumes "transport_step P prof s = (s1, Inr Continue)" "in_step s"
  shows "in_step s1"
  using assms
proof (cases rule: transport_step_Inr)
  case (turn n f s0)
  then show ?thesis by (cases rule: serve_frame_Inr [OF turn(3,4)]) simp_all
qed simp

lemma loop_runs:
  assumes "in_step s" "transport_loop P prof s = (s', r)"
  shows "\<exists>fs es gs s1. reached P s fs es gs s1 \<and>
    transport_step P prof s1 = (s', map_sum id (\<lambda>_. Break) r)"
  using assms
proof (induction P prof s rule: transport_loop.induct)
  case (1 P prof s)
  obtain s1 x where st: "transport_step P prof s = (s1, x)" by fastforce
  show ?case
  proof (cases "x = Inr Continue")
    case True
    then have "transport_loop P prof s1 = (s', r)"
      using 1(3) st by (subst (asm) transport_loop.simps) simp
    with 1(1) [OF st [symmetric] True refl] transport_step_in_step st True 1(2)
    obtain fs es gs s2 where "reached P s1 fs es gs s2"
        "transport_step P prof s2 = (s', map_sum id (\<lambda>_. Break) r)"
      by blast
    then show ?thesis
      using reached_step st True 1(2) by metis
  next
    case False
    then have "s' = s1 \<and> x = map_sum id (\<lambda>_. Break) r"
      using 1(3) st by (subst (asm) transport_loop.simps) (auto split: sum.splits flow.splits)
    then show ?thesis
      using reached_refl [OF 1(2)] st by blast
  qed
qed

lemma seals_unique: "seals P c x g \<Longrightarrow> seals P c x g' \<Longrightarrow> g' = g"
  by (auto simp: seals_def split: prod.splits)

lemma carries_unique: "carries P c f e \<Longrightarrow> carries P c f e' \<Longrightarrow> e' = e"
  by (cases e; cases e') (auto simp: carries_def)

lemma carries_not_handshake: "carries P c f e \<Longrightarrow> \<not> is_handshake f"
  by (cases e) (auto simp: carries_def is_handshake_def mt_is_handshake_def)

text \<open>The consumed frames determine the accepted events, the answers and the ciphers.\<close>

lemma spec_deterministic:
  "session_spec P rx tx fs es gs rx' tx' \<Longrightarrow> session_spec P rx tx fs es2 gs2 rx2 tx2 \<Longrightarrow>
   es2 = es \<and> gs2 = gs \<and> rx2 = rx' \<and> tx2 = tx'"
proof (induction arbitrary: es2 gs2 rx2 tx2 rule: session_spec.induct)
  case (spec_done rx tx)
  then show ?case by (elim session_spec_NilE) simp
next
  case (spec_skip f rx tx fs es gs rx' tx')
  from spec_skip.prems show ?case
    by (cases rule: session_spec_ConsE) (use spec_skip carries_not_handshake in blast)+
next
  case (spec_answer rx f e tx g fs es gs rx' tx')
  note old = spec_answer.hyps(1,2) spec_answer.IH
  from spec_answer.prems show ?case
  proof cases
    case spec_skip
    with carries_not_handshake [OF old(1)] show ?thesis by simp
  next
    case (spec_answer e' g' es' gs')
    have "e' = e" by (rule carries_unique [OF old(1)]) fact
    moreover from this have "g' = g" using seals_unique old(2) spec_answer by blast
    ultimately show ?thesis using old(3) spec_answer by blast
  qed
qed

lemma spec_nonces:
  "session_spec P rx tx fs es gs rx' tx' \<Longrightarrow>
   cs_key rx' = cs_key rx \<and> cs_key tx' = cs_key tx \<and> length gs = length es \<and>
   unat (cs_nonce tx) + length gs < 2 ^ 64 \<and>
   map (unat \<circ> wf_nonce) gs = [unat (cs_nonce tx) ..< unat (cs_nonce tx) + length gs] \<and>
   map wf_nonce (filter (\<lambda>f. \<not> is_handshake f) fs) =
     map (\<lambda>i. cs_nonce rx + word_of_nat i) [0 ..< length es]"
proof (induction rule: session_spec.induct)
  case (spec_done rx tx)
  then show ?case using unat_u64 [of "cs_nonce tx"] by simp
next
  case (spec_answer rx f e tx g fs es gs rx' tx')
  have "\<not> is_handshake f" "wf_nonce f = cs_nonce rx"
    using spec_answer(1) by (cases e; simp add: carries_def is_handshake_def mt_is_handshake_def)+
  moreover have "wf_nonce g = cs_nonce tx" "unat (cs_nonce tx) + 1 < 2 ^ 64"
    using spec_answer(2) by (auto simp: seals_def new_frame_def split: prod.splits)
  moreover have "map h [Suc 0 ..< Suc n] = map (\<lambda>i. h (Suc i)) [0 ..< n]" for h :: "nat \<Rightarrow> u64" and n
    unfolding map_Suc_upt [symmetric] by simp
  moreover have "unat (1 + cs_nonce tx) = Suc (unat (cs_nonce tx))"
    using unat_suc_u64 [OF calculation(4)] by (simp add: add.commute)
  ultimately show ?case
    using spec_answer.IH
    by (simp add: comp_def upt_conv_Cons ac_simps del: upt_Suc)
qed simp_all

lemma start_session_simps [simp]:
  "s_net (start_session n rx tx now) = n" "s_rx (start_session n rx tx now) = rx"
  "s_tx (start_session n rx tx now) = tx" "s_replay (start_session n rx tx now) = new_filter"
  "s_metrics (start_session n rx tx now) = metrics_new now"
  by (simp_all add: start_session_def)

lemma in_step_start [simp]: "in_step (start_session n (cipher_new k) tx now)"
  by (simp add: in_step_def new_filter_def cipher_new_def)
    (simp add: with_window_size_def)

section \<open>A turn of an honest client\<close>

definition rx_room :: "nat \<Rightarrow> session_metrics \<Rightarrow> bool" where
  "rx_room k m \<longleftrightarrow> unat (bytes_received m) + k * 2 ^ 18 < 2 ^ 63 \<and> unat (frames_received m) + k < 2 ^ 64"

definition tx_room :: "nat \<Rightarrow> session_metrics \<Rightarrow> bool" where
  "tx_room k m \<longleftrightarrow> unat (bytes_sent m) + k * 2 ^ 18 < 2 ^ 63 \<and> unat (frames_sent m) + k < 2 ^ 64"

text \<open>The sum of both directions fits, so the closing log line does not panic.\<close>

definition totals_fit :: "session_metrics \<Rightarrow> bool" where
  "totals_fit m \<longleftrightarrow> unat (bytes_sent m) + unat (bytes_received m) < 2 ^ 64"

lemma room_totals_fit: "rx_room i m \<Longrightarrow> tx_room j m \<Longrightarrow> totals_fit m"
  by (simp add: rx_room_def tx_room_def totals_fit_def)

lemma log_session_ok:
  assumes "totals_fit (s_metrics s)"
  obtains n where "log_session prof s = (s\<lparr>s_net := n\<rparr>, Inr ())" "inbox n = inbox (s_net s)"
    "outbox n = outbox (s_net s)"
proof -
  have "total_bytes prof (s_metrics s) = Some (bytes_sent (s_metrics s) + bytes_received (s_metrics s))"
    using assms by (simp add: total_bytes_def totals_fit_def u64_add_def)
  then show thesis
    using instant_now_total [of "s_net s"] that by (auto simp: log_session_def act_simps bindA_case onA_def)
qed

text \<open>Whatever the log line does, it reads and writes nothing on the connection.\<close>

lemma log_session_net:
  "inbox (s_net (fst (log_session prof s))) = inbox (s_net s)"
  "outbox (s_net (fst (log_session prof s))) = outbox (s_net s)"
  using instant_now_total [of "s_net s"]
  by (auto simp: log_session_def bindA_case getsA_def arithA_def onA_def ret_def split: option.split)

definition room :: "nat \<Rightarrow> session \<Rightarrow> bool" where
  "room k s \<longleftrightarrow> in_step s \<and> counters_ok (s_replay s) \<and> write_faults (s_net s) = [] \<and>
     (initialized (s_replay s) \<longrightarrow> cs_nonce (s_rx s) \<noteq> 0) \<and>
     unat (total_seen (s_replay s)) + k < 2 ^ 64 \<and>
     unat (cs_nonce (s_rx s)) + k < 2 ^ 64 \<and> unat (cs_nonce (s_tx s)) + k < 2 ^ 64 \<and>
     rx_room (Suc k) (s_metrics s) \<and> tx_room k (s_metrics s)"

lemma count_rx_ok:
  assumes "rx_room (Suc k) (s_metrics s)" "n \<le> 2 ^ 18"
  obtains s1 where "count_rx prof n s = (s1, Inr ())" "rx_room k (s_metrics s1)"
    "\<And>j. tx_room j (s_metrics s1) = tx_room j (s_metrics s)"
    "frames_received (s_metrics s1) = frames_received (s_metrics s) + 1"
    "frames_sent (s_metrics s1) = frames_sent (s_metrics s)"
    "inbox (s_net s1) = inbox (s_net s)" "outbox (s_net s1) = outbox (s_net s)"
    "write_faults (s_net s1) = write_faults (s_net s)"
    "s_rx s1 = s_rx s" "s_tx s1 = s_tx s" "s_replay s1 = s_replay s"
proof -
  obtain n' t where t: "instant_now (s_net s) = (n', Inr t)" "inbox n' = inbox (s_net s)"
      "outbox n' = outbox (s_net s)" "write_faults n' = write_faults (s_net s)"
    using instant_now_total [of "s_net s"] by blast
  have len: "unat (word_of_nat n :: u64) = n" using assms(2) by (simp add: unat_of_nat)
  let ?m = "s_metrics s"
  let ?m' = "?m\<lparr>bytes_received := bytes_received ?m + word_of_nat n,
      frames_received := frames_received ?m + 1, last_activity := t\<rparr>"
  have fit: "unat (bytes_received ?m) + unat (word_of_nat n :: u64) < 2 ^ 64"
      "unat (frames_received ?m) + 1 < 2 ^ 64"
    using assms by (auto simp: rx_room_def len)
  then have "record_rx prof n t ?m = (?m', Inr ())"
    by (simp add: record_Inr)
  then have "count_rx prof n s = (s\<lparr>s_net := n', s_metrics := ?m'\<rparr>, Inr ())"
    using t by (simp add: count_rx_def bindA_case onA_def)
  moreover have "rx_room k ?m'"
    using assms fit by (auto simp: rx_room_def unat_plus_u64 unat_suc_u64 len)
  ultimately show thesis
    using that [of "s\<lparr>s_net := n', s_metrics := ?m'\<rparr>"] t by (simp add: tx_room_def)
qed

lemma count_tx_ok:
  assumes "tx_room (Suc k) (s_metrics s)" "n \<le> 2 ^ 18"
  obtains s1 where "count_tx prof n s = (s1, Inr ())" "tx_room k (s_metrics s1)"
    "\<And>j. rx_room j (s_metrics s1) = rx_room j (s_metrics s)"
    "frames_sent (s_metrics s1) = frames_sent (s_metrics s) + 1"
    "frames_received (s_metrics s1) = frames_received (s_metrics s)"
    "inbox (s_net s1) = inbox (s_net s)" "outbox (s_net s1) = outbox (s_net s)"
    "write_faults (s_net s1) = write_faults (s_net s)"
    "s_rx s1 = s_rx s" "s_tx s1 = s_tx s" "s_replay s1 = s_replay s"
proof -
  obtain n' t where t: "instant_now (s_net s) = (n', Inr t)" "inbox n' = inbox (s_net s)"
      "outbox n' = outbox (s_net s)" "write_faults n' = write_faults (s_net s)"
    using instant_now_total [of "s_net s"] by blast
  have len: "unat (word_of_nat n :: u64) = n" using assms(2) by (simp add: unat_of_nat)
  let ?m = "s_metrics s"
  let ?m' = "?m\<lparr>bytes_sent := bytes_sent ?m + word_of_nat n,
      frames_sent := frames_sent ?m + 1, last_activity := t\<rparr>"
  have fit: "unat (bytes_sent ?m) + unat (word_of_nat n :: u64) < 2 ^ 64"
      "unat (frames_sent ?m) + 1 < 2 ^ 64"
    using assms by (auto simp: tx_room_def len)
  then have "record_tx prof n t ?m = (?m', Inr ())"
    by (simp add: record_Inr)
  then have "count_tx prof n s = (s\<lparr>s_net := n', s_metrics := ?m'\<rparr>, Inr ())"
    using t by (simp add: count_tx_def bindA_case onA_def)
  moreover have "tx_room k ?m'"
    using assms fit by (auto simp: tx_room_def unat_plus_u64 unat_suc_u64 len)
  ultimately show thesis
    using that [of "s\<lparr>s_net := n', s_metrics := ?m'\<rparr>"] t by (simp add: rx_room_def)
qed

text \<open>The common tail of both answers: encrypt, count, write.\<close>

lemma answer_ok:
  assumes P: "session_primitives P" and len: "length m \<le> 200000"
    and tx: "tx_room (Suc k) (s_metrics s)" "unat (cs_nonce (s_tx s)) + 1 < 2 ^ 64"
    and faults: "write_faults (s_net s) = []"
  obtains s' g where "seals P (s_tx s) (t, a, m) g"
    "bindA (getsA (\<lambda>s. current_nonce (s_tx s))) (\<lambda>n.
     bindA (onA s_tx s_tx_update (encrypt P m a)) (\<lambda>ct.
     bindA (count_tx prof (payload_len (new_frame t n ct) + 13)) (\<lambda>_.
     bindA (onA s_net s_net_update (write_to (new_frame t n ct))) (\<lambda>_. ret Continue)))) s =
       (s', Inr Continue)"
    "s_rx s' = s_rx s" "s_tx s' = next_nonce (s_tx s)" "s_replay s' = s_replay s"
    "inbox (s_net s') = inbox (s_net s)" "write_faults (s_net s') = []"
    "outbox (s_net s') = outbox (s_net s) @ serialize g"
    "tx_room k (s_metrics s')" "\<And>j. rx_room j (s_metrics s') = rx_room j (s_metrics s)"
    "frames_sent (s_metrics s') = frames_sent (s_metrics s) + 1"
    "frames_received (s_metrics s') = frames_received (s_metrics s)"
proof -
  have short: "length m < aead_limit" using len by (simp add: aead_limit_def)
  obtain ct where ct: "encrypt P m a (s_tx s) = (next_nonce (s_tx s), Inr ct)"
      "p_seal P (cs_key (s_tx s)) (build_nonce (cs_nonce (s_tx s))) a m = Some ct"
      "length ct = length m + 16"
    using encrypt_ok [OF session_primitivesD(4,5) [OF P] short tx(2)] unfolding next_nonce_def by metis
  define g where "g = new_frame t (cs_nonce (s_tx s)) ct"
  have size: "payload_len g + 13 \<le> 2 ^ 18"
    using len ct(3) by (simp add: g_def payload_len_def new_frame_def)
  obtain s1 where s1: "count_tx prof (payload_len g + 13) (s\<lparr>s_tx := next_nonce (s_tx s)\<rparr>) = (s1, Inr ())"
    and eff: "tx_room k (s_metrics s1)" "\<And>j. rx_room j (s_metrics s1) = rx_room j (s_metrics s)"
      "frames_sent (s_metrics s1) = frames_sent (s_metrics s) + 1"
      "frames_received (s_metrics s1) = frames_received (s_metrics s)"
      "inbox (s_net s1) = inbox (s_net s)" "outbox (s_net s1) = outbox (s_net s)"
      "write_faults (s_net s1) = []"
      "s_rx s1 = s_rx s" "s_tx s1 = next_nonce (s_tx s)" "s_replay s1 = s_replay s"
    by (rule count_tx_ok [of k "s\<lparr>s_tx := next_nonce (s_tx s)\<rparr>" _ prof, OF _ size])
      (use tx faults in auto)
  show thesis
  proof (rule that)
    show "seals P (s_tx s) (t, a, m) g"
      using ct tx(2) by (simp add: seals_def g_def)
    show "bindA (getsA (\<lambda>s. current_nonce (s_tx s))) (\<lambda>n.
       bindA (onA s_tx s_tx_update (encrypt P m a)) (\<lambda>ct.
       bindA (count_tx prof (payload_len (new_frame t n ct) + 13)) (\<lambda>_.
       bindA (onA s_net s_net_update (write_to (new_frame t n ct))) (\<lambda>_. ret Continue)))) s =
       (s1\<lparr>s_net := (s_net s1)\<lparr>outbox := outbox (s_net s1) @ serialize g\<rparr>\<rparr>, Inr Continue)"
      using s1 write_to_clean [OF eff(7), of g]
      by (simp add: bindA_case getsA_def onA_def ct current_nonce_def ret_def flip: g_def)
  qed (use eff in simp_all)
qed

lemma verdict_expected:
  assumes "in_step s" "initialized (s_replay s) \<longrightarrow> cs_nonce (s_rx s) \<noteq> 0"
  shows "verdict (s_replay s) (cs_nonce (s_rx s)) = None"
proof (cases "initialized (s_replay s)")
  case True
  with assms have "cs_nonce (s_rx s) = last_seq (s_replay s) + 1" "last_seq (s_replay s) + 1 \<noteq> 0"
    by (auto simp: in_step_def)
  moreover have "unat (last_seq (s_replay s)) + 1 < 2 ^ 64"
  proof (rule ccontr)
    assume "\<not> unat (last_seq (s_replay s)) + 1 < 2 ^ 64"
    then have "last_seq (s_replay s) = u64_max"
      using unat_u64 [of "last_seq (s_replay s)"] by (simp add: u64_eq_max_iff)
    with calculation show False by (simp add: u64_max_def)
  qed
  ultimately have "last_seq (s_replay s) < cs_nonce (s_rx s)"
    by (simp add: word_less_nat_alt unat_suc_u64)
  then show ?thesis by (simp add: verdict_def)
qed (simp add: verdict_def)

fun event_text :: "event \<Rightarrow> bytes" where
  "event_text (Said m) = m"
| "event_text (Pinged m) = m"

lemma answer_short:
  assumes "length (event_text e) \<le> 65511"
  shows "length (snd (snd (answer_item e))) \<le> 200000"
proof (cases e)
  case (Said m)
  with assms length_lossy [of m] show ?thesis
    by (simp add: REPLY_PREFIX_def bytes_of_def)
qed (simp add: PONG_def bytes_of_def)

lemma serve_ok:
  assumes P: "session_primitives P"
    and s: "in_step s" "counters_ok (s_replay s)" "write_faults (s_net s) = []"
      "initialized (s_replay s) \<longrightarrow> cs_nonce (s_rx s) \<noteq> 0"
      "unat (total_seen (s_replay s)) + 1 < 2 ^ 64"
      "unat (cs_nonce (s_rx s)) + 1 < 2 ^ 64" "unat (cs_nonce (s_tx s)) + 1 < 2 ^ 64"
      "tx_room (Suc k) (s_metrics s)"
    and f: "carries P (s_rx s) f e" "length (event_text e) \<le> 65511"
  obtains s' g where "serve_frame P prof f s = (s', Inr Continue)"
    "seals P (s_tx s) (answer_item e) g" "s_rx s' = next_nonce (s_rx s)" "s_tx s' = next_nonce (s_tx s)"
    "s_replay s' = after_call (s_replay s) (cs_nonce (s_rx s))"
    "inbox (s_net s') = inbox (s_net s)" "write_faults (s_net s') = []"
    "outbox (s_net s') = outbox (s_net s) @ serialize g"
    "tx_room k (s_metrics s')" "\<And>j. rx_room j (s_metrics s') = rx_room j (s_metrics s)"
    "frames_sent (s_metrics s') = frames_sent (s_metrics s) + 1"
    "frames_received (s_metrics s') = frames_received (s_metrics s)"
proof -
  let ?n = "cs_nonce (s_rx s)"
  obtain t a m where req: "request_item e = (t, a, m)" by (cases "request_item e") auto
  have frame: "wf_msg_type f = t" "wf_nonce f = ?n"
      "p_open P (cs_key (s_rx s)) (build_nonce ?n) a (wf_payload f) = Some m"
    using f(1) req by (simp_all add: carries_def)
  have valid: "validate_and_record prof ?n (s_replay s) = (after_call (s_replay s) ?n, Inr ())"
    using validate_no_overflow [of "s_replay s" prof ?n] verdict_expected [OF s(1,4)] s by (simp add: in_step_def)
  have dec: "decrypt P prof (wf_payload f) a ?n (s_rx s) = (next_nonce (s_rx s), Inr m)"
    using decrypt_ok [OF frame(3) s(6)] by (simp add: next_nonce_def)
  define s2 where "s2 = s\<lparr>s_replay := after_call (s_replay s) ?n, s_rx := next_nonce (s_rx s)\<rparr>"
  obtain t' a' m' where ans: "answer_item e = (t', a', m')" by (cases "answer_item e") auto
  have len: "length m' \<le> 200000" using answer_short [OF f(2)] ans by simp
  obtain s' g where tail: "seals P (s_tx s2) (t', a', m') g"
      "bindA (getsA (\<lambda>s. current_nonce (s_tx s))) (\<lambda>n.
       bindA (onA s_tx s_tx_update (encrypt P m' a')) (\<lambda>ct.
       bindA (count_tx prof (payload_len (new_frame t' n ct) + 13)) (\<lambda>_.
       bindA (onA s_net s_net_update (write_to (new_frame t' n ct))) (\<lambda>_. ret Continue)))) s2 =
         (s', Inr Continue)"
    and eff: "s_rx s' = s_rx s2" "s_tx s' = next_nonce (s_tx s2)" "s_replay s' = s_replay s2"
      "inbox (s_net s') = inbox (s_net s2)" "write_faults (s_net s') = []"
      "outbox (s_net s') = outbox (s_net s2) @ serialize g"
      "tx_room k (s_metrics s')" "\<And>j. rx_room j (s_metrics s') = rx_room j (s_metrics s2)"
      "frames_sent (s_metrics s') = frames_sent (s_metrics s2) + 1"
      "frames_received (s_metrics s') = frames_received (s_metrics s2)"
    by (rule answer_ok [OF P len, where k = k and s = s2 and t = t' and a = a' and prof = prof]) (use s in \<open>simp_all add: s2_def\<close>)
  have v1: "bindA (onA s_replay s_replay_update (validate_and_record prof (wf_nonce f))) c s =
      c () (s\<lparr>s_replay := after_call (s_replay s) ?n\<rparr>)" for c :: "unit \<Rightarrow> (session, flow) act"
    by (simp add: bindA_case onA_def frame(2) valid)
  have v2: "bindA (onA s_rx s_rx_update (decrypt P prof (wf_payload f) a (wf_nonce f))) c
      (s\<lparr>s_replay := after_call (s_replay s) ?n\<rparr>) = c m s2" for c :: "bytes \<Rightarrow> (session, flow) act"
    by (simp add: bindA_case onA_def frame(2) dec s2_def)
  have "serve_frame P prof f s = (s', Inr Continue)"
  proof (cases e)
    case (Said x)
    then have eqs: "t = DataPayload" "a = DATA_AAD" "t' = DataPayload" "a' = DATA_AAD"
        "m' = REPLY_PREFIX @ from_utf8_lossy m"
      using req ans by auto
    show ?thesis
      using tail(2) by (simp add: serve_frame_def Let_def frame(1) eqs v1
          v2 [unfolded eqs])
  next
    case (Pinged x)
    then have eqs: "t = Heartbeat" "a = HEARTBEAT_AAD" "t' = Heartbeat" "a' = HEARTBEAT_AAD" "m' = PONG"
      using req ans by auto
    show ?thesis
      using tail(2) by (simp add: serve_frame_def Let_def frame(1) eqs v1
          v2 [unfolded eqs] heartbeat_frame_def)
  qed
  then show thesis
    using that tail(1) eff ans by (simp add: s2_def)
qed

lemma room_turn:
  assumes P: "session_primitives P" and s: "room (Suc k) s"
    and f: "inbox (s_net s) = serialize f @ rest" "valid_frame f"
      "carries P (s_rx s) f e" "length (event_text e) \<le> 65511"
  obtains s' g where "transport_step P prof s = (s', Inr Continue)" "room k s'"
    "seals P (s_tx s) (answer_item e) g" "s_rx s' = next_nonce (s_rx s)" "s_tx s' = next_nonce (s_tx s)"
    "inbox (s_net s') = rest" "outbox (s_net s') = outbox (s_net s) @ serialize g"
    "frames_sent (s_metrics s') = frames_sent (s_metrics s) + 1"
    "frames_received (s_metrics s') = frames_received (s_metrics s) + 1"
    "s_replay s' = after_call (s_replay s) (cs_nonce (s_rx s))"
proof -
  note room = s [unfolded room_def]
  have read: "read_from (s_net s) = ((s_net s)\<lparr>inbox := rest\<rparr>, Inr f)"
    by (rule read_from_serialize [OF f(2,1)])
  have size: "payload_len f + 13 \<le> 2 ^ 18" using f(2) by (simp add: valid_frame_le payload_len_def)
  obtain s1 where s1: "count_rx prof (payload_len f + 13) (s\<lparr>s_net := (s_net s)\<lparr>inbox := rest\<rparr>\<rparr>) = (s1, Inr ())"
    and e1: "rx_room (Suc k) (s_metrics s1)" "\<And>j. tx_room j (s_metrics s1) = tx_room j (s_metrics s)"
      "frames_received (s_metrics s1) = frames_received (s_metrics s) + 1"
      "frames_sent (s_metrics s1) = frames_sent (s_metrics s)"
      "inbox (s_net s1) = rest" "outbox (s_net s1) = outbox (s_net s)"
      "write_faults (s_net s1) = []"
      "s_rx s1 = s_rx s" "s_tx s1 = s_tx s" "s_replay s1 = s_replay s"
    by (rule count_rx_ok [of "Suc k" "s\<lparr>s_net := (s_net s)\<lparr>inbox := rest\<rparr>\<rparr>" _ prof, OF _ size])
      (use room in auto)
  have step1: "in_step s1" using room e1 by (simp add: in_step_def)
  obtain s' g where serve: "serve_frame P prof f s1 = (s', Inr Continue)"
    and eff: "seals P (s_tx s1) (answer_item e) g" "s_rx s' = next_nonce (s_rx s1)"
      "s_tx s' = next_nonce (s_tx s1)"
      "s_replay s' = after_call (s_replay s1) (cs_nonce (s_rx s1))"
      "inbox (s_net s') = inbox (s_net s1)" "write_faults (s_net s') = []"
      "outbox (s_net s') = outbox (s_net s1) @ serialize g"
      "tx_room k (s_metrics s')" "\<And>j. rx_room j (s_metrics s') = rx_room j (s_metrics s1)"
      "frames_sent (s_metrics s') = frames_sent (s_metrics s1) + 1"
      "frames_received (s_metrics s') = frames_received (s_metrics s1)"
    by (rule serve_ok [OF P, of s1 k f e prof]) (use room e1 f step1 in simp_all)
  have nn: "unat (cs_nonce (s_rx s) + 1) = unat (cs_nonce (s_rx s)) + 1"
      "unat (cs_nonce (s_tx s) + 1) = unat (cs_nonce (s_tx s)) + 1"
    using room by (simp_all add: unat_suc_u64)
  have "in_step s'"
    using in_step_accept [of s1 s'] verdict_expected [OF step1] step1 room e1 eff by simp
  moreover have "counters_ok (s_replay s') \<and> unat (total_seen (s_replay s')) = unat (total_seen (s_replay s)) + 1"
    using after_call_counters [of "s_replay s" "cs_nonce (s_rx s)"] room eff(4) e1 by simp
  moreover have "cs_nonce (s_rx s') \<noteq> 0"
    using nn eff(2) e1 by (auto dest: arg_cong [where f = unat])
  ultimately have "room k s'"
    using room eff e1 nn by (simp add: room_def)
  moreover have "transport_step P prof s = (s', Inr Continue)"
    using read s1 serve by (simp add: transport_step_def onA_def bindA_Inr)
  ultimately show thesis
    using that eff e1 by simp
qed

section \<open>Whole sessions\<close>

text \<open>The frames that seal a list of items one after the other.\<close>

fun sealed :: "primitives \<Rightarrow> cipher_state \<Rightarrow> item list \<Rightarrow> wire_frame list \<Rightarrow> bool" where
  "sealed P c [] gs \<longleftrightarrow> gs = []"
| "sealed P c (x # xs) [] \<longleftrightarrow> False"
| "sealed P c (x # xs) (g # gs) \<longleftrightarrow> seals P c x g \<and> sealed P (next_nonce c) xs gs"

lemma sealed_unique: "sealed P c xs gs \<Longrightarrow> sealed P c xs gs' \<Longrightarrow> gs' = gs"
proof (induction xs arbitrary: c gs gs')
  case (Cons x xs)
  then show ?case by (cases gs; cases gs') (auto dest: seals_unique)
qed simp

lemma seals_carries:
  assumes "session_primitives P" "seals P c (request_item e) f" "length (event_text e) \<le> 65511"
  shows "carries P c f e" "valid_frame f"
proof -
  have body: "snd (snd (request_item e)) = event_text e" by (cases e) simp_all
  obtain ct where ct: "p_seal P (cs_key c) (build_nonce (cs_nonce c)) (fst (snd (request_item e))) (event_text e) = Some ct"
    and f: "f = new_frame (fst (request_item e)) (cs_nonce c) ct"
    using assms(2) body by (auto simp: seals_def split: prod.splits)
  have short: "length (event_text e) < aead_limit" using assms(3) by (simp add: aead_limit_def)
  have "p_open P (cs_key c) (build_nonce (cs_nonce c)) (fst (snd (request_item e))) ct = Some (event_text e)"
      "length ct = length (event_text e) + 16"
    using ct seal_total [OF session_primitivesD(4,5) [OF assms(1)] short] by (metis option.inject)+
  then show "carries P c f e" "valid_frame f"
    using body assms(3) by (auto simp: carries_def f new_frame_def valid_frame_le split: prod.splits)
qed

lemma close_ends_loop:
  assumes "rx_room (Suc 0) (s_metrics s)" "inbox (s_net s) = serialize f @ rest" "valid_frame f"
    and "wf_msg_type f = Close"
  obtains s' where "transport_loop P prof s = (s', Inr ())" "s_rx s' = s_rx s" "s_tx s' = s_tx s"
    "inbox (s_net s') = rest" "outbox (s_net s') = outbox (s_net s)"
    "frames_received (s_metrics s') = frames_received (s_metrics s) + 1"
    "frames_sent (s_metrics s') = frames_sent (s_metrics s)"
    "tx_room 0 (s_metrics s) \<Longrightarrow> totals_fit (s_metrics s')"
proof -
  have size: "payload_len f + 13 \<le> 2 ^ 18" using assms(3) by (simp add: valid_frame_le payload_len_def)
  obtain s1 where s1: "count_rx prof (payload_len f + 13) (s\<lparr>s_net := (s_net s)\<lparr>inbox := rest\<rparr>\<rparr>) = (s1, Inr ())"
    and eff: "frames_received (s_metrics s1) = frames_received (s_metrics s) + 1"
      "frames_sent (s_metrics s1) = frames_sent (s_metrics s)"
      "inbox (s_net s1) = rest" "outbox (s_net s1) = outbox (s_net s)"
      "s_rx s1 = s_rx s" "s_tx s1 = s_tx s"
      "tx_room 0 (s_metrics s) \<Longrightarrow> totals_fit (s_metrics s1)"
    by (rule count_rx_ok [of 0 "s\<lparr>s_net := (s_net s)\<lparr>inbox := rest\<rparr>\<rparr>" _ prof, OF _ size])
      (use assms(1) in \<open>auto intro: room_totals_fit\<close>)
  have "transport_step P prof s = (s1, Inr Break)"
    using read_from_serialize [OF assms(3,2)] s1 assms(4)
    by (simp add: transport_step_def onA_def bindA_case serve_frame_def ret_def)
  then have "transport_loop P prof s = (s1, Inr ())"
    by (subst transport_loop.simps) simp
  then show thesis using that eff by blast
qed

text \<open>The replay filter has seen every number below the receiving counter.\<close>

definition covered :: "session \<Rightarrow> bool" where
  "covered s \<longleftrightarrow> {m. m < cs_nonce (s_rx s)} \<subseteq> seen_set (s_replay s)"

lemma covered_turn:
  assumes "covered s" "room (Suc k) s"
    and "s_replay s' = after_call (s_replay s) (cs_nonce (s_rx s))" "s_rx s' = next_nonce (s_rx s)"
  shows "covered s'"
proof -
  let ?n = "cs_nonce (s_rx s)"
  have s: "in_step s" "initialized (s_replay s) \<longrightarrow> ?n \<noteq> 0" "unat ?n + 1 < 2 ^ 64"
    using assms(2) by (simp_all add: room_def)
  have ok: "window_ok (s_replay s)" using s(1) by (simp add: in_step_def)
  have fresh: "verdict (s_replay s) ?n = None" by (rule verdict_expected [OF s(1,2)])
  have "m \<in> seen_set (s_replay s')" if "m < ?n + 1" for m
  proof (cases "m = ?n")
    case True
    then show ?thesis
      using verdict_slide_self [OF ok] fresh by (simp add: assms(3) seen_set_def verdict_after_call)
  next
    case False
    with that have "m < ?n" using s(3) by (simp add: word_less_nat_alt unat_suc_u64 word_unat_eq_iff)
    then have "verdict (s_replay s) m \<noteq> None" using assms(1) by (auto simp: covered_def seen_set_def)
    then show ?thesis
      using verdict_mono [OF ok fresh] fresh by (simp add: assms(3) seen_set_def verdict_after_call)
  qed
  then show ?thesis by (auto simp: covered_def assms(4))
qed

text \<open>The turns that serve the requests of an honest client, whatever follows them.\<close>

lemma honest_turns_room:
  assumes P: "session_primitives P"
  shows "room (length rs + k) s \<Longrightarrow> sealed P (s_rx s) (map request_item rs) fs \<Longrightarrow>
    list_all (\<lambda>e. length (event_text e) \<le> 65511) rs \<Longrightarrow>
    inbox (s_net s) = concat (map serialize fs) @ rest \<Longrightarrow>
    \<exists>s' gs. transport_loop P prof s = transport_loop P prof s' \<and> room k s' \<and>
      sealed P (s_tx s) (map answer_item rs) gs \<and> inbox (s_net s') = rest \<and>
      outbox (s_net s') = outbox (s_net s) @ concat (map serialize gs) \<and>
      frames_received (s_metrics s') = frames_received (s_metrics s) + word_of_nat (length rs) \<and>
      frames_sent (s_metrics s') = frames_sent (s_metrics s) + word_of_nat (length rs) \<and>
      cs_nonce (s_rx s') = cs_nonce (s_rx s) + word_of_nat (length rs) \<and> (covered s \<longrightarrow> covered s') \<and>
      window_size (s_replay s') = window_size (s_replay s)"
proof (induction rs arbitrary: s fs)
  case Nil
  then show ?case by (intro exI [of _ s] exI [of _ "[]"]) simp
next
  case (Cons e rs)
  obtain f fs' where fs: "fs = f # fs'" "seals P (s_rx s) (request_item e) f"
      "sealed P (next_nonce (s_rx s)) (map request_item rs) fs'"
    using Cons.prems(2) by (cases fs) simp_all
  have e: "length (event_text e) \<le> 65511" using Cons.prems(3) by simp
  obtain s1 g where s1: "transport_step P prof s = (s1, Inr Continue)" "room (length rs + k) s1"
      "seals P (s_tx s) (answer_item e) g" "s_rx s1 = next_nonce (s_rx s)" "s_tx s1 = next_nonce (s_tx s)"
      "inbox (s_net s1) = concat (map serialize fs') @ rest"
      "outbox (s_net s1) = outbox (s_net s) @ serialize g"
      "frames_sent (s_metrics s1) = frames_sent (s_metrics s) + 1"
      "frames_received (s_metrics s1) = frames_received (s_metrics s) + 1"
      "s_replay s1 = after_call (s_replay s) (cs_nonce (s_rx s))"
    by (rule room_turn [OF P, of "length rs + k" s f _ e prof])
      (use Cons.prems fs seals_carries [OF P fs(2) e] e in auto)
  obtain s' gs where IH: "transport_loop P prof s1 = transport_loop P prof s'" "room k s'"
      "sealed P (s_tx s1) (map answer_item rs) gs" "inbox (s_net s') = rest"
      "outbox (s_net s') = outbox (s_net s1) @ concat (map serialize gs)"
      "frames_received (s_metrics s') = frames_received (s_metrics s1) + word_of_nat (length rs)"
      "frames_sent (s_metrics s') = frames_sent (s_metrics s1) + word_of_nat (length rs)"
      "cs_nonce (s_rx s') = cs_nonce (s_rx s1) + word_of_nat (length rs)" "covered s1 \<longrightarrow> covered s'"
      "window_size (s_replay s') = window_size (s_replay s1)"
    using Cons.IH [OF s1(2), of fs'] s1 fs(3) Cons.prems(3) by auto
  have "transport_loop P prof s = transport_loop P prof s'"
    using s1(1) IH(1) by (subst transport_loop.simps) simp
  moreover have "sealed P (s_tx s) (map answer_item (e # rs)) (g # gs)"
    using s1 IH by simp
  moreover have "covered s \<longrightarrow> covered s'"
    using covered_turn [OF _ _ s1(10,4)] Cons.prems(1) IH(9) by auto
  ultimately show ?case
    using s1 IH by (intro exI [of _ s'] exI [of _ "g # gs"]) (simp add: ac_simps)
qed

lemma honest_turns:
  assumes P: "session_primitives P"
  shows "room (length rs) s \<Longrightarrow> sealed P (s_rx s) (map request_item rs) fs \<Longrightarrow>
    list_all (\<lambda>e. length (event_text e) \<le> 65511) rs \<Longrightarrow>
    inbox (s_net s) = concat (map serialize fs) @ rest \<Longrightarrow>
    \<exists>s' gs. transport_loop P prof s = transport_loop P prof s' \<and> room 0 s' \<and>
      sealed P (s_tx s) (map answer_item rs) gs \<and> inbox (s_net s') = rest \<and>
      outbox (s_net s') = outbox (s_net s) @ concat (map serialize gs) \<and>
      frames_received (s_metrics s') = frames_received (s_metrics s) + word_of_nat (length rs) \<and>
      frames_sent (s_metrics s') = frames_sent (s_metrics s) + word_of_nat (length rs) \<and>
      cs_nonce (s_rx s') = cs_nonce (s_rx s) + word_of_nat (length rs) \<and> (covered s \<longrightarrow> covered s') \<and>
      window_size (s_replay s') = window_size (s_replay s)"
  using honest_turns_room [OF P, where k = 0] by simp

text \<open>At the end of the stream the loop is over.\<close>

lemma eof_ends_loop: "inbox (s_net s) = [] \<Longrightarrow> transport_loop P prof s = (s, Inr ())"
  by (subst transport_loop.simps) (simp add: transport_step_def onA_def read_from_eof)

lemma honest_loop:
  assumes P: "session_primitives P"
    and "room (length rs) s" "sealed P (s_rx s) (map request_item rs) fs"
    and "list_all (\<lambda>e. length (event_text e) \<le> 65511) rs"
    and "inbox (s_net s) = concat (map serialize fs) @ serialize (close_frame n) @ rest"
  shows "\<exists>s' gs. transport_loop P prof s = (s', Inr ()) \<and> sealed P (s_tx s) (map answer_item rs) gs \<and>
      inbox (s_net s') = rest \<and> outbox (s_net s') = outbox (s_net s) @ concat (map serialize gs) \<and>
      frames_received (s_metrics s') = frames_received (s_metrics s) + word_of_nat (length rs + 1) \<and>
      frames_sent (s_metrics s') = frames_sent (s_metrics s) + word_of_nat (length rs) \<and>
      totals_fit (s_metrics s')"
proof -
  obtain s1 gs where s1: "transport_loop P prof s = transport_loop P prof s1" "room 0 s1"
      "sealed P (s_tx s) (map answer_item rs) gs" "inbox (s_net s1) = serialize (close_frame n) @ rest"
      "outbox (s_net s1) = outbox (s_net s) @ concat (map serialize gs)"
      "frames_received (s_metrics s1) = frames_received (s_metrics s) + word_of_nat (length rs)"
      "frames_sent (s_metrics s1) = frames_sent (s_metrics s) + word_of_nat (length rs)"
    using honest_turns [OF assms] by blast
  have rx: "rx_room (Suc 0) (s_metrics s1)" and tx: "tx_room 0 (s_metrics s1)" using s1(2) by (simp_all add: room_def)
  obtain s' where "transport_loop P prof s1 = (s', Inr ())"
      "inbox (s_net s') = rest" "outbox (s_net s') = outbox (s_net s1)"
      "frames_received (s_metrics s') = frames_received (s_metrics s1) + 1"
      "frames_sent (s_metrics s') = frames_sent (s_metrics s1)" "totals_fit (s_metrics s')"
    by (rule close_ends_loop [OF rx s1(4), of P prof]) (simp_all add: tx close_frame_def new_frame_def valid_frame_le)
  then show ?thesis
    using s1 by (intro exI [of _ s'] exI [of _ gs]) (simp add: ac_simps)
qed

lemma room_start:
  assumes "write_faults n = []" "k < 2 ^ 40"
  shows "room k (start_session n (cipher_new rk) (cipher_new tk) t)"
  using assms
  by (simp add: room_def rx_room_def tx_room_def cipher_new_def metrics_new_def new_filter_def
      in_step_start [unfolded cipher_new_def])
    (simp add: with_window_size_def)

lemma sealed_exists:
  assumes "session_primitives P"
  shows "list_all (\<lambda>x. length (snd (snd x)) < aead_limit) xs \<Longrightarrow> unat (cs_nonce c) + length xs < 2 ^ 64 \<Longrightarrow>
    \<exists>gs. sealed P c xs gs"
proof (induction xs arbitrary: c)
  case (Cons x xs)
  obtain t a m where x: "x = (t, a, m)" by (cases x) auto
  with Cons.prems have room: "unat (cs_nonce c) + 1 < 2 ^ 64" "length m < aead_limit" by simp_all
  obtain ct where "p_seal P (cs_key c) (build_nonce (cs_nonce c)) a m = Some ct"
    using seal_total [OF session_primitivesD(4,5) [OF assms] room(2)] by metis
  then have "seals P c x (new_frame t (cs_nonce c) ct)"
    using room by (simp add: seals_def x)
  moreover have "unat (cs_nonce (next_nonce c)) = unat (cs_nonce c) + 1"
    using room by (simp add: unat_suc_u64)
  then obtain gs where "sealed P (next_nonce c) xs gs"
    using Cons.IH [of "next_nonce c"] Cons.prems by auto
  ultimately show ?case
    by (intro exI [of _ "new_frame t (cs_nonce c) ct # gs"]) simp
qed (auto intro: exI [of _ "[]"])

text \<open>An honest session that ends with the stream, or with a \<open>Close\<close> frame.\<close>

lemma honest_session:
  assumes P: "session_primitives P" and n: "write_faults n = []" "length rs < 2 ^ 40"
    and rs: "list_all (\<lambda>e. length (event_text e) \<le> 65511) rs"
    and fs: "sealed P (cipher_new rk) (map request_item rs) fs"
    and gs: "sealed P (cipher_new tk) (map answer_item rs) gs"
    and io: "inbox n = concat (map serialize fs) @ X" "X = [] \<or> X = serialize (close_frame k)"
  shows "\<exists>s. transport_loop P prof (start_session n (cipher_new rk) (cipher_new tk) t) = (s, Inr ()) \<and>
    outbox (s_net s) = outbox n @ concat (map serialize gs) \<and> inbox (s_net s) = [] \<and>
    totals_fit (s_metrics s)"
proof -
  let ?s = "start_session n (cipher_new rk) (cipher_new tk) t"
  have room: "room (length rs) ?s" by (rule room_start [OF n])
  have fs': "sealed P (s_rx ?s) (map request_item rs) fs" using fs by simp
  show ?thesis
  proof (cases "X = []")
    case True
    have io': "inbox (s_net ?s) = concat (map serialize fs) @ []" using io True by simp
    obtain s1 gs' where s1:
      "transport_loop P prof ?s = transport_loop P prof s1" "sealed P (cipher_new tk) (map answer_item rs) gs'"
      "inbox (s_net s1) = []" "outbox (s_net s1) = outbox n @ concat (map serialize gs')" "room 0 s1"
      using honest_turns [OF P room fs' rs io', where prof = prof] by auto
    then show ?thesis
      using sealed_unique [OF gs] eof_ends_loop [OF s1(3)] by (auto simp: room_def intro: room_totals_fit)
  next
    case False
    then have io': "inbox (s_net ?s) = concat (map serialize fs) @ serialize (close_frame k) @ []"
      using io by simp
    obtain s1 gs' where
      "transport_loop P prof ?s = (s1, Inr ())" "sealed P (cipher_new tk) (map answer_item rs) gs'"
      "inbox (s_net s1) = []" "outbox (s_net s1) = outbox n @ concat (map serialize gs')"
      "totals_fit (s_metrics s1)"
      using honest_loop [OF P room fs' rs io', where prof = prof] by auto
    then show ?thesis using sealed_unique [OF gs] by auto
  qed
qed

section \<open>Properties\<close>

text \<open>
  C4. The transport loop implements its contract, whatever the peer sends and wherever
  writing fails: it always returns, and up to its last turn it has consumed a list of
  frames from the input, accepted exactly the events of frames that open under the
  receiving key at the expected counter, and sent exactly one correctly sealed answer for
  each, in order. If it ends without an error, the last turn sent nothing and used no
  nonce; it ended by a \<open>Close\<close> frame or a read that failed.
\<close>

theorem transport_refines_spec:
  assumes "in_step s" "transport_loop P prof s = (s', r)"
  shows "\<exists>fs es gs s1.
    session_spec P (s_rx s) (s_tx s) fs es gs (s_rx s1) (s_tx s1) \<and>
    inbox (s_net s) = concat (map serialize fs) @ inbox (s_net s1) \<and>
    outbox (s_net s1) = outbox (s_net s) @ concat (map serialize gs) \<and>
    transport_step P prof s1 = (s', map_sum id (\<lambda>_. Break) r) \<and>
    (r = Inr () \<longrightarrow>
       outbox (s_net s') = outbox (s_net s1) \<and> s_rx s' = s_rx s1 \<and> s_tx s' = s_tx s1 \<and>
       (\<exists>n. (\<exists>e. read_from (s_net s1) = (n, Inl (Err e))) \<or>
            (\<exists>f. read_from (s_net s1) = (n, Inr f) \<and> wf_msg_type f = Close)))"
proof -
  obtain fs es gs s1 where *: "reached P s fs es gs s1"
      "transport_step P prof s1 = (s', map_sum id (\<lambda>_. Break) r)"
    using loop_runs [OF assms] by blast
  have "outbox (s_net s') = outbox (s_net s1) \<and> s_rx s' = s_rx s1 \<and> s_tx s' = s_tx s1 \<and>
       (\<exists>n. (\<exists>e. read_from (s_net s1) = (n, Inl (Err e))) \<or>
            (\<exists>f. read_from (s_net s1) = (n, Inr f) \<and> wf_msg_type f = Close))" if "r = Inr ()"
  proof -
    have st: "transport_step P prof s1 = (s', Inr Break)" "in_step s1"
      using * that by (simp_all add: reached_def)
    then show ?thesis
    proof (cases rule: transport_step_Inr)
      case (broken n e)
      then show ?thesis
        using read_from_only_inbox [of "s_net s1"]
        by (auto simp: fst_conv) (metis net.select_convs(2) net.surjective net.update_convs(1) fst_conv)
    next
      case (turn n f s2)
      then show ?thesis
        by (cases rule: serve_frame_Inr [OF turn(3,4)]) auto
    qed
  qed
  with * show ?thesis unfolding reached_def by blast
qed

theorem transport_refines_spec_witness:
  "\<exists>fs es gs rx tx s' r rest.
    transport_loop toy Debug (start_session (connection [1, 2]) (cipher_new [1]) (cipher_new [2]) 0) = (s', r) \<and>
    session_spec toy (cipher_new [1]) (cipher_new [2]) fs es gs rx tx \<and>
    [1, 2] = concat (map serialize fs) @ rest"
proof -
  obtain s' r where run: "transport_loop toy Debug
      (start_session (connection [1, 2]) (cipher_new [1]) (cipher_new [2]) 0) = (s', r)"
    by fastforce
  from transport_refines_spec [OF in_step_start run] obtain fs es gs and s1 :: session
    where "session_spec toy (cipher_new [1]) (cipher_new [2]) fs es gs (s_rx s1) (s_tx s1)"
      "[1, 2] = concat (map serialize fs) @ inbox (s_net s1)"
    by auto
  with run show ?thesis by blast
qed

text \<open>
  In every session, with any peer, the accepted frames carry exactly the counter values
  0, 1, 2, ... in this order, and so do the answers: nothing is accepted twice, skipped or
  out of order, and no sending nonce is used twice, in either build profile.
\<close>

theorem session_counters_consecutive:
  assumes "transport_loop P prof (start_session n (cipher_new rk) (cipher_new tk) t) = (s', r)"
  shows "\<exists>fs es gs rest rx tx. inbox n = concat (map serialize fs) @ rest \<and>
    session_spec P (cipher_new rk) (cipher_new tk) fs es gs rx tx \<and>
    map (unat \<circ> wf_nonce) (filter (\<lambda>f. \<not> is_handshake f) fs) = [0 ..< length es] \<and>
    map (unat \<circ> wf_nonce) gs = [0 ..< length es] \<and> length es < 2 ^ 64"
proof -
  obtain fs es gs and s1 :: session where spec: "session_spec P (cipher_new rk) (cipher_new tk) fs es gs (s_rx s1) (s_tx s1)"
    and inb: "inbox n = concat (map serialize fs) @ inbox (s_net s1)"
    using loop_runs [OF in_step_start assms] by (auto simp: reached_def)
  note nn = spec_nonces [OF spec]
  have bound: "length es < 2 ^ 64" "map (unat \<circ> wf_nonce) gs = [0 ..< length es]"
    using nn by (simp_all add: cipher_new_def)
  have "map (unat \<circ> wf_nonce) (filter (\<lambda>f. \<not> is_handshake f) fs) =
      map unat (map wf_nonce (filter (\<lambda>f. \<not> is_handshake f) fs))"
    by simp
  also have "\<dots> = map (\<lambda>i. unat (word_of_nat i :: u64)) [0 ..< length es]"
    using nn by (simp add: cipher_new_def comp_def)
  also have "\<dots> = map id [0 ..< length es]"
    using bound by (intro map_cong) (auto simp: unat_of_nat)
  also have "\<dots> = [0 ..< length es]" by simp
  finally show ?thesis
    using spec inb bound by blast
qed

theorem session_counters_consecutive_witness:
  "\<exists>fs es gs rest rx tx. replicate 40 7 = concat (map serialize fs) @ rest \<and>
     session_spec toy (cipher_new [1]) (cipher_new [2]) fs es gs rx tx \<and>
     map (unat \<circ> wf_nonce) gs = [0 ..< length es]"
proof -
  obtain s' r where run: "transport_loop toy Release
      (start_session (connection (replicate 40 7)) (cipher_new [1]) (cipher_new [2]) 0) = (s', r)"
    by fastforce
  from session_counters_consecutive [OF run] show ?thesis
    by (simp only: connection_simps) blast
qed

text \<open>
  C30. There is no out-of-order delivery: a data or heartbeat frame whose number is not the
  next one ends the session with an error, also when the replay filter would take it; it is
  not answered and leaves keys and counters as they were.
\<close>

theorem out_of_order_ends_session:
  assumes "inbox (s_net s) = serialize f @ rest" "is_valid_payload_size (payload_len f)"
    and "is_data f \<or> is_heartbeat f" "wf_nonce f \<noteq> cs_nonce (s_rx s)"
  shows "\<exists>s' e. transport_loop P prof s = (s', Inl e) \<and>
    outbox (s_net s') = outbox (s_net s) \<and> s_rx s' = s_rx s \<and> s_tx s' = s_tx s"
proof -
  have read: "read_from (s_net s) = ((s_net s)\<lparr>inbox := rest\<rparr>, Inr f)"
    using read_from_serialize [of f "s_net s" rest] assms(1,2) by (simp add: valid_frame_def)
  have dec: "decrypt P prof ct a (wf_nonce f) (s_rx s) =
      (s_rx s, Inl (Err (NonceOrder (cs_nonce (s_rx s)) (wf_nonce f))))" for ct a
    using assms(4) by (simp add: decrypt_def)
  have serve: "\<exists>s' e. serve_frame P prof f s1 = (s', Inl e) \<and> s_net s' = s_net s1 \<and>
      s_rx s' = s_rx s1 \<and> s_tx s' = s_tx s1" if "s_rx s1 = s_rx s" for s1
    using assms(3) that
    by (cases "validate_and_record prof (wf_nonce f) (s_replay s1)"; cases "wf_msg_type f")
      (auto simp: serve_frame_def bindA_case onA_def dec is_data_def is_heartbeat_def
        mt_is_data_def mt_is_heartbeat_def split: sum.split)
  define s0 where "s0 = s\<lparr>s_net := (s_net s)\<lparr>inbox := rest\<rparr>\<rparr>"
  have "\<exists>s' e. transport_step P prof s = (s', Inl e) \<and>
    outbox (s_net s') = outbox (s_net s) \<and> s_rx s' = s_rx s \<and> s_tx s' = s_tx s"
  proof (cases "snd (count_rx prof (payload_len f + 13) s0)")
    case (Inl e)
    obtain n' t where t: "instant_now (s_net s0) = (n', Inr t)" "outbox n' = outbox (s_net s0)"
      using instant_now_total [of "s_net s0"] by blast
    then have "outbox (s_net (fst (count_rx prof (payload_len f + 13) s0))) = outbox (s_net s) \<and>
        s_rx (fst (count_rx prof (payload_len f + 13) s0)) = s_rx s \<and>
        s_tx (fst (count_rx prof (payload_len f + 13) s0)) = s_tx s"
      by (simp add: count_rx_def bindA_case onA_def s0_def split: prod.split)
    then show ?thesis
      using Inl read by (cases "count_rx prof (payload_len f + 13) s0")
        (auto simp: transport_step_def onA_def bindA_case simp flip: s0_def)
  next
    case (Inr u)
    then obtain s1 where s1: "count_rx prof (payload_len f + 13) s0 = (s1, Inr ())"
      by (cases "count_rx prof (payload_len f + 13) s0") auto
    note eff = count_Inr(1) [OF s1]
    obtain s' e where "serve_frame P prof f s1 = (s', Inl e)" "s_net s' = s_net s1"
        "s_rx s' = s_rx s1" "s_tx s' = s_tx s1"
      using serve [of s1] eff by (auto simp: s0_def)
    then show ?thesis
      using read s1 eff by (auto simp: transport_step_def onA_def bindA_case s0_def)
  qed
  then show ?thesis
    by (subst transport_loop.simps) auto
qed

theorem out_of_order_ends_session_witness:
  "\<exists>s' e. transport_loop toy Debug
      (start_session (connection (serialize (data_frame 1 [5]))) (cipher_new [1]) (cipher_new [2]) 0) = (s', Inl e)"
  using out_of_order_ends_session [of "start_session (connection (serialize (data_frame 1 [5])))
      (cipher_new [1]) (cipher_new [2]) 0" "data_frame 1 [5]" "[]" toy Debug]
  by (auto simp: is_valid_payload_size_def max_payload_size_def MAX_FRAME_SIZE_def payload_len_def
      data_frame_def new_frame_def is_data_def mt_is_data_def cipher_new_def)

text \<open>
  C36. \<open>Close\<close> is not authenticated: a fresh session ends without an error on any \<open>Close\<close>
  frame within the size limit, whatever its number and payload are, under any keys and
  primitives; nothing is opened, answered or written.
\<close>

theorem close_needs_no_key:
  assumes "inbox n = serialize f @ rest" "is_valid_payload_size (payload_len f)" "is_close f"
  shows "\<exists>s'. transport_loop P prof (start_session n rx tx t) = (s', Inr ()) \<and>
    s_rx s' = rx \<and> s_tx s' = tx \<and> inbox (s_net s') = rest \<and> outbox (s_net s') = outbox n"
proof -
  have "rx_room (Suc 0) (s_metrics (start_session n rx tx t))"
    by (simp add: rx_room_def metrics_new_def)
  moreover have "inbox (s_net (start_session n rx tx t)) = serialize f @ rest" "valid_frame f"
      "wf_msg_type f = Close"
    using assms by (auto simp: valid_frame_def is_close_def mt_is_close_def)
  ultimately show ?thesis
    by (rule close_ends_loop [where P = P and prof = prof]) auto
qed

theorem close_needs_no_key_witness:
  "\<exists>s'. transport_loop toy Debug
      (start_session (connection (serialize (new_frame Close 77 [1, 2, 3]))) (cipher_new [1]) (cipher_new [2]) 0) =
        (s', Inr ())"
  using close_needs_no_key [of "connection (serialize (new_frame Close 77 [1, 2, 3]))"
      "new_frame Close 77 [1, 2, 3]" "[]" toy Debug "cipher_new [1]" "cipher_new [2]" 0]
  by (auto simp: is_valid_payload_size_def max_payload_size_def MAX_FRAME_SIZE_def payload_len_def
      new_frame_def is_close_def mt_is_close_def)

text \<open>
  C6. Service of an honest client: if the peer sends any sequence of up to 2^40 messages
  and pings of at most 65511 bytes, sealed in order under the receiving key, and then
  \<open>Close\<close>, on a connection without write faults, then the loop returns without error, and
  what it has written is, in order, one frame per request: the echo of the message, with
  invalid UTF-8 replaced, or \<open>PONG\<close>, sealed under the sending key. What follows the
  \<open>Close\<close> frame is left unread, and the metrics count every frame.
\<close>

theorem honest_client_is_served:
  assumes "session_primitives P" "write_faults n = []" "length rs < 2 ^ 40"
    and "list_all (\<lambda>e. length (event_text e) \<le> 65511) rs"
    and "sealed P (cipher_new rk) (map request_item rs) fs"
    and "inbox n = concat (map serialize fs) @ serialize (close_frame k) @ rest"
  shows "\<exists>s' gs. transport_loop P prof (start_session n (cipher_new rk) (cipher_new tk) t) = (s', Inr ()) \<and>
    sealed P (cipher_new tk) (map answer_item rs) gs \<and>
    inbox (s_net s') = rest \<and> outbox (s_net s') = outbox n @ concat (map serialize gs) \<and>
    frames_received (s_metrics s') = word_of_nat (length rs + 1) \<and>
    frames_sent (s_metrics s') = word_of_nat (length rs)"
  using honest_loop [OF assms(1) room_start [OF assms(2,3)], where rk1 = rk and fs = fs and n = k
      and rest = rest and prof = prof and tk1 = tk and t1 = t] assms
  by (fastforce simp: metrics_new_def)

theorem honest_client_is_served_witness:
  "\<exists>fs s' gs. sealed toy (cipher_new [1]) (map request_item [Said [0x68, 0x69], Pinged []]) fs \<and>
    transport_loop toy Debug (start_session (connection (concat (map serialize fs) @ serialize (close_frame 2)))
      (cipher_new [1]) (cipher_new [2]) 0) = (s', Inr ()) \<and>
    sealed toy (cipher_new [2]) (map answer_item [Said [0x68, 0x69], Pinged []]) gs \<and>
    outbox (s_net s') = concat (map serialize gs)"
proof -
  obtain fs where fs: "sealed toy (cipher_new [1]) (map request_item [Said [0x68, 0x69], Pinged []]) fs"
    using sealed_exists [OF toy_session, of "map request_item [Said [0x68, 0x69], Pinged []]" "cipher_new [1]"]
    by (auto simp: aead_limit_def cipher_new_def)
  have pre: "length [Said [0x68, 0x69], Pinged []] < (2 :: nat) ^ 40"
      "list_all (\<lambda>e. length (event_text e) \<le> 65511) [Said [0x68, 0x69], Pinged []]"
    by simp_all
  show ?thesis
    using honest_client_is_served [OF toy_session _ pre fs,
        where n = "connection (concat (map serialize fs) @ serialize (close_frame 2))" and k = 2
          and rest = "[]" and prof = Debug and tk = "[2]" and t = 0] fs
    by (simp only: connection_simps append_Nil append_Nil2 append_assoc refl simp_thms) blast
qed

text \<open>
  C19. Termination with a bound: the loop with an explicit budget of turns gives the same
  result as soon as the budget exceeds one turn per 13 bytes of pending input, the size of
  the smallest frame.
\<close>

theorem transport_turns_bounded:
  assumes "length (inbox (s_net s)) div 13 < n"
  shows "transport_fuel n P prof s = Some (transport_loop P prof s)"
  using assms
proof (induction n arbitrary: s)
  case (Suc n)
  obtain s1 r where st: "transport_step P prof s = (s1, r)" by fastforce
  show ?case
  proof (cases "r = Inr Continue")
    case True
    then have "length (inbox (s_net s1)) + 13 \<le> length (inbox (s_net s))"
      using st by (simp add: transport_step_consumes)
    then have "(length (inbox (s_net s1)) + 13) div 13 \<le> length (inbox (s_net s)) div 13"
      by (rule div_le_mono)
    then have "length (inbox (s_net s1)) div 13 < n"
      using Suc.prems by simp
    then show ?thesis
      using Suc.IH [of s1] st True by (subst transport_loop.simps) simp
  next
    case False
    then show ?thesis
      using st by (subst transport_loop.simps) (auto split: sum.split flow.split)
  qed
qed simp

theorem transport_turns_bounded_witness:
  "transport_fuel 4 toy Debug (start_session (connection (replicate 40 9)) (cipher_new [1]) (cipher_new [2]) 0) =
     Some (transport_loop toy Debug (start_session (connection (replicate 40 9)) (cipher_new [1]) (cipher_new [2]) 0))"
  by (rule transport_turns_bounded) simp

end
