(* ===== verification/Client.thy ===== *)
theory Client
  imports Transport
begin

text \<open>
  The client (\<open>struct TunnelClient\<close>, src/src/client.rs 12-334): configuration, the exchange
  of one message, and the interactive session as a machine over the lines of the standard
  input. What comes from outside is an argument: the connection that \<open>TcpStream::connect\<close>
  gives or refuses, the random bytes, whether the timer fires first, and the input lines.
\<close>

section \<open>Configuration\<close>

text \<open>A socket address is its text, a duration a number of nanoseconds.\<close>

record tunnel_client =
  tc_server_pubkey :: bytes
  tc_target_addr :: bytes
  tc_timeout :: "nat option"
  tc_prologue :: bytes

definition client_new :: "bytes \<Rightarrow> bytes \<Rightarrow> tunnel_client" where
  "client_new server_pubkey target_addr =
     \<lparr>tc_server_pubkey = server_pubkey, tc_target_addr = target_addr, tc_timeout = None,
      tc_prologue = PROTOCOL_NAME\<rparr>"

definition client_from_hex :: "primitives \<Rightarrow> bytes \<Rightarrow> bytes \<Rightarrow> tunnel_client result" where
  "client_from_hex P server_pubkey_hex target_addr =
     (case parse_public_key_hex P server_pubkey_hex of
        Inl e \<Rightarrow> Inl e
      | Inr key \<Rightarrow> Inr (client_new key target_addr))"

definition client_with_timeout :: "nat \<Rightarrow> tunnel_client \<Rightarrow> tunnel_client" where
  "client_with_timeout dur c = c\<lparr>tc_timeout := Some dur\<rparr>"

definition client_with_timeout_millis :: "nat \<Rightarrow> tunnel_client \<Rightarrow> tunnel_client" where
  "client_with_timeout_millis millis c = client_with_timeout (millis * 1000000) c"

definition client_with_prologue :: "bytes \<Rightarrow> tunnel_client \<Rightarrow> tunnel_client" where
  "client_with_prologue prologue c = c\<lparr>tc_prologue := prologue\<rparr>"

definition client_with_prologue_str :: "bytes \<Rightarrow> tunnel_client \<Rightarrow> tunnel_client" where
  "client_with_prologue_str prologue c = client_with_prologue prologue c"

definition client_has_timeout :: "tunnel_client \<Rightarrow> bool" where
  "client_has_timeout c = (tc_timeout c \<noteq> None)"

definition client_set_timeout :: "nat option \<Rightarrow> tunnel_client \<Rightarrow> tunnel_client" where
  "client_set_timeout t c = c\<lparr>tc_timeout := t\<rparr>"

definition client_server_pubkey_hex :: "primitives \<Rightarrow> tunnel_client \<Rightarrow> bytes" where
  "client_server_pubkey_hex P c = p_hex_encode P (tc_server_pubkey c)"

section \<open>One message\<close>

text \<open>The body of the operation once the connection stands.\<close>

definition secure_exchange ::
  "primitives \<Rightarrow> profile \<Rightarrow> tunnel_client \<Rightarrow> bytes \<Rightarrow> bytes \<Rightarrow> (net, bytes) act" where
  "secure_exchange P prof client os_random message =
     bindA (perform_handshake P prof (tc_prologue client) (tc_server_pubkey client) os_random)
       (\<lambda>(tx_cipher, rx_cipher).
     let tx_nonce = current_nonce tx_cipher in
     case encrypt P message DATA_AAD tx_cipher of
       (tx_cipher, Inl e) \<Rightarrow> throw e
     | (tx_cipher, Inr encrypted_data) \<Rightarrow>
         bindA (write_to (new_frame DataPayload tx_nonce encrypted_data)) (\<lambda>_.
         bindA read_from (\<lambda>reply_frame.
         if wf_msg_type reply_frame \<noteq> DataPayload
         then throw (Err (ExpectedDataReply (wf_msg_type reply_frame)))
         else case decrypt P prof (wf_payload reply_frame) DATA_AAD (wf_nonce reply_frame) rx_cipher of
             (rx_cipher, Inl e) \<Rightarrow> throw e
           | (rx_cipher, Inr decrypted_reply) \<Rightarrow>
               (case from_utf8 decrypted_reply of
                  None \<Rightarrow> throw (Err InvalidUtf8)
                | Some reply_text \<Rightarrow>
                    bindA (discard (write_to (new_frame Close (current_nonce tx_cipher) []))) (\<lambda>_.
                    ret reply_text)))))"

text \<open>
  The whole operation returns the connection as it leaves it, so that what the client has
  written can be given to a server. It is \<open>None\<close> when there was none, and when the timer
  fires: the operation is then dropped at a point that is not modelled.
\<close>

definition send_secure_message ::
  "primitives \<Rightarrow> profile \<Rightarrow> tunnel_client \<Rightarrow> net option \<Rightarrow> bytes \<Rightarrow> bool \<Rightarrow> bytes \<Rightarrow>
   net option \<times> bytes result" where
  "send_secure_message P prof client connect os_random timer_fires message =
     (let op = (case connect of
                  None \<Rightarrow> (None, Inl (Err Io))
                | Some stream \<Rightarrow> map_prod Some id (secure_exchange P prof client os_random message stream))
      in case tc_timeout client of
           Some dur \<Rightarrow> if timer_fires then (None, Inl (Err TimedOut)) else op
         | None \<Rightarrow> op)"

lemma send_secure_message_ok:
  assumes "secure_exchange P prof client os_random m stream = (c, r)"
    and "tc_timeout client = None \<or> \<not> timer_fires"
  shows "send_secure_message P prof client (Some stream) os_random timer_fires m = (Some c, r)"
  using assms by (auto simp: send_secure_message_def Let_def split: option.split)

section \<open>The interactive session\<close>

text \<open>What the session prints, one constructor per message.\<close>

datatype printed =
    HelpText
  | InfoText bytes bytes u64
  | StatsText session_metrics
  | QuitText
  | HeartbeatReply bytes
  | ServerReply bytes
  | ServerClosed

record repl =
  r_net :: net
  r_tx :: cipher_state
  r_rx :: cipher_state
  r_metrics :: session_metrics
  r_printed :: "printed list"

definition print_line :: "printed \<Rightarrow> (repl, unit) act" where
  "print_line p = modifyA (\<lambda>r. r\<lparr>r_printed := r_printed r @ [p]\<rparr>)"

definition repl_count_tx :: "profile \<Rightarrow> nat \<Rightarrow> (repl, unit) act" where
  "repl_count_tx prof n =
     bindA (onA r_net r_net_update instant_now) (\<lambda>now.
     onA r_metrics r_metrics_update (record_tx prof n now))"

definition repl_count_rx :: "profile \<Rightarrow> nat \<Rightarrow> (repl, unit) act" where
  "repl_count_rx prof n =
     bindA (onA r_net r_net_update instant_now) (\<lambda>now.
     onA r_metrics r_metrics_update (record_rx prof n now))"

definition interactive_line ::
  "primitives \<Rightarrow> profile \<Rightarrow> tunnel_client \<Rightarrow> bytes \<Rightarrow> (repl, flow) act" where
  "interactive_line P prof client raw =
     (let line = trim raw in
      if line = [] then ret Continue
      else if line = bytes_of ''/help'' then bindA (print_line HelpText) (\<lambda>_. ret Continue)
      else if line = bytes_of ''/info'' then
        bindA (getsA (\<lambda>r. current_nonce (r_tx r))) (\<lambda>n.
        bindA (print_line (InfoText (tc_target_addr client) (from_utf8_lossy (tc_prologue client)) n)) (\<lambda>_.
        ret Continue))
      else if line = bytes_of ''/stats'' then
        bindA (getsA r_metrics) (\<lambda>m.
        bindA (arithA (total_bytes prof m)) (\<lambda>_.
        bindA (print_line (StatsText m)) (\<lambda>_.
        ret Continue)))
      else if line = bytes_of ''/quit'' \<or> line = bytes_of ''exit'' then
        bindA (print_line QuitText) (\<lambda>_.
        bindA (getsA (\<lambda>r. current_nonce (r_tx r))) (\<lambda>n.
        let close_frame = new_frame Close n [] in
        bindA (repl_count_tx prof (payload_len close_frame + 13)) (\<lambda>_.
        bindA (discard (onA r_net r_net_update (write_to close_frame))) (\<lambda>_.
        ret Break))))
      else if line = bytes_of ''/ping'' then
        bindA (getsA (\<lambda>r. current_nonce (r_tx r))) (\<lambda>tx_nonce.
        bindA (onA r_tx r_tx_update (encrypt P (bytes_of ''PING'') HEARTBEAT_AAD)) (\<lambda>encrypted_ping.
        let frame = new_frame Heartbeat tx_nonce encrypted_ping in
        bindA (repl_count_tx prof (payload_len frame + 13)) (\<lambda>_.
        bindA (onA r_net r_net_update (write_to frame)) (\<lambda>_.
        bindA (onA r_net r_net_update read_from) (\<lambda>reply.
        bindA (repl_count_rx prof (payload_len reply + 13)) (\<lambda>_.
        if wf_msg_type reply = Heartbeat then
          bindA (onA r_rx r_rx_update
                   (decrypt P prof (wf_payload reply) HEARTBEAT_AAD (wf_nonce reply))) (\<lambda>decrypted.
          bindA (print_line (HeartbeatReply (from_utf8_lossy decrypted))) (\<lambda>_.
          ret Continue))
        else ret Continue))))))
      else
        bindA (getsA (\<lambda>r. current_nonce (r_tx r))) (\<lambda>tx_nonce.
        bindA (onA r_tx r_tx_update (encrypt P line DATA_AAD)) (\<lambda>encrypted_data.
        let frame = new_frame DataPayload tx_nonce encrypted_data in
        bindA (repl_count_tx prof (payload_len frame + 13)) (\<lambda>_.
        bindA (onA r_net r_net_update (write_to frame)) (\<lambda>_.
        bindA (onA r_net r_net_update read_from) (\<lambda>reply_frame.
        bindA (repl_count_rx prof (payload_len reply_frame + 13)) (\<lambda>_.
        if wf_msg_type reply_frame = DataPayload then
          bindA (onA r_rx r_rx_update
                   (decrypt P prof (wf_payload reply_frame) DATA_AAD (wf_nonce reply_frame))) (\<lambda>decrypted.
          bindA (print_line (ServerReply (from_utf8_lossy decrypted))) (\<lambda>_.
          ret Continue))
        else if wf_msg_type reply_frame = Close then
          bindA (print_line ServerClosed) (\<lambda>_. ret Break)
        else ret Continue)))))))"

text \<open>
  The loop over the standard input: \<open>None\<close> is a line that cannot be read, the end of the
  list the end of the input.
\<close>

fun interactive_loop ::
  "primitives \<Rightarrow> profile \<Rightarrow> tunnel_client \<Rightarrow> bytes option list \<Rightarrow> repl \<Rightarrow> repl \<times> unit result" where
  "interactive_loop P prof client [] r = (r, Inr ())"
| "interactive_loop P prof client (None # ls) r = (r, Inl (Err Io))"
| "interactive_loop P prof client (Some l # ls) r =
     (case interactive_line P prof client l r of
        (r, Inl e) \<Rightarrow> (r, Inl e)
      | (r, Inr Break) \<Rightarrow> (r, Inr ())
      | (r, Inr Continue) \<Rightarrow> interactive_loop P prof client ls r)"

text \<open>The session on an open connection: what is left of the connection, what was printed.\<close>

definition interactive_session ::
  "primitives \<Rightarrow> profile \<Rightarrow> tunnel_client \<Rightarrow> bytes \<Rightarrow> bytes option list \<Rightarrow> net \<Rightarrow>
   net \<times> printed list \<times> unit result" where
  "interactive_session P prof client os_random lines stream =
     (case perform_handshake P prof (tc_prologue client) (tc_server_pubkey client) os_random stream of
        (stream, Inl e) \<Rightarrow> (stream, [], Inl e)
      | (stream, Inr (tx_cipher, rx_cipher)) \<Rightarrow>
          (case instant_now stream of
             (stream, Inl e) \<Rightarrow> (stream, [], Inl e)
           | (stream, Inr now) \<Rightarrow>
               (case interactive_loop P prof client lines
                       \<lparr>r_net = stream, r_tx = tx_cipher, r_rx = rx_cipher,
                        r_metrics = metrics_new now, r_printed = []\<rparr> of
                  (r, res) \<Rightarrow> (r_net r, r_printed r, res))))"

definition start_interactive_session ::
  "primitives \<Rightarrow> profile \<Rightarrow> tunnel_client \<Rightarrow> net option \<Rightarrow> bytes \<Rightarrow> bytes option list \<Rightarrow>
   net option \<times> printed list \<times> unit result" where
  "start_interactive_session P prof client connect os_random lines =
     (case connect of
        None \<Rightarrow> (None, [], Inl (Err Io))
      | Some stream \<Rightarrow> map_prod Some id (interactive_session P prof client os_random lines stream))"

end
