(* ===== verification/End_To_End.thy ===== *)
theory End_To_End
  imports Client
begin

text \<open>
  The two endpoints together. The bytes one side has sent are the bytes the other side
  reads: a joint run of client and server is a pair of runs in which the input of each is
  the output of the other.
\<close>

section \<open>Sealing and opening by the two ends\<close>

lemma seals_encrypt:
  "seals P c (t, a, m) f \<longleftrightarrow>
     (\<exists>ct. encrypt P m a c = (next_nonce c, Inr ct) \<and> f = new_frame t (cs_nonce c) ct)"
  by (auto simp: seals_def encrypt_Inr next_nonce_def)

lemma seals_decrypt:
  assumes "aead_correct P" "seals P c (t, a, m) f"
  shows "decrypt P prof (wf_payload f) a (wf_nonce f) c = (next_nonce c, Inr m)"
  using assms
  by (auto simp: seals_def aead_correct_def decrypt_Inr next_nonce_def new_frame_def)

lemma seals_size:
  assumes "session_primitives P" "seals P c (t, a, m) f" "length m < aead_limit"
  shows "length (wf_payload f) = length m + 16" "wf_msg_type f = t"
proof -
  obtain ct where ct: "p_seal P (cs_key c) (build_nonce (cs_nonce c)) a m = Some ct"
      "f = new_frame t (cs_nonce c) ct"
    using assms(2) by (auto simp: seals_def)
  then show "length (wf_payload f) = length m + 16" "wf_msg_type f = t"
    using seal_total [OF session_primitivesD(4,5) [OF assms(1)] assms(3)]
    by (metis new_frame_def option.inject wire_frame.select_convs(3)) (simp add: ct new_frame_def)
qed

lemma seals_total:
  assumes "session_primitives P" "length m < aead_limit" "unat (cs_nonce c) + 1 < 2 ^ 64"
  obtains f where "seals P c (t, a, m) f"
proof -
  obtain ct where "p_seal P (cs_key c) (build_nonce (cs_nonce c)) a m = Some ct"
    using seal_total [OF session_primitivesD(4,5) [OF assms(1)] assms(2)] by metis
  then show thesis using that assms(3) by (auto simp: seals_def)
qed

lemma reply_valid:
  "utf8_valid m \<Longrightarrow> from_utf8 (REPLY_PREFIX @ m) = Some (REPLY_PREFIX @ m)"
proof -
  assume m: "utf8_valid m"
  have "utf8_valid REPLY_PREFIX"
    by (rule utf8_valid_ascii) (simp add: REPLY_PREFIX_def bytes_of_def)
  then show ?thesis using m utf8_valid_append [of REPLY_PREFIX m] by (simp add: from_utf8_def)
qed

section \<open>The client's exchange after the handshake\<close>

lemma exchange_run:
  assumes "perform_handshake P prof (tc_prologue client) (tc_server_pubkey client) crand c =
      (n, Inr (tx, rx))" "write_faults n = []"
    and "seals P tx (DataPayload, DATA_AAD, m) f"
  shows "inbox n = serialize g @ rest \<Longrightarrow> valid_frame g \<Longrightarrow> wf_msg_type g = DataPayload \<Longrightarrow>
      decrypt P prof (wf_payload g) DATA_AAD (wf_nonce g) rx = (rx', Inr reply) \<Longrightarrow>
      from_utf8 reply = Some reply \<Longrightarrow>
      secure_exchange P prof client crand m c =
        (n\<lparr>inbox := rest,
          outbox := outbox n @ serialize f @ serialize (close_frame (cs_nonce tx + 1))\<rparr>, Inr reply)"
    and "read_from (n\<lparr>outbox := outbox n @ serialize f\<rparr>) = (n', Inl e) \<Longrightarrow>
      secure_exchange P prof client crand m c = (n', Inl e)"
proof -
  obtain ct where ct: "encrypt P m DATA_AAD tx = (next_nonce tx, Inr ct)"
      "f = new_frame DataPayload (cs_nonce tx) ct"
    using assms(3) by (auto simp: seals_encrypt)
  have w: "write_to f n = (n\<lparr>outbox := outbox n @ serialize f\<rparr>, Inr ())"
    by (rule write_to_clean [OF assms(2)])
  show "secure_exchange P prof client crand m c = (n', Inl e)"
    if "read_from (n\<lparr>outbox := outbox n @ serialize f\<rparr>) = (n', Inl e)"
    using that w by (simp add: secure_exchange_def bindA_case assms(1) ct(1) current_nonce_def
        flip: ct(2))
  assume g: "inbox n = serialize g @ rest" "valid_frame g" "wf_msg_type g = DataPayload"
      "decrypt P prof (wf_payload g) DATA_AAD (wf_nonce g) rx = (rx', Inr reply)"
      "from_utf8 reply = Some reply"
  have r: "read_from (n\<lparr>outbox := outbox n @ serialize f\<rparr>) =
      (n\<lparr>outbox := outbox n @ serialize f, inbox := rest\<rparr>, Inr g)"
    using read_from_serialize [OF g(2), of "n\<lparr>outbox := outbox n @ serialize f\<rparr>" rest] g(1) by simp
  have cl: "write_to (new_frame Close (cs_nonce tx + 1) [])
      (n\<lparr>outbox := outbox n @ serialize f, inbox := rest\<rparr>) =
      (n\<lparr>inbox := rest, outbox := outbox n @ serialize f @ serialize (close_frame (cs_nonce tx + 1))\<rparr>, Inr ())"
    using assms(2) by (simp add: write_to_clean close_frame_def)
  show "secure_exchange P prof client crand m c =
      (n\<lparr>inbox := rest,
        outbox := outbox n @ serialize f @ serialize (close_frame (cs_nonce tx + 1))\<rparr>, Inr reply)"
    using g w r cl by (simp add: secure_exchange_def bindA_case assms(1) ct(1) current_nonce_def
        discard_def ret_def flip: ct(2))
qed

section \<open>The server's session after the handshake\<close>

lemma handle_client_end:
  assumes "server_handshake P prof prologue keys srand s = (n, Inr (rx, tx))" "instant_now n = (n', Inr now)"
    and "transport_loop P prof (start_session n' rx tx now) = (s1, Inr ())" "totals_fit (s_metrics s1)"
  obtains s' where "handle_client_with_prologue P prof keys prologue srand s = (s', Inr ())"
    "outbox s' = outbox (s_net s1)" "inbox s' = inbox (s_net s1)"
proof -
  obtain n1 where "log_session prof s1 = (s1\<lparr>s_net := n1\<rparr>, Inr ())" "inbox n1 = inbox (s_net s1)"
      "outbox n1 = outbox (s_net s1)"
    by (rule log_session_ok [OF assms(4)])
  then show thesis
    using that [of n1] assms(1-3) by (simp add: handle_client_with_prologue_def bindA_case)
qed

lemma handle_client_run:
  assumes "server_handshake P prof prologue keys srand s = (n, Inr (rx, tx))"
    and "\<And>n' now. inbox n' = inbox n \<Longrightarrow> outbox n' = outbox n \<Longrightarrow> write_faults n' = write_faults n \<Longrightarrow>
      \<exists>s1. transport_loop P prof (start_session n' rx tx now) = (s1, Inr ()) \<and>
        outbox (s_net s1) = out \<and> inbox (s_net s1) = rest \<and> totals_fit (s_metrics s1)"
  obtains s' where "handle_client_with_prologue P prof keys prologue srand s = (s', Inr ())"
    "outbox s' = out" "inbox s' = rest"
proof -
  obtain n' now where t: "instant_now n = (n', Inr now)" "inbox n' = inbox n" "outbox n' = outbox n"
      "write_faults n' = write_faults n"
    using instant_now_total by blast
  then obtain s1 where "transport_loop P prof (start_session n' rx tx now) = (s1, Inr ())"
      "outbox (s_net s1) = out" "inbox (s_net s1) = rest" "totals_fit (s_metrics s1)"
    using assms(2) by blast
  with handle_client_end [OF assms(1) t(1)] that show thesis by metis
qed

text \<open>A joint run up to the point where the client reads the reply.\<close>

lemma joint_run:
  assumes "session_primitives P" "length client_random = 32" "length server_random = 32"
    and "keys = from_private_bytes P secret" "length secret = 32"
    and "tc_server_pubkey client = public_key keys" "length m \<le> 65511"
    and reply: "reply = REPLY_PREFIX @ from_utf8_lossy m"
  obtains n f g ck sk start s2c where
    "seals P (cipher_new ck) (DataPayload, DATA_AAD, m) f"
    "seals P (cipher_new sk) (DataPayload, DATA_AAD, reply) g"
    "perform_handshake P prof (tc_prologue client) (tc_server_pubkey client) client_random
       (connection s2c) = (n, Inr (cipher_new ck, cipher_new sk))"
    "inbox n = serialize g" "outbox n = start" "write_faults n = []"
    "\<forall>X k. X = [] \<or> X = serialize (close_frame k) \<longrightarrow>
       (\<exists>s. handle_client_with_prologue P prof' keys (tc_prologue client) server_random
         (connection (start @ serialize f @ X)) = (s, Inr ()) \<and> outbox s = s2c \<and> inbox s = [])"
proof -
  obtain init resp ck sk where
    hc: "\<And>c rest. write_faults c = [] \<Longrightarrow> inbox c = serialize resp @ rest \<Longrightarrow>
       perform_handshake P prof (tc_prologue client) (public_key keys) client_random c =
         (c\<lparr>inbox := rest, outbox := outbox c @ serialize init\<rparr>, Inr (cipher_new ck, cipher_new sk))"
    and hs: "\<And>s rest. write_faults s = [] \<Longrightarrow> inbox s = serialize init @ rest \<Longrightarrow>
       server_handshake P prof' (tc_prologue client) keys server_random s =
         (s\<lparr>inbox := rest, outbox := outbox s @ serialize resp\<rparr>, Inr (cipher_new ck, cipher_new sk))"
    by (rule handshake_runs [OF assms(1-5), where prof = prof and prof' = prof'
        and prologue = "tc_prologue client"]) blast
  have short: "length m < aead_limit" "length reply < aead_limit"
    using assms(7) answer_short [of "Said m"] by (simp_all add: aead_limit_def reply)
  obtain f where f: "seals P (cipher_new ck) (DataPayload, DATA_AAD, m) f"
    by (rule seals_total [OF assms(1) short(1), of "cipher_new ck"]) (simp add: cipher_new_def, blast)
  obtain g where g: "seals P (cipher_new sk) (DataPayload, DATA_AAD, reply) g"
    by (rule seals_total [OF assms(1) short(2), of "cipher_new sk"]) (simp add: cipher_new_def, blast)
  define n where "n = (connection (serialize resp @ serialize g))\<lparr>inbox := serialize g, outbox := serialize init\<rparr>"
  have server: "\<exists>s. handle_client_with_prologue P prof' keys (tc_prologue client) server_random
         (connection (serialize init @ serialize f @ X)) = (s, Inr ()) \<and>
         outbox s = serialize resp @ serialize g \<and> inbox s = []"
    if X: "X = [] \<or> X = serialize (close_frame k)" for X k
  proof -
    define ns where "ns = (connection (serialize init @ serialize f @ X))
        \<lparr>inbox := serialize f @ X, outbox := serialize resp\<rparr>"
    have hand: "server_handshake P prof' (tc_prologue client) keys server_random
        (connection (serialize init @ serialize f @ X)) = (ns, Inr (cipher_new ck, cipher_new sk))"
      using hs [of "connection (serialize init @ serialize f @ X)" "serialize f @ X"]
      by (simp add: ns_def)
    have "\<exists>s. transport_loop P prof' (start_session n' (cipher_new ck) (cipher_new sk) now) = (s, Inr ()) \<and>
        outbox (s_net s) = serialize resp @ serialize g \<and> inbox (s_net s) = [] \<and> totals_fit (s_metrics s)"
      if n': "inbox n' = inbox ns" "outbox n' = outbox ns" "write_faults n' = write_faults ns" for n' now
      using honest_session [OF assms(1), of n' "[Said m]" ck "[f]" sk "[g]" X k prof' now] X f g n' reply assms(7)
      by (simp add: ns_def)
    then show ?thesis
      using handle_client_run [OF hand] by blast
  qed
  show thesis
  proof (rule that [OF f g])
    show "perform_handshake P prof (tc_prologue client) (tc_server_pubkey client) client_random
        (connection (serialize resp @ serialize g)) = (n, Inr (cipher_new ck, cipher_new sk))"
      using hc [of "connection (serialize resp @ serialize g)" "serialize g"] by (simp add: n_def assms(6))
    show "\<forall>X k. X = [] \<or> X = serialize (close_frame k) \<longrightarrow>
       (\<exists>s. handle_client_with_prologue P prof' keys (tc_prologue client) server_random
         (connection (serialize init @ serialize f @ X)) = (s, Inr ()) \<and>
         outbox s = serialize resp @ serialize g \<and> inbox s = [])"
      using server by blast
  qed (simp_all add: n_def)
qed

text \<open>A joint run that delivers one message, the server serving to the end of its input.\<close>

lemma echo_joint:
  assumes P: "session_primitives P"
    and "length client_random = 32" "length server_random = 32"
    and keys: "keys = from_private_bytes P secret" "length secret = 32"
    and client: "tc_server_pubkey client = public_key keys"
    and m: "utf8_valid m" "length m \<le> 65496"
  shows "\<exists>c2s s2c c s.
    secure_exchange P prof client client_random m (connection s2c) = (c, Inr (REPLY_PREFIX @ m)) \<and>
    handle_client_with_prologue P prof' keys (tc_prologue client) server_random (connection c2s) = (s, Inr ()) \<and>
    outbox c = c2s \<and> outbox s = s2c \<and> inbox c = [] \<and> inbox s = []"
proof -
  have reply: "REPLY_PREFIX @ m = REPLY_PREFIX @ from_utf8_lossy m" by (simp add: lossy_valid [OF m(1)])
  have len: "length m \<le> 65511" using m(2) by simp
  obtain n f g ck sk start s2c where run:
    "seals P (cipher_new ck) (DataPayload, DATA_AAD, m) f"
    "seals P (cipher_new sk) (DataPayload, DATA_AAD, REPLY_PREFIX @ m) g"
    "perform_handshake P prof (tc_prologue client) (tc_server_pubkey client) client_random
       (connection s2c) = (n, Inr (cipher_new ck, cipher_new sk))"
    "inbox n = serialize g" "outbox n = start" "write_faults n = []"
    "\<forall>X k. X = [] \<or> X = serialize (close_frame k) \<longrightarrow>
       (\<exists>s. handle_client_with_prologue P prof' keys (tc_prologue client) server_random
         (connection (start @ serialize f @ X)) = (s, Inr ()) \<and> outbox s = s2c \<and> inbox s = [])"
    by (rule joint_run [OF assms(1-6) len reply, where prof = prof and prof' = prof']) (rule that; assumption)
  let ?close = "close_frame (cs_nonce (cipher_new ck) + 1)"
  let ?c = "n\<lparr>inbox := [], outbox := outbox n @ serialize f @ serialize ?close\<rparr>"
  have gv: "valid_frame g" "wf_msg_type g = DataPayload"
    using seals_size [OF P run(2)] m(2)
    by (simp_all add: valid_frame_le REPLY_PREFIX_def bytes_of_def aead_limit_def)
  have "secure_exchange P prof client client_random m (connection s2c) = (?c, Inr (REPLY_PREFIX @ m))"
    by (rule exchange_run(1) [OF run(3,6,1) _ gv seals_decrypt [OF session_primitivesD(4) [OF P] run(2)]
          reply_valid [OF m(1)]]) (simp add: run(4))
  moreover obtain s where "handle_client_with_prologue P prof' keys (tc_prologue client) server_random
      (connection (start @ serialize f @ serialize ?close)) = (s, Inr ())" "outbox s = s2c" "inbox s = []"
    using run(7) by blast
  ultimately show ?thesis
    by (intro exI [of _ "start @ serialize f @ serialize ?close"] exI [of _ s2c] exI [of _ ?c] exI [of _ s])
      (simp add: run(5))
qed

section \<open>Properties\<close>

text \<open>
  C1. End to end: for every UTF-8 message of at most 65496 bytes, every pair of ephemeral
  secrets and every prologue there is a joint run of client and server in which each reads
  exactly what the other has sent, the client returns the message with the server's prefix,
  the server's session ends without an error, and no byte is left over.
\<close>

theorem message_is_echoed:
  assumes P: "session_primitives P"
    and "length client_random = 32" "length server_random = 32"
    and keys: "keys = from_private_bytes P secret" "length secret = 32"
    and client: "tc_server_pubkey client = public_key keys"
    and m: "utf8_valid m" "length m \<le> 65496"
  shows "\<exists>c2s s2c c s.
    secure_exchange P prof client client_random m (connection s2c) = (c, Inr (REPLY_PREFIX @ m)) \<and>
    handle_client_with_prologue P prof' keys (tc_prologue client) server_random (connection c2s) = (s, Inr ()) \<and>
    outbox c = c2s \<and> outbox s = s2c \<and> inbox c = [] \<and> inbox s = []"
  by (rule echo_joint [OF assms])

theorem message_is_echoed_witness:
  "\<exists>c2s s2c c s.
    secure_exchange toy Debug (client_new (replicate 32 5) []) (replicate 32 1) (bytes_of ''hei'') (connection s2c) =
      (c, Inr (bytes_of ''Server mottok: hei'')) \<and>
    handle_client_with_prologue toy Release (from_private_bytes toy (replicate 32 5)) PROTOCOL_NAME
      (replicate 32 2) (connection c2s) = (s, Inr ()) \<and>
    outbox c = c2s \<and> outbox s = s2c"
proof -
  have pub: "tc_server_pubkey (client_new (replicate 32 5) []) = public_key (from_private_bytes toy (replicate 32 5))"
    by (simp add: client_new_def from_private_bytes_def toy_def pad32_id)
  have valid: "utf8_valid (bytes_of ''hei'')"
    by (rule utf8_valid_ascii) (simp add: bytes_of_def)
  have echo: "REPLY_PREFIX @ bytes_of ''hei'' = bytes_of ''Server mottok: hei''"
      "tc_prologue (client_new (replicate 32 5) []) = PROTOCOL_NAME"
    by (simp_all add: REPLY_PREFIX_def bytes_of_def client_new_def)
  have len: "length (bytes_of ''hei'') \<le> 65496"
    by (simp add: bytes_of_def)
  show ?thesis
    using message_is_echoed [OF toy_session _ _ refl _ pub valid len, of "replicate 32 1" "replicate 32 2" Debug Release]
    unfolding echo by (simp only: length_replicate) blast
qed

text \<open>
  C34. The size limit is not enforced where frames are sent, so the echo of a message that
  the server accepts may be a frame that the client's reader refuses: for every UTF-8
  message of 65497 to 65511 bytes the server decrypts and answers it and ends its session
  without an error, while the client reports a frame of 40 bytes more than the message as
  too large.
\<close>

theorem long_echo_is_refused:
  assumes P: "session_primitives P"
    and "length client_random = 32" "length server_random = 32"
    and keys: "keys = from_private_bytes P secret" "length secret = 32"
    and client: "tc_server_pubkey client = public_key keys"
    and m: "utf8_valid m" "65497 \<le> length m" "length m \<le> 65511"
  shows "\<exists>c2s s2c c s.
    secure_exchange P prof client client_random m (connection s2c) =
      (c, Inl (Err (FrameTooLarge (length m + 40)))) \<and>
    handle_client_with_prologue P prof' keys (tc_prologue client) server_random (connection c2s) = (s, Inr ()) \<and>
    outbox c = c2s \<and> outbox s = s2c \<and> inbox s = []"
proof -
  have reply: "REPLY_PREFIX @ m = REPLY_PREFIX @ from_utf8_lossy m" by (simp add: lossy_valid [OF m(1)])
  obtain n f g ck sk start s2c where run:
    "seals P (cipher_new ck) (DataPayload, DATA_AAD, m) f"
    "seals P (cipher_new sk) (DataPayload, DATA_AAD, REPLY_PREFIX @ m) g"
    "perform_handshake P prof (tc_prologue client) (tc_server_pubkey client) client_random
       (connection s2c) = (n, Inr (cipher_new ck, cipher_new sk))"
    "inbox n = serialize g" "outbox n = start" "write_faults n = []"
    "\<forall>X k. X = [] \<or> X = serialize (close_frame k) \<longrightarrow>
       (\<exists>s. handle_client_with_prologue P prof' keys (tc_prologue client) server_random
         (connection (start @ serialize f @ X)) = (s, Inr ()) \<and> outbox s = s2c \<and> inbox s = [])"
    by (rule joint_run [OF assms(1-6) m(3) reply, where prof = prof and prof' = prof']) (rule that; assumption)
  let ?n = "n\<lparr>outbox := outbox n @ serialize f\<rparr>"
  have "length (wf_payload g) = length m + 31"
    using seals_size(1) [OF P run(2)] m(3) by (simp add: REPLY_PREFIX_def bytes_of_def aead_limit_def)
  then have big: "unat (u32_from_be_bytes (take 4 (inbox ?n))) = length m + 40"
    using u32_length_field [of "length m + 40"] m(3)
    by (simp add: run(4) serialize_prefix add.commute)
  have "4 \<le> length (inbox ?n)" by (simp add: run(4))
  then have "read_from ?n = (?n\<lparr>inbox := drop 4 (inbox ?n)\<rparr>, Inl (Err (FrameTooLarge (length m + 40))))"
    using big m(2)
    by (simp add: read_from_def bindA_case read_exact_def throw_def Let_def MAX_FRAME_SIZE_def)
  note exchange_run(2) [OF run(3,6,1) this]
  moreover obtain s where "handle_client_with_prologue P prof' keys (tc_prologue client) server_random
      (connection (start @ serialize f @ [])) = (s, Inr ())" "outbox s = s2c" "inbox s = []"
    using run(7) by blast
  ultimately show ?thesis
    by (intro exI [of _ "start @ serialize f"] exI [of _ s2c]
        exI [of _ "?n\<lparr>inbox := drop 4 (inbox ?n)\<rparr>"] exI [of _ s]) (simp add: run(5))
qed

theorem long_echo_is_refused_witness:
  "\<exists>c2s s2c c s.
    secure_exchange toy Debug (client_new (replicate 32 5) []) (replicate 32 1) (replicate 65500 0x61) (connection s2c) =
      (c, Inl (Err (FrameTooLarge 65540))) \<and>
    handle_client_with_prologue toy Debug (from_private_bytes toy (replicate 32 5)) PROTOCOL_NAME
      (replicate 32 2) (connection c2s) = (s, Inr ()) \<and>
    outbox c = c2s \<and> outbox s = s2c"
proof -
  have pub: "tc_server_pubkey (client_new (replicate 32 5) []) = public_key (from_private_bytes toy (replicate 32 5))"
    by (simp add: client_new_def from_private_bytes_def toy_def pad32_id)
  have valid: "utf8_valid (replicate 65500 0x61)"
    by (rule utf8_valid_ascii) (simp add: list_all_iff)
  have prologue: "tc_prologue (client_new (replicate 32 5) []) = PROTOCOL_NAME"
    by (simp add: client_new_def)
  have len: "65497 \<le> length (replicate 65500 (0x61 :: u8))" "length (replicate 65500 (0x61 :: u8)) \<le> 65511"
      "length (replicate 65500 (0x61 :: u8)) + 40 = 65540"
    by (simp_all only: length_replicate)
  show ?thesis
    using long_echo_is_refused [OF toy_session length_replicate length_replicate refl length_replicate pub valid len(1,2),
        where prof = Debug and prof' = Debug] prologue len(3)
    by metis
qed

end
