(* ===== verification/Interactive.thy ===== *)
theory Interactive
  imports Client
begin

text \<open>
  What the interactive session (theory \<open>Client\<close>, \<open>interactive_loop\<close>) sends, as a function of
  the lines typed: the contract \<open>lines_items\<close> and the proof that the loop implements it.
\<close>

section \<open>The contract\<close>

definition is_quit :: "bytes \<Rightarrow> bool" where
  "is_quit l = (trim l = bytes_of ''/quit'' \<or> trim l = bytes_of ''exit'')"

text \<open>What a line asks to be sent, if anything.\<close>

definition line_item :: "bytes \<Rightarrow> item option" where
  "line_item l =
     (if trim l \<in> {[], bytes_of ''/help'', bytes_of ''/info'', bytes_of ''/stats''} \<or> is_quit l then None
      else if trim l = bytes_of ''/ping'' then Some (Heartbeat, HEARTBEAT_AAD, bytes_of ''PING'')
      else Some (DataPayload, DATA_AAD, trim l))"

fun lines_items :: "bytes option list \<Rightarrow> item list" where
  "lines_items [] = []"
| "lines_items (None # ls) = []"
| "lines_items (Some l # ls) =
     (if is_quit l then []
      else case line_item l of None \<Rightarrow> lines_items ls | Some x \<Rightarrow> x # lines_items ls)"

section \<open>One line\<close>

lemma repl_count_Inr:
  "repl_count_tx prof n r = (r', Inr x) \<Longrightarrow>
     outbox (r_net r') = outbox (r_net r) \<and> r_tx r' = r_tx r \<and> r_rx r' = r_rx r \<and> r_printed r' = r_printed r"
  "repl_count_rx prof n r = (r', Inr x) \<Longrightarrow>
     outbox (r_net r') = outbox (r_net r) \<and> r_tx r' = r_tx r \<and> r_rx r' = r_rx r \<and> r_printed r' = r_printed r"
  using instant_now_total [of "r_net r"]
  by (auto simp: repl_count_tx_def repl_count_rx_def act_Inr)

lemma print_line_Inr:
  "print_line p r = (r', Inr x) \<longleftrightarrow> r' = r\<lparr>r_printed := r_printed r @ [p]\<rparr>"
  by (auto simp: print_line_def modifyA_def)

lemma read_from_outbox: "read_from s = (s', Inr f) \<Longrightarrow> outbox s' = outbox s"
  by (auto simp: read_from_Inr) (metis net.select_convs(2) net.surjective net.update_convs(1))

text \<open>A write whose outcome is dropped has sent a prefix of the frame.\<close>

lemma write_to_prefix: "\<exists>k. outbox (fst (write_to f s)) = outbox s @ take k (serialize f)"
proof (cases "snd (write_all (serialize f) s)")
  case (Inl e)
  then show ?thesis
    by (auto simp: write_to_def bindA_case write_all_def split: list.splits option.splits)
next
  case (Inr u)
  then obtain s1 where s1: "write_all (serialize f) s = (s1, Inr ())"
    by (cases "write_all (serialize f) s") auto
  have "outbox (fst (flush s1)) = outbox s1"
    by (auto simp: flush_def split: list.split option.split)
  then show ?thesis
    using s1 write_all_Inr [OF s1]
    by (intro exI [of _ "length (serialize f)"]) (simp add: write_to_def bindA_case)
qed

lemma discard_write_Inr:
  assumes "discard (onA r_net r_net_update (write_to f)) r = (r', Inr x)"
  shows "r_tx r' = r_tx r \<and> r_printed r' = r_printed r \<and>
    (\<exists>k. outbox (r_net r') = outbox (r_net r) @ take k (serialize f))"
  using assms write_to_prefix [of f "r_net r"]
  by (auto simp: discard_def onA_def split: prod.splits sum.splits fault.splits)

lemma line_quit:
  assumes "interactive_line P prof client l r = (r', Inr x)" "is_quit l"
  shows "x = Break \<and> r_tx r' = r_tx r \<and>
    (\<exists>k. outbox (r_net r') = outbox (r_net r) @ take k (serialize (close_frame (cs_nonce (r_tx r)))))"
  using assms
  by (auto simp: interactive_line_def is_quit_def bytes_of_def Let_def act_Inr print_line_Inr
      current_nonce_def close_frame_def dest!: repl_count_Inr discard_write_Inr split: if_splits)

lemma line_silent:
  assumes "interactive_line P prof client l r = (r', Inr x)" "\<not> is_quit l" "line_item l = None"
  shows "x = Continue \<and> r_tx r' = r_tx r \<and> outbox (r_net r') = outbox (r_net r)"
  using assms
  by (auto simp: interactive_line_def is_quit_def line_item_def Let_def act_Inr print_line_Inr
      arithA_def split: if_splits option.splits)

lemma line_sends:
  assumes "interactive_line P prof client l r = (r', Inr x)" "line_item l = Some y"
  shows "\<exists>f. seals P (r_tx r) y f \<and> r_tx r' = next_nonce (r_tx r) \<and>
    outbox (r_net r') = outbox (r_net r) @ serialize f \<and>
    (x = Break \<longrightarrow> ServerClosed \<in> set (r_printed r'))"
proof (cases "trim l = bytes_of ''/ping''")
  case True
  have y: "y = (Heartbeat, HEARTBEAT_AAD, bytes_of ''PING'')"
    using assms(2) True by (auto simp: line_item_def split: if_splits)
  show ?thesis
    using assms True
    by (auto simp: y interactive_line_def line_item_def is_quit_def Let_def act_Inr print_line_Inr
        current_nonce_def encrypt_Inr decrypt_Inr seals_def next_nonce_def
        dest!: repl_count_Inr write_to_Inr read_from_outbox split: if_splits)
next
  case False
  then have y: "y = (DataPayload, DATA_AAD, trim l)"
    using assms(2) by (auto simp: line_item_def split: if_splits)
  show ?thesis
    using assms False
    by (auto simp: y interactive_line_def line_item_def is_quit_def Let_def act_Inr print_line_Inr
        current_nonce_def encrypt_Inr decrypt_Inr seals_def next_nonce_def
        dest!: repl_count_Inr write_to_Inr read_from_outbox split: if_splits)
qed

section \<open>Properties\<close>

text \<open>
  C24. What the interactive session sends is what was typed: if the loop ends without an
  error, then, whatever the server does, the frames sent are the messages and pings of the
  lines, in order and sealed with consecutive nonces, for all lines up to the quit command
  or the end of input, or up to the line on which the server's \<open>Close\<close> was printed;
  commands send nothing; after them come at most the bytes of a \<open>Close\<close> frame.
\<close>

theorem interactive_sends_what_is_typed:
  assumes "interactive_loop P prof client ls r = (r', Inr ())"
  shows "\<exists>xs ys fs k. lines_items ls = xs @ ys \<and> sealed P (r_tx r) xs fs \<and>
    outbox (r_net r') = outbox (r_net r) @ concat (map serialize fs) @
      take k (serialize (close_frame (cs_nonce (r_tx r) + word_of_nat (length xs)))) \<and>
    (ys = [] \<or> ServerClosed \<in> set (r_printed r'))"
  using assms
proof (induction P prof client ls r rule: interactive_loop.induct)
  case (1 P prof client r)
  then show ?case
    by (intro exI [of _ "[]"] exI [of _ 0]) simp
next
  case (3 P prof client l ls r)
  obtain r1 x where line: "interactive_line P prof client l r = (r1, x)" by fastforce
  obtain fl where x: "x = Inr fl" using 3(2) line by (cases x) auto
  note line = line [unfolded x]
  show ?case
  proof (cases "is_quit l")
    case True
    with 3(2) line line_quit [OF line True] show ?thesis
      by (intro exI [of _ "[]"]) simp
  next
    case quit: False
    show ?thesis
    proof (cases "line_item l")
      case None
      note eff = line_silent [OF line quit None]
      then have "interactive_loop P prof client ls r1 = (r', Inr ())"
        using 3(2) line by simp
      with 3(1) [OF line [symmetric]] eff None quit show ?thesis by simp
    next
      case (Some y)
      obtain f where f: "seals P (r_tx r) y f" "r_tx r1 = next_nonce (r_tx r)"
          "outbox (r_net r1) = outbox (r_net r) @ serialize f"
          "fl = Break \<longrightarrow> ServerClosed \<in> set (r_printed r1)"
        using line_sends [OF line Some] by blast
      show ?thesis
      proof (cases fl)
        case Continue
        then have "interactive_loop P prof client ls r1 = (r', Inr ())"
          using 3(2) line by simp
        with 3(1) [OF line [symmetric]] Continue obtain xs ys fs k where
          "lines_items ls = xs @ ys" "sealed P (r_tx r1) xs fs"
          "outbox (r_net r') = outbox (r_net r1) @ concat (map serialize fs) @
            take k (serialize (close_frame (cs_nonce (r_tx r1) + word_of_nat (length xs))))"
          "ys = [] \<or> ServerClosed \<in> set (r_printed r')"
          by auto
        then show ?thesis
          using f Some quit
          by (intro exI [of _ "y # xs"] exI [of _ ys] exI [of _ "f # fs"] exI [of _ k]) (simp add: ac_simps)
      next
        case Break
        then have "r' = r1" using 3(2) line by simp
        then show ?thesis
          using f Break Some quit
          by (intro exI [of _ "[y]"] exI [of _ "lines_items ls"] exI [of _ "[f]"] exI [of _ 0]) simp
      qed
    qed
  qed
qed simp

theorem interactive_sends_what_is_typed_witness:
  "\<exists>r' xs ys fs k.
    interactive_loop toy Debug (client_new [] []) [Some [], Some (bytes_of ''exit''), Some [0x61]]
      \<lparr>r_net = connection [], r_tx = cipher_new [1], r_rx = cipher_new [2], r_metrics = metrics_new 0, r_printed = []\<rparr> =
      (r', Inr ()) \<and>
    lines_items [Some [], Some (bytes_of ''exit''), Some [0x61]] = xs @ ys \<and>
    sealed toy (cipher_new [1]) xs fs \<and>
    outbox (r_net r') = concat (map serialize fs) @ take k (serialize (close_frame (word_of_nat (length xs))))"
proof -
  define r :: repl where "r = \<lparr>r_net = connection [], r_tx = cipher_new [1], r_rx = cipher_new [2],
      r_metrics = metrics_new 0, r_printed = []\<rparr>"
  have trims: "trim [] = []" "trim (bytes_of ''exit'') = bytes_of ''exit''"
    by (rule trim_printable, simp add: printable_ascii_def bytes_of_def)+
  have other: "bytes_of ''exit'' \<noteq> []" "bytes_of ''exit'' \<noteq> bytes_of ''/help''"
      "bytes_of ''exit'' \<noteq> bytes_of ''/info''" "bytes_of ''exit'' \<noteq> bytes_of ''/stats''"
    by (simp_all add: bytes_of_def)
  have count: "repl_count_tx Debug n s = (s\<lparr>r_metrics := fst (record_tx Debug n 0 (r_metrics s))\<rparr>,
      snd (record_tx Debug n 0 (r_metrics s)))" if "ticks (r_net s) = []" "clock (r_net s) = 0" for n s
    using that by (simp add: repl_count_tx_def bindA_case onA_def instant_now_def split: prod.split)
  have rec: "\<exists>m. record_tx Debug 13 0 (metrics_new 0) = (m, Inr ())"
    by (simp add: record_Inr metrics_new_def)
  have exit: "\<exists>r'. interactive_line toy Debug (client_new [] []) (bytes_of ''exit'') r = (r', Inr Break)"
    using rec
    by (auto simp: interactive_line_def trims other Let_def bindA_case getsA_def print_line_def
        modifyA_def ret_def discard_def onA_def count r_def connection_def payload_len_def new_frame_def
        write_to_clean)
  have empty: "interactive_line toy Debug (client_new [] []) [] r = (r, Inr Continue)"
    by (simp add: interactive_line_def trims ret_def)
  obtain r' where run: "interactive_loop toy Debug (client_new [] [])
      [Some [], Some (bytes_of ''exit''), Some [0x61]] r = (r', Inr ())"
    using exit empty by auto
  have init: "outbox (r_net r) = []" "r_tx r = cipher_new [1]" "cs_nonce (cipher_new [1]) = 0"
    by (simp_all add: r_def cipher_new_def)
  show ?thesis
    using interactive_sends_what_is_typed [OF run] run
    unfolding init r_def [symmetric] append_Nil add_0 by blast
qed

end
