(* ===== verification/Dialogue.thy ===== *)
theory Dialogue
  imports Interactive End_To_End
begin

text \<open>
  The interactive client and the server together: what each typed line brings back, line by
  line, and the joint run of a whole session over the two byte streams.
\<close>

section \<open>What a typed line asks and what it shows\<close>

definition line_event :: "bytes \<Rightarrow> event option" where
  "line_event l =
     (if line_item l = None then None
      else if trim l = bytes_of ''/ping'' then Some (Pinged (bytes_of ''PING''))
      else Some (Said (trim l)))"

fun typed_events :: "bytes list \<Rightarrow> event list" where
  "typed_events [] = []"
| "typed_events (l # ls) =
     (if is_quit l then []
      else case line_event l of None \<Rightarrow> typed_events ls | Some e \<Rightarrow> e # typed_events ls)"

fun shown :: "event \<Rightarrow> printed" where
  "shown (Said m) = ServerReply (REPLY_PREFIX @ m)"
| "shown (Pinged m) = HeartbeatReply PONG"

text \<open>The printed lines that come from the server.\<close>

fun is_answer :: "printed \<Rightarrow> bool" where
  "is_answer (ServerReply _) = True"
| "is_answer (HeartbeatReply _) = True"
| "is_answer ServerClosed = True"
| "is_answer _ = False"

lemma line_event_item: "line_item l = map_option request_item (line_event l)"
  by (auto simp: line_event_def line_item_def)

lemma is_quit_no_event: "is_quit l \<Longrightarrow> line_event l = None"
  by (simp add: line_event_def line_item_def)

section \<open>Room in the client's counters\<close>

definition calm :: "nat \<Rightarrow> nat \<Rightarrow> session_metrics \<Rightarrow> bool" where
  "calm i j m \<longleftrightarrow>
     unat (bytes_sent m) + i * 2 ^ 18 < 2 ^ 63 \<and> unat (frames_sent m) + i < 2 ^ 64 \<and>
     unat (bytes_received m) + j * 2 ^ 18 < 2 ^ 63 \<and> unat (frames_received m) + j < 2 ^ 64"

definition same_ends :: "repl \<Rightarrow> repl \<Rightarrow> bool" where
  "same_ends r r' \<longleftrightarrow>
     inbox (r_net r') = inbox (r_net r) \<and> outbox (r_net r') = outbox (r_net r) \<and>
     write_faults (r_net r') = write_faults (r_net r) \<and>
     r_tx r' = r_tx r \<and> r_rx r' = r_rx r \<and> r_printed r' = r_printed r"

lemma repl_count_ok:
  assumes "n \<le> 2 ^ 18"
  shows "calm (Suc i) j (r_metrics r) \<Longrightarrow>
      \<exists>r'. repl_count_tx prof n r = (r', Inr ()) \<and> calm i j (r_metrics r') \<and> same_ends r r'"
    and "calm i (Suc j) (r_metrics r) \<Longrightarrow>
      \<exists>r'. repl_count_rx prof n r = (r', Inr ()) \<and> calm i j (r_metrics r') \<and> same_ends r r'"
proof -
  obtain n' t where t: "instant_now (r_net r) = (n', Inr t)" "inbox n' = inbox (r_net r)"
      "outbox n' = outbox (r_net r)" "write_faults n' = write_faults (r_net r)"
    using instant_now_total [of "r_net r"] by blast
  have len: "unat (word_of_nat n :: u64) = n" using assms by (simp add: unat_of_nat)
  let ?m = "r_metrics r"
  show "\<exists>r'. repl_count_tx prof n r = (r', Inr ()) \<and> calm i j (r_metrics r') \<and> same_ends r r'"
    if c: "calm (Suc i) j ?m"
  proof -
    let ?m' = "?m\<lparr>bytes_sent := bytes_sent ?m + word_of_nat n, frames_sent := frames_sent ?m + 1, last_activity := t\<rparr>"
    have fit: "unat (bytes_sent ?m) + unat (word_of_nat n :: u64) < 2 ^ 64" "unat (frames_sent ?m) + 1 < 2 ^ 64"
      using c assms by (auto simp: calm_def len)
    then have "record_tx prof n t ?m = (?m', Inr ())" by (simp add: record_Inr)
    moreover have "calm i j ?m'"
      using c assms fit by (auto simp: calm_def unat_plus_u64 unat_suc_u64 len)
    ultimately show ?thesis
      using t by (auto simp: repl_count_tx_def bindA_case onA_def same_ends_def)
  qed
  show "\<exists>r'. repl_count_rx prof n r = (r', Inr ()) \<and> calm i j (r_metrics r') \<and> same_ends r r'"
    if c: "calm i (Suc j) ?m"
  proof -
    let ?m' = "?m\<lparr>bytes_received := bytes_received ?m + word_of_nat n, frames_received := frames_received ?m + 1,
      last_activity := t\<rparr>"
    have fit: "unat (bytes_received ?m) + unat (word_of_nat n :: u64) < 2 ^ 64" "unat (frames_received ?m) + 1 < 2 ^ 64"
      using c assms by (auto simp: calm_def len)
    then have "record_rx prof n t ?m = (?m', Inr ())" by (simp add: record_Inr)
    moreover have "calm i j ?m'"
      using c assms fit by (auto simp: calm_def unat_plus_u64 unat_suc_u64 len)
    ultimately show ?thesis
      using t by (auto simp: repl_count_rx_def bindA_case onA_def same_ends_def)
  qed
qed

section \<open>One line\<close>

lemma bind_reads:
  "bindA (getsA g) k s = k (g s) s"
  "c (sel s) = (x, Inr v) \<Longrightarrow> bindA (onA sel upd c) k s = k v (upd (\<lambda>_. x) s)"
  by (simp_all add: bindA_case getsA_def onA_def)

text \<open>The common tail of a message and a ping: count, write, read the answer, count.\<close>

lemma turn_tail:
  assumes "write_faults (r_net r) = []" "calm (Suc i) (Suc j) (r_metrics r)"
    and "inbox (r_net r) = serialize g @ rest" "valid_frame g" "payload_len f + 13 \<le> 2 ^ 18"
  obtains r' where
    "\<And>K. bindA (repl_count_tx prof (payload_len f + 13)) (\<lambda>_.
      bindA (onA r_net r_net_update (write_to f)) (\<lambda>_.
      bindA (onA r_net r_net_update read_from) (\<lambda>reply.
      bindA (repl_count_rx prof (payload_len reply + 13)) (\<lambda>_. K reply)))) r = K g r'"
    "calm i j (r_metrics r')" "r_tx r' = r_tx r" "r_rx r' = r_rx r" "r_printed r' = r_printed r"
    "inbox (r_net r') = rest" "outbox (r_net r') = outbox (r_net r) @ serialize f"
    "write_faults (r_net r') = []"
proof -
  obtain r1 where r1: "repl_count_tx prof (payload_len f + 13) r = (r1, Inr ())" "calm i (Suc j) (r_metrics r1)"
      "same_ends r r1"
    using repl_count_ok(1) [OF assms(5,2)] by blast
  let ?r2 = "r1\<lparr>r_net := (r_net r1)\<lparr>outbox := outbox (r_net r) @ serialize f\<rparr>\<rparr>"
  let ?r3 = "?r2\<lparr>r_net := (r_net ?r2)\<lparr>inbox := rest\<rparr>\<rparr>"
  have w: "onA r_net r_net_update (write_to f) r1 = (?r2, Inr ())"
    using r1(3) assms(1) by (simp add: onA_def write_to_clean same_ends_def)
  have rd: "onA r_net r_net_update read_from ?r2 = (?r3, Inr g)"
    using r1(3) assms(3) read_from_serialize [OF assms(4), of "r_net ?r2" rest]
    by (simp add: onA_def same_ends_def)
  have "payload_len g + 13 \<le> 2 ^ 18" using assms(4) by (simp add: valid_frame_le payload_len_def)
  then obtain r4 where r4: "repl_count_rx prof (payload_len g + 13) ?r3 = (r4, Inr ())" "calm i j (r_metrics r4)"
      "same_ends ?r3 r4"
    using repl_count_ok(2) [of "payload_len g + 13" i j ?r3 prof] r1(2) by auto
  show thesis
    by (rule that [of r4])
      (use r1 w rd r4 assms(1) in \<open>auto simp: bindA_case same_ends_def\<close>)
qed

lemma answer_fits:
  assumes "session_primitives P" "seals P c (answer_item e) g" "length (event_text e) \<le> 65496"
    and "utf8_valid (event_text e)"
  shows "valid_frame g"
    and "wf_msg_type g = (case e of Said _ \<Rightarrow> DataPayload | Pinged _ \<Rightarrow> Heartbeat)"
proof -
  have len: "length (snd (snd (answer_item e))) \<le> 65511"
    using assms(3,4) by (cases e) (simp_all add: lossy_valid REPLY_PREFIX_def PONG_def)
  obtain t a m where item: "answer_item e = (t, a, m)" by (cases "answer_item e") auto
  have "length (wf_payload g) = length m + 16" "wf_msg_type g = t"
    using seals_size [OF assms(1), of c t a m g] assms(2) len by (simp_all add: item aead_limit_def)
  then show "valid_frame g" "wf_msg_type g = (case e of Said _ \<Rightarrow> DataPayload | Pinged _ \<Rightarrow> Heartbeat)"
    using len item by (cases e; auto simp: valid_frame_le)+
qed

lemma line_answered:
  assumes P: "session_primitives P" and l: "line_event l = Some e"
    and r: "write_faults (r_net r) = []" "calm (Suc i) (Suc j) (r_metrics r)"
    and f: "seals P (r_tx r) (request_item e) f" and g: "seals P (r_rx r) (answer_item e) g"
    and io: "inbox (r_net r) = serialize g @ rest"
    and e: "length (event_text e) \<le> 65496" "utf8_valid (event_text e)"
  shows "\<exists>r'. interactive_line P prof client l r = (r', Inr Continue) \<and> calm i j (r_metrics r') \<and>
    r_tx r' = next_nonce (r_tx r) \<and> r_rx r' = next_nonce (r_rx r) \<and> write_faults (r_net r') = [] \<and>
    inbox (r_net r') = rest \<and> outbox (r_net r') = outbox (r_net r) @ serialize f \<and>
    r_printed r' = r_printed r @ [shown e]"
proof -
  have laws: "aead_correct P" using session_primitivesD(4) [OF P] .
  obtain t a m where item: "request_item e = (t, a, m)" by (cases "request_item e") auto
  then have m: "m = event_text e" by (cases e) auto
  obtain ct where ct: "encrypt P m a (r_tx r) = (next_nonce (r_tx r), Inr ct)" "f = new_frame t (cs_nonce (r_tx r)) ct"
    using f by (auto simp: item seals_encrypt)
  have size: "payload_len f + 13 \<le> 2 ^ 18"
    using seals_size(1) [OF P, of "r_tx r" t a m f] f item e(1) by (simp add: m aead_limit_def payload_len_def)
  let ?r = "r\<lparr>r_tx := next_nonce (r_tx r)\<rparr>"
  obtain r1 where tail:
    "\<And>K. bindA (repl_count_tx prof (payload_len f + 13)) (\<lambda>_.
      bindA (onA r_net r_net_update (write_to f)) (\<lambda>_.
      bindA (onA r_net r_net_update read_from) (\<lambda>reply.
      bindA (repl_count_rx prof (payload_len reply + 13)) (\<lambda>_. K reply)))) ?r = (K g r1 :: repl \<times> flow result)"
    and eff: "calm i j (r_metrics r1)" "r_tx r1 = next_nonce (r_tx r)" "r_rx r1 = r_rx r" "r_printed r1 = r_printed r"
    "inbox (r_net r1) = rest" "outbox (r_net r1) = outbox (r_net r) @ serialize f" "write_faults (r_net r1) = []"
    by (rule turn_tail [of ?r i j g rest f prof]) (use r io answer_fits(1) [OF P g e] size in auto)
  have out: "\<not> is_quit l" "trim l \<noteq> []" "trim l \<noteq> bytes_of ''/help''" "trim l \<noteq> bytes_of ''/info''"
      "trim l \<noteq> bytes_of ''/stats''"
    using l by (auto simp: line_event_def line_item_def split: if_splits)
  then have quit: "trim l \<noteq> bytes_of ''/quit''" "trim l \<noteq> bytes_of ''exit''" by (auto simp: is_quit_def)
  show ?thesis
  proof (cases e)
    case (Said msg)
    then have s: "trim l \<noteq> bytes_of ''/ping''" "trim l = msg" "t = DataPayload" "a = DATA_AAD" "m = msg"
      using l item by (auto simp: line_event_def split: if_splits)
    have lossy: "from_utf8_lossy msg = msg" using e(2) Said by (simp add: lossy_valid)
    have "utf8_valid (REPLY_PREFIX @ msg)" using reply_valid [of msg] e(2) Said by (simp add: from_utf8_def split: if_splits)
    then have lossy2: "from_utf8_lossy (REPLY_PREFIX @ msg) = REPLY_PREFIX @ msg" by (rule lossy_valid)
    have dec: "decrypt P prof (wf_payload g) DATA_AAD (wf_nonce g) (r_rx r) = (next_nonce (r_rx r), Inr (REPLY_PREFIX @ msg))"
      using seals_decrypt [OF laws] g Said lossy by simp
    let ?K = "\<lambda>reply. if wf_msg_type reply = DataPayload
         then bindA (onA r_rx r_rx_update (decrypt P prof (wf_payload reply) DATA_AAD (wf_nonce reply))) (\<lambda>decrypted.
           bindA (print_line (ServerReply (from_utf8_lossy decrypted))) (\<lambda>_. ret Continue))
         else if wf_msg_type reply = Close then bindA (print_line ServerClosed) (\<lambda>_. ret Break)
         else ret Continue"
    have "interactive_line P prof client l r = ?K g r1"
      using ct(1) s(5)
      by (simp add: interactive_line_def Let_def out [unfolded s(2)] quit [unfolded s(2)] s(1) [unfolded s(2)] s(2)
          bind_reads current_nonce_def flip: tail [of ?K] add: ct(2) s(3,4))
    then have "interactive_line P prof client l r =
        (r1\<lparr>r_rx := next_nonce (r_rx r), r_printed := r_printed r @ [ServerReply (REPLY_PREFIX @ msg)]\<rparr>, Inr Continue)"
      using answer_fits(2) [OF P g e] Said dec eff(3,4)
      by (simp add: bindA_case onA_def print_line_def modifyA_def ret_def lossy2)
    with eff Said show ?thesis by simp
  next
    case (Pinged msg)
    then have s: "trim l = bytes_of ''/ping''" "msg = bytes_of ''PING''" "t = Heartbeat" "a = HEARTBEAT_AAD" "m = msg"
      using l item by (auto simp: line_event_def split: if_splits)
    have "utf8_valid PONG" by (rule utf8_valid_ascii) (simp add: PONG_def bytes_of_def)
    then have lossy: "from_utf8_lossy PONG = PONG" by (rule lossy_valid)
    have dec: "decrypt P prof (wf_payload g) HEARTBEAT_AAD (wf_nonce g) (r_rx r) = (next_nonce (r_rx r), Inr PONG)"
      using seals_decrypt [OF laws] g Pinged by simp
    let ?K = "\<lambda>reply. if wf_msg_type reply = Heartbeat
         then bindA (onA r_rx r_rx_update (decrypt P prof (wf_payload reply) HEARTBEAT_AAD (wf_nonce reply))) (\<lambda>decrypted.
           bindA (print_line (HeartbeatReply (from_utf8_lossy decrypted))) (\<lambda>_. ret Continue))
         else ret Continue"
    have "interactive_line P prof client l r = ?K g r1"
      using ct(1) s(5)
      by (simp add: interactive_line_def Let_def out [unfolded s(1)] quit [unfolded s(1)] s(1,2)
          bind_reads current_nonce_def flip: tail [of ?K] add: ct(2) s(3,4))
    then have "interactive_line P prof client l r =
        (r1\<lparr>r_rx := next_nonce (r_rx r), r_printed := r_printed r @ [HeartbeatReply PONG]\<rparr>, Inr Continue)"
      using answer_fits(2) [OF P g e] Pinged dec eff(3,4)
      by (simp add: bindA_case onA_def print_line_def modifyA_def ret_def lossy)
    with eff Pinged show ?thesis by simp
  qed
qed

text \<open>A line that asks for nothing prints, at most, something of the client's own.\<close>

lemma line_keeps_quiet:
  assumes "line_event l = None" "\<not> is_quit l" "calm i j (r_metrics r)"
  shows "\<exists>ps. interactive_line P prof client l r = (r\<lparr>r_printed := r_printed r @ ps\<rparr>, Inr Continue) \<and>
    filter is_answer ps = []"
proof -
  let ?m = "r_metrics r"
  have total: "total_bytes prof ?m = Some (bytes_sent ?m + bytes_received ?m)"
    using assms(3) by (simp add: total_bytes_def calm_def u64_add_def)
  have ne: "bytes_of ''/help'' \<noteq> []" "bytes_of ''/info'' \<noteq> []" "bytes_of ''/stats'' \<noteq> []"
      "bytes_of ''/info'' \<noteq> bytes_of ''/help''" "bytes_of ''/stats'' \<noteq> bytes_of ''/help''"
      "bytes_of ''/stats'' \<noteq> bytes_of ''/info''"
    by (simp_all add: bytes_of_def)
  note run = interactive_line_def Let_def ne total bindA_case getsA_def print_line_def modifyA_def ret_def arithA_def
  have "line_item l = None" using assms(1) by (simp add: line_event_item)
  then consider "trim l = []" | "trim l = bytes_of ''/help''" | "trim l = bytes_of ''/info''"
    | "trim l = bytes_of ''/stats''"
    using assms(2) by (auto simp: line_item_def split: if_splits)
  then show ?thesis
  proof cases
    case 1
    then show ?thesis by (intro exI [of _ "[]"]) (simp add: run)
  next
    case 2
    then show ?thesis by (intro exI [of _ "[HelpText]"]) (simp add: run)
  next
    case 3
    then show ?thesis
      by (intro exI [of _ "[InfoText (tc_target_addr client) (from_utf8_lossy (tc_prologue client))
          (current_nonce (r_tx r))]"]) (simp add: run)
  next
    case 4
    then show ?thesis by (intro exI [of _ "[StatsText ?m]"]) (simp add: run)
  qed
qed

text \<open>The quit command sends \<open>Close\<close> and ends the session.\<close>

lemma line_quits:
  assumes "is_quit l" "calm (Suc i) j (r_metrics r)" "write_faults (r_net r) = []"
  shows "\<exists>r'. interactive_line P prof client l r = (r', Inr Break) \<and> inbox (r_net r') = inbox (r_net r) \<and>
    outbox (r_net r') = outbox (r_net r) @ serialize (close_frame (cs_nonce (r_tx r))) \<and>
    r_printed r' = r_printed r @ [QuitText]"
proof -
  let ?r = "r\<lparr>r_printed := r_printed r @ [QuitText]\<rparr>" and ?f = "close_frame (cs_nonce (r_tx r))"
  obtain r1 where r1: "repl_count_tx prof (payload_len ?f + 13) ?r = (r1, Inr ())" "same_ends ?r r1"
    using repl_count_ok(1) [of "payload_len ?f + 13" i j ?r prof] assms(2)
    by (auto simp: close_frame_def new_frame_def payload_len_def)
  then show ?thesis
    using assms(1,3)
    by (auto simp: interactive_line_def is_quit_def bytes_of_def Let_def bindA_case getsA_def print_line_def
        modifyA_def ret_def discard_def onA_def current_nonce_def close_frame_def write_to_clean same_ends_def)
qed

section \<open>All lines\<close>

lemma client_dialogue:
  assumes P: "session_primitives P"
  shows "write_faults (r_net r) = [] \<Longrightarrow> calm (length ls) (length ls) (r_metrics r) \<Longrightarrow>
    list_all (\<lambda>e. length (event_text e) \<le> 65496 \<and> utf8_valid (event_text e)) (typed_events ls) \<Longrightarrow>
    sealed P (r_tx r) (map request_item (typed_events ls)) fs \<Longrightarrow>
    sealed P (r_rx r) (map answer_item (typed_events ls)) gs \<Longrightarrow>
    inbox (r_net r) = concat (map serialize gs) \<Longrightarrow>
    \<exists>r' X k. interactive_loop P prof client (map Some ls) r = (r', Inr ()) \<and>
      filter is_answer (r_printed r') = filter is_answer (r_printed r) @ map shown (typed_events ls) \<and>
      inbox (r_net r') = [] \<and> outbox (r_net r') = outbox (r_net r) @ concat (map serialize fs) @ X \<and>
      (X = [] \<or> X = serialize (close_frame k))"
proof (induction ls arbitrary: r fs gs)
  case Nil
  then show ?case by auto
next
  case (Cons l ls)
  have calm: "calm (length ls) (length ls) (r_metrics r)" "calm (Suc (length ls)) (Suc (length ls)) (r_metrics r)"
    using Cons.prems(2) by (simp_all add: calm_def)
  show ?case
  proof (cases "is_quit l")
    case True
    obtain r' where "interactive_line P prof client l r = (r', Inr Break)" "inbox (r_net r') = inbox (r_net r)"
        "outbox (r_net r') = outbox (r_net r) @ serialize (close_frame (cs_nonce (r_tx r)))"
        "r_printed r' = r_printed r @ [QuitText]"
      using line_quits [OF True calm(2) Cons.prems(1)] by blast
    then show ?thesis using Cons.prems(4-6) True by auto
  next
    case quit: False
    show ?thesis
    proof (cases "line_event l")
      case None
      obtain ps where ps: "interactive_line P prof client l r = (r\<lparr>r_printed := r_printed r @ ps\<rparr>, Inr Continue)"
          "filter is_answer ps = []"
        using line_keeps_quiet [OF None quit calm(1)] by blast
      then show ?thesis
        using Cons.IH [of "r\<lparr>r_printed := r_printed r @ ps\<rparr>" fs gs] Cons.prems None quit calm(1) by simp
    next
      case (Some e)
      then have es: "typed_events (l # ls) = e # typed_events ls" using quit by simp
      obtain f fs' where fs: "fs = f # fs'" "seals P (r_tx r) (request_item e) f"
          "sealed P (next_nonce (r_tx r)) (map request_item (typed_events ls)) fs'"
        using Cons.prems(4) by (cases fs) (simp_all only: es list.map sealed.simps)
      obtain g gs' where gs: "gs = g # gs'" "seals P (r_rx r) (answer_item e) g"
          "sealed P (next_nonce (r_rx r)) (map answer_item (typed_events ls)) gs'"
        using Cons.prems(5) by (cases gs) (simp_all only: es list.map sealed.simps)
      have io: "inbox (r_net r) = serialize g @ concat (map serialize gs')"
        using Cons.prems(6) gs(1) by simp
      have e: "length (event_text e) \<le> 65496" "utf8_valid (event_text e)"
        using Cons.prems(3) unfolding es by simp_all
      obtain r1 where r1: "interactive_line P prof client l r = (r1, Inr Continue)"
          "calm (length ls) (length ls) (r_metrics r1)" "r_tx r1 = next_nonce (r_tx r)"
          "r_rx r1 = next_nonce (r_rx r)" "write_faults (r_net r1) = []"
          "inbox (r_net r1) = concat (map serialize gs')"
          "outbox (r_net r1) = outbox (r_net r) @ serialize f" "r_printed r1 = r_printed r @ [shown e]"
        using line_answered [OF P Some Cons.prems(1) calm(2) fs(2) gs(2) io e] by blast
      have "is_answer (shown e)" by (cases e) simp_all
      then show ?thesis
        using Cons.IH [OF r1(5,2), of fs' gs'] Cons.prems(3) r1 fs gs unfolding es by simp
    qed
  qed
qed

section \<open>The whole session on both sides\<close>

lemma dialogue_fits:
  assumes "list_all (\<lambda>e. length (event_text e) \<le> 65496 \<and> utf8_valid (event_text e)) es"
  shows "list_all (\<lambda>x. length (snd (snd x)) < aead_limit) (map request_item es)"
    and "list_all (\<lambda>x. length (snd (snd x)) < aead_limit) (map answer_item es)"
    and "list_all (\<lambda>e. length (event_text e) \<le> 65511) es"
proof -
  have "length (snd (snd (request_item e))) < aead_limit \<and> length (snd (snd (answer_item e))) < aead_limit"
    if "length (event_text e) \<le> 65496" "utf8_valid (event_text e)" for e
    using that by (cases e) (simp_all add: lossy_valid REPLY_PREFIX_def PONG_def bytes_of_def aead_limit_def)
  with assms show "list_all (\<lambda>x. length (snd (snd x)) < aead_limit) (map request_item es)"
      "list_all (\<lambda>x. length (snd (snd x)) < aead_limit) (map answer_item es)"
      "list_all (\<lambda>e. length (event_text e) \<le> 65511) es"
    by (auto simp: list_all_iff)
qed

lemma typed_events_short: "length (typed_events ls) \<le> length ls"
  by (induction ls) (auto split: option.split)

lemma typed_session_served:
  assumes P: "session_primitives P"
    and "length client_random = 32" "length server_random = 32"
    and keys: "keys = from_private_bytes P secret" "length secret = 32"
    and client: "tc_server_pubkey client = public_key keys"
    and ls: "length ls < 2 ^ 40"
      "list_all (\<lambda>e. length (event_text e) \<le> 65496 \<and> utf8_valid (event_text e)) (typed_events ls)"
  shows "\<exists>c2s s2c c shows s.
    interactive_session P prof client client_random (map Some ls) (connection s2c) = (c, shows, Inr ()) \<and>
    handle_client_with_prologue P prof' keys (tc_prologue client) server_random (connection c2s) = (s, Inr ()) \<and>
    outbox c = c2s \<and> outbox s = s2c \<and> inbox c = [] \<and> inbox s = [] \<and>
    filter is_answer shows = map shown (typed_events ls)"
proof -
  let ?es = "typed_events ls"
  obtain init resp ck sk where
    hc: "\<And>c rest. write_faults c = [] \<Longrightarrow> inbox c = serialize resp @ rest \<Longrightarrow>
       perform_handshake P prof (tc_prologue client) (public_key keys) client_random c =
         (c\<lparr>inbox := rest, outbox := outbox c @ serialize init\<rparr>, Inr (cipher_new ck, cipher_new sk))"
    and hs: "\<And>s rest. write_faults s = [] \<Longrightarrow> inbox s = serialize init @ rest \<Longrightarrow>
       server_handshake P prof' (tc_prologue client) keys server_random s =
         (s\<lparr>inbox := rest, outbox := outbox s @ serialize resp\<rparr>, Inr (cipher_new ck, cipher_new sk))"
    by (rule handshake_runs [OF assms(1-5), where prof = prof and prof' = prof'
        and prologue = "tc_prologue client"]) blast
  have few: "length ?es < 2 ^ 40" using ls(1) typed_events_short [of ls] by simp
  obtain fs where fs: "sealed P (cipher_new ck) (map request_item ?es) fs"
    using sealed_exists [OF P dialogue_fits(1) [OF ls(2)], of "cipher_new ck"] few by (auto simp: cipher_new_def)
  obtain gs where gs: "sealed P (cipher_new sk) (map answer_item ?es) gs"
    using sealed_exists [OF P dialogue_fits(2) [OF ls(2)], of "cipher_new sk"] few by (auto simp: cipher_new_def)
  define s2c where "s2c = serialize resp @ concat (map serialize gs)"
  define c1 where "c1 = (connection s2c)\<lparr>inbox := concat (map serialize gs), outbox := serialize init\<rparr>"
  have hand: "perform_handshake P prof (tc_prologue client) (tc_server_pubkey client) client_random (connection s2c) =
      (c1, Inr (cipher_new ck, cipher_new sk))"
    using hc [of "connection s2c" "concat (map serialize gs)"] by (simp add: client c1_def s2c_def)
  obtain c2 now where now: "instant_now c1 = (c2, Inr now)" "inbox c2 = inbox c1" "outbox c2 = outbox c1"
      "write_faults c2 = write_faults c1"
    using instant_now_total by blast
  let ?r = "\<lparr>r_net = c2, r_tx = cipher_new ck, r_rx = cipher_new sk, r_metrics = metrics_new now, r_printed = []\<rparr>"
  have "calm (length ls) (length ls) (r_metrics ?r)"
    using ls(1) by (simp add: calm_def metrics_new_def)
  then obtain r X k where r: "interactive_loop P prof client (map Some ls) ?r = (r, Inr ())"
      "filter is_answer (r_printed r) = map shown ?es" "inbox (r_net r) = []"
      "outbox (r_net r) = outbox c1 @ concat (map serialize fs) @ X" "X = [] \<or> X = serialize (close_frame k)"
    using client_dialogue [OF P, of ?r ls fs gs prof client] ls(2) fs gs now by (auto simp: c1_def)
  define ns where "ns = (connection (serialize init @ concat (map serialize fs) @ X))
      \<lparr>inbox := concat (map serialize fs) @ X, outbox := serialize resp\<rparr>"
  have serve: "\<exists>s1. transport_loop P prof' (start_session n' (cipher_new ck) (cipher_new sk) now) = (s1, Inr ()) \<and>
      outbox (s_net s1) = s2c \<and> inbox (s_net s1) = [] \<and> totals_fit (s_metrics s1)"
    if "inbox n' = inbox ns" "outbox n' = outbox ns" "write_faults n' = write_faults ns" for n' now
    using honest_session [OF P _ few dialogue_fits(3) [OF ls(2)] fs gs _ r(5), of n' prof' now] that
    by (simp add: ns_def s2c_def)
  have "server_handshake P prof' (tc_prologue client) keys server_random
      (connection (serialize init @ concat (map serialize fs) @ X)) = (ns, Inr (cipher_new ck, cipher_new sk))"
    using hs [of "connection (serialize init @ concat (map serialize fs) @ X)" "concat (map serialize fs) @ X"]
    by (simp add: ns_def)
  then obtain s where s: "handle_client_with_prologue P prof' keys (tc_prologue client) server_random
      (connection (serialize init @ concat (map serialize fs) @ X)) = (s, Inr ())" "outbox s = s2c" "inbox s = []"
    by (rule handle_client_run [OF _ serve]) (use serve in blast)+
  have "interactive_session P prof client client_random (map Some ls) (connection s2c) = (r_net r, r_printed r, Inr ())"
    using hand now(1) r(1) by (simp add: interactive_session_def)
  then show ?thesis
    using s r by (intro exI [of _ "serialize init @ concat (map serialize fs) @ X"] exI [of _ s2c] exI [of _ "r_net r"]
        exI [of _ "r_printed r"] exI [of _ s]) (simp add: c1_def)
qed

section \<open>Properties\<close>

text \<open>
  C7. The interactive session and the server together: whatever is typed, as long as each
  message is UTF-8 of at most 65496 bytes after trimming and there are fewer than 2^40 lines,
  there is a joint run in which each side reads exactly what the other has written; both end
  without an error and nothing is left over, and the answers printed are, in order, the
  echo of each message and \<open>PONG\<close> for each ping up to the quit command or the end of the
  input. Commands and empty lines bring no answer.
\<close>

theorem interactive_session_is_served:
  assumes "session_primitives P"
    and "length client_random = 32" "length server_random = 32"
    and "keys = from_private_bytes P secret" "length secret = 32"
    and "tc_server_pubkey client = public_key keys"
    and "length ls < 2 ^ 40"
    and "list_all (\<lambda>e. length (event_text e) \<le> 65496 \<and> utf8_valid (event_text e)) (typed_events ls)"
  shows "\<exists>c2s s2c c shows s.
    interactive_session P prof client client_random (map Some ls) (connection s2c) = (c, shows, Inr ()) \<and>
    handle_client_with_prologue P prof' keys (tc_prologue client) server_random (connection c2s) = (s, Inr ()) \<and>
    outbox c = c2s \<and> outbox s = s2c \<and> inbox c = [] \<and> inbox s = [] \<and>
    filter is_answer shows = map shown (typed_events ls)"
  by (rule typed_session_served [OF assms])

theorem interactive_session_is_served_witness:
  "\<exists>c2s s2c c shows s.
    interactive_session toy Debug (client_new (replicate 32 5) []) (replicate 32 1)
      (map Some [bytes_of ''/ping'', bytes_of ''hei'', bytes_of ''/stats'', bytes_of ''/quit'', bytes_of ''x''])
      (connection s2c) = (c, shows, Inr ()) \<and>
    handle_client_with_prologue toy Release (from_private_bytes toy (replicate 32 5)) PROTOCOL_NAME
      (replicate 32 2) (connection c2s) = (s, Inr ()) \<and>
    outbox c = c2s \<and> outbox s = s2c \<and>
    filter is_answer shows = [HeartbeatReply (bytes_of ''PONG''), ServerReply (bytes_of ''Server mottok: hei'')]"
proof -
  let ?ls = "[bytes_of ''/ping'', bytes_of ''hei'', bytes_of ''/stats'', bytes_of ''/quit'', bytes_of ''x'']"
  have trims: "trim (bytes_of ''/ping'') = bytes_of ''/ping''" "trim (bytes_of ''hei'') = bytes_of ''hei''"
      "trim (bytes_of ''/stats'') = bytes_of ''/stats''" "trim (bytes_of ''/quit'') = bytes_of ''/quit''"
    by (rule trim_printable, simp add: printable_ascii_def bytes_of_def)+
  have es: "typed_events ?ls = [Pinged (bytes_of ''PING''), Said (bytes_of ''hei'')]"
    by (simp add: line_event_def line_item_def is_quit_def trims) (simp add: bytes_of_def)
  have "utf8_valid (bytes_of ''PING'')" "utf8_valid (bytes_of ''hei'')"
    by (rule utf8_valid_ascii, simp add: bytes_of_def)+
  then have fits: "list_all (\<lambda>e. length (event_text e) \<le> 65496 \<and> utf8_valid (event_text e)) (typed_events ?ls)"
    unfolding es by (simp add: bytes_of_def)
  have pub: "tc_server_pubkey (client_new (replicate 32 5) []) = public_key (from_private_bytes toy (replicate 32 5))"
    by (simp add: client_new_def from_private_bytes_def toy_def pad32_id)
  have few: "length ?ls < 2 ^ 40" and prologue: "tc_prologue (client_new (replicate 32 5) []) = PROTOCOL_NAME"
    and shown: "map shown [Pinged (bytes_of ''PING''), Said (bytes_of ''hei'')] =
      [HeartbeatReply (bytes_of ''PONG''), ServerReply (bytes_of ''Server mottok: hei'')]"
    by (simp_all add: client_new_def PONG_def REPLY_PREFIX_def) (simp add: bytes_of_def)
  show ?thesis
    using interactive_session_is_served [OF toy_session length_replicate length_replicate refl length_replicate
        pub few fits, where prof = Debug and prof' = Release]
    unfolding es shown prologue by blast
qed

end
