(* ===== verification/Determinacy.thy ===== *)
theory Determinacy
  imports Dialogue
begin

text \<open>
  Joint runs of client and server are determined: the theorems of \<open>End_To_End\<close> and
  \<open>Dialogue\<close> show that there is a run in which each side reads exactly what the other has
  written; here every such run is shown to be that one. Each side writes before it waits,
  so what it has read determines how its output begins.
\<close>

section \<open>Output only grows\<close>

definition appends :: "('s \<Rightarrow> net) \<Rightarrow> ('s, 'a) act \<Rightarrow> bool" where
  "appends get m \<longleftrightarrow> (\<forall>s. \<exists>b. outbox (get (fst (m s))) = outbox (get s) @ b)"

lemma appends_bind: "appends get m \<Longrightarrow> (\<And>x. appends get (k x)) \<Longrightarrow> appends get (bindA m k)"
proof -
  assume m: "appends get m" and k: "\<And>x. appends get (k x)"
  have "\<exists>b. outbox (get (fst (bindA m k s))) = outbox (get s) @ b" for s
  proof -
    obtain s1 r where s1: "m s = (s1, r)" by fastforce
    obtain b1 where b1: "outbox (get s1) = outbox (get s) @ b1" using m s1 unfolding appends_def by (metis fst_conv)
    show ?thesis
    proof (cases r)
      case (Inr x)
      obtain b2 where "outbox (get (fst (k x s1))) = outbox (get s1) @ b2" using k unfolding appends_def by blast
      then show ?thesis using s1 Inr b1 by (simp add: bindA_case)
    qed (use s1 b1 in \<open>simp add: bindA_case\<close>)
  qed
  then show ?thesis by (simp add: appends_def)
qed

lemma appends_simple: "appends get (ret x)" "appends get (throw e)" "appends get (getsA g)" "appends get (arithA v)"
  by (auto simp: appends_def ret_def throw_def getsA_def arithA_def)

lemma read_from_outbox_same: "outbox (fst (read_from n)) = outbox n"
  by (subst read_from_only_inbox) simp

lemma appends_net:
  "\<exists>b. outbox (fst (write_to f n)) = outbox n @ b"
  "\<exists>b. outbox (fst (instant_now n)) = outbox n @ b"
  using write_to_prefix [of f n] instant_now_total [of n] by auto

lemma appends_on_net:
  assumes "\<And>n. \<exists>b. outbox (fst (m n)) = outbox n @ b"
  shows "appends s_net (onA s_net s_net_update m)" "appends r_net (onA r_net r_net_update m)"
proof -
  have "\<exists>b. outbox (fst (case m n of (x, r) \<Rightarrow> (x, r))) = outbox n @ b" for n using assms by simp
  then show "appends s_net (onA s_net s_net_update m)" "appends r_net (onA r_net r_net_update m)"
    by (simp_all add: appends_def onA_def case_prod_beta)
qed

lemma appends_session:
  "appends s_net (onA s_net s_net_update (write_to f))" "appends s_net (onA s_net s_net_update instant_now)"
  "appends s_net (onA s_rx s_rx_update c)" "appends s_net (onA s_tx s_tx_update c)"
  "appends s_net (onA s_replay s_replay_update v)" "appends s_net (onA s_metrics s_metrics_update m)"
  by (rule appends_on_net(1), rule appends_net)+ (simp_all add: appends_def onA_def case_prod_beta)

lemma appends_turn: "appends s_net (transport_step P prof)"
proof -
  have count: "appends s_net (count_rx prof n)" "appends s_net (count_tx prof n)" for n
    unfolding count_rx_def count_tx_def by (intro appends_bind appends_session)+
  have serve: "appends s_net (serve_frame P prof f)" for f
    unfolding serve_frame_def Let_def
    by (cases "wf_msg_type f"; simp only: message_type.case;
        intro appends_bind appends_simple appends_session count)
  have "\<exists>b. outbox (s_net (fst (transport_step P prof s))) = outbox (s_net s) @ b" for s
  proof -
    obtain n res where read: "read_from (s_net s) = (n, res)" by fastforce
    have out: "outbox n = outbox (s_net s)" using read_from_outbox_same [of "s_net s"] read by simp
    show ?thesis
    proof (cases res)
      case (Inl e)
      then show ?thesis using read out by (cases e) (simp_all add: transport_step_def onA_def)
    next
      case (Inr f)
      have "appends s_net (bindA (count_rx prof (payload_len f + 13)) (\<lambda>_. serve_frame P prof f))"
        by (intro appends_bind count serve)
      then obtain b where "outbox (s_net (fst (bindA (count_rx prof (payload_len f + 13)) (\<lambda>_. serve_frame P prof f)
          (s\<lparr>s_net := n\<rparr>)))) = outbox n @ b"
        unfolding appends_def by (metis session.select_convs(1) session.surjective session.update_convs(1))
      then show ?thesis using read Inr out by (simp add: transport_step_def onA_def)
    qed
  qed
  then show ?thesis by (simp add: appends_def)
qed

lemma appends_loop: "\<exists>b. outbox (s_net (fst (transport_loop P prof s))) = outbox (s_net s) @ b"
proof (induction P prof s rule: transport_loop.induct)
  case (1 P prof s)
  obtain s1 x where step: "transport_step P prof s = (s1, x)" by fastforce
  obtain b where b: "outbox (s_net s1) = outbox (s_net s) @ b"
    using appends_turn step unfolding appends_def by (metis fst_conv)
  show ?case
  proof (cases "x = Inr Continue")
    case True
    then obtain b' where "outbox (s_net (fst (transport_loop P prof s1))) = outbox (s_net s1) @ b'"
      using 1 [of s1 "Inr Continue" Continue] step by auto
    then show ?thesis using step True b by (subst transport_loop.simps) simp
  next
    case False
    then show ?thesis
      using step b by (subst transport_loop.simps) (auto split: sum.split flow.split)
  qed
qed

section \<open>The first thing each side writes\<close>

definition silent :: "('s \<Rightarrow> net) \<Rightarrow> ('s, 'a) act \<Rightarrow> bool" where
  "silent get m \<longleftrightarrow> (\<forall>s. outbox (get (fst (m s))) = outbox (get s))"

lemma silent_bind: "silent get m \<Longrightarrow> (\<And>x. silent get (k x)) \<Longrightarrow> silent get (bindA m k)"
  unfolding silent_def bindA_def
  by (metis (mono_tags, lifting) case_prod_beta fst_conv old.sum.simps(5,6) sum.exhaust_sel)

lemma silent_basic:
  "silent get (ret x)" "silent get (throw e)" "silent get (liftA r)" "silent get (on_local c m)"
  "silent (\<lambda>n. n) read_from" "silent r_net (onA r_net r_net_update read_from)"
  "silent r_net (onA r_rx r_rx_update d)" "silent r_net (onA r_metrics r_metrics_update t)"
  "silent r_net (print_line p)"
  by (simp_all add: silent_def ret_def throw_def liftA_def on_local_def read_from_outbox_same onA_def
      print_line_def modifyA_def case_prod_beta)

lemma silent_now: "silent r_net (onA r_net r_net_update instant_now)"
  using instant_now_total by (auto simp: silent_def onA_def case_prod_beta) (metis fst_conv)

lemma silent_if: "silent get m \<Longrightarrow> silent get m' \<Longrightarrow> silent get (if b then m else m')"
  by simp

lemma silent_pair: "(\<And>a b. silent get (k a b)) \<Longrightarrow> silent get (case x of (a, b) \<Rightarrow> k a b)"
  by (cases x) simp

lemmas silent_intros = silent_bind silent_basic silent_if silent_pair

lemma silent_count: "silent r_net (repl_count_rx prof n)"
  unfolding repl_count_rx_def by (intro silent_bind silent_now silent_basic)

text \<open>The client writes the same first frame whatever it will read.\<close>

lemma handshake_output:
  assumes "write_faults c = []" "write_faults c' = []"
  shows "\<exists>b. outbox (fst (perform_handshake P prof prologue pub rnd c)) = outbox c @ b \<and>
    outbox (fst (perform_handshake P prof prologue pub rnd c')) = outbox c' @ b"
proof -
  define h1 where "h1 = hash_handshake_state P prologue (eph_public_key (ephemeral_generate P rnd)) pub None"
  define ds where "ds = ephemeral_diffie_hellman P (ephemeral_generate P rnd) pub"
  note unf = perform_handshake_def Let_def h1_def [symmetric] ds_def [symmetric]
  show ?thesis
  proof (cases "derive_session_keys P ds h1")
    case (Inl e)
    then show ?thesis by (simp add: unf bindA_case [of "liftA _"] liftA_apply)
  next
    case (Inr k)
    obtain ki ki' where k: "derive_session_keys P ds h1 = Inr (ki, ki')" using Inr by (cases k) auto
    show ?thesis
    proof (cases "snd (encrypt P INIT_TEXT h1 (cipher_new ki))")
      case (Inl e)
      then show ?thesis by (simp add: unf bindA_case [of "liftA _"] bindA_case [of "on_local _ _"] liftA_apply k on_local_apply)
    next
      case (Inr ct)
      define f where "f = new_frame HandshakeInit 0 (eph_public_key (ephemeral_generate P rnd) @ ct)"
      obtain K where K: "silent (\<lambda>n. n) K" "\<And>c. perform_handshake P prof prologue pub rnd c = bindA (write_to f) (\<lambda>_. K) c"
      proof (rule that)
        show "perform_handshake P prof prologue pub rnd c = bindA (write_to f) (\<lambda>_. bindA read_from (\<lambda>resp_frame.
            if wf_msg_type resp_frame \<noteq> HandshakeResp
            then throw (Err (ExpectedHandshakeResp (wf_msg_type resp_frame)))
            else if length (wf_payload resp_frame) < KEY_LEN + 16 then throw (Err RespPayloadSize)
            else
              bindA (liftA (slice_to KEY_LEN (wf_payload resp_frame))) (\<lambda>source.
              bindA (liftA (copy_from_slice KEY_LEN source)) (\<lambda>server_ephemeral_pub.
              bindA (liftA (slice_from KEY_LEN (wf_payload resp_frame))) (\<lambda>resp_ciphertext.
              let dh_ephem = ephemeral_diffie_hellman P (ephemeral_generate P rnd) server_ephemeral_pub;
                  h2 = hash_handshake_state P prologue (eph_public_key (ephemeral_generate P rnd)) pub
                         (Some server_ephemeral_pub)
              in
              bindA (liftA (derive_session_keys P dh_ephem h2)) (\<lambda>(_, k_resp_s).
              bindA (on_local (cipher_new k_resp_s) (decrypt P prof resp_ciphertext h2 0)) (\<lambda>resp_ack.
              if resp_ack \<noteq> ACK_TEXT then throw (Err BadHandshakeAck)
              else
                let combined_secret = ephemeral_diffie_hellman P (ephemeral_generate P rnd) pub @ dh_ephem in
                bindA (liftA (derive_session_keys P combined_secret h2)) (\<lambda>(client_write_key, server_write_key).
                ret (cipher_new client_write_key, cipher_new server_write_key))))))))) c" for c
          by (simp add: unf bindA_case [of "liftA _"] bindA_case [of "on_local _ _"] liftA_apply k on_local_apply Inr f_def)
      qed (unfold Let_def, intro silent_intros)
      have "outbox (fst (perform_handshake P prof prologue pub rnd n)) = outbox n @ serialize f"
        if "write_faults n = []" for n
        using K(1) write_to_clean [OF that, of f] by (simp add: K(2) bindA_case silent_def)
      then show ?thesis using assms by blast
    qed
  qed
qed

text \<open>After the handshake the client writes its message before it reads.\<close>

lemma exchange_output:
  assumes "perform_handshake P prof (tc_prologue client) (tc_server_pubkey client) rnd c = (n, Inr (tx, rx))"
    and "write_faults n = []" "seals P tx (DataPayload, DATA_AAD, m) f"
  shows "\<exists>b. outbox (fst (secure_exchange P prof client rnd m c)) = outbox n @ serialize f @ b"
proof -
  obtain ct where ct: "encrypt P m DATA_AAD tx = (next_nonce tx, Inr ct)"
      "f = new_frame DataPayload (cs_nonce tx) ct"
    using assms(3) by (auto simp: seals_encrypt)
  let ?n = "n\<lparr>outbox := outbox n @ serialize f\<rparr>"
  have wr: "write_to f n = (?n, Inr ())" by (rule write_to_clean [OF assms(2)])
  obtain n' res where rd: "read_from ?n = (n', res)" by fastforce
  then have out: "outbox n' = outbox n @ serialize f" using read_from_outbox_same [of ?n] by simp
  have "\<exists>b. outbox (fst (write_to h n')) = outbox n @ serialize f @ b" for h
    using appends_net(1) [of h n'] out by simp
  with out show ?thesis
    by (cases res) (auto simp: secure_exchange_def bindA_case assms(1) ct(1) current_nonce_def wr rd throw_def
        discard_def ret_def split: prod.split sum.split fault.split option.split simp flip: ct(2), (metis fst_conv)+)
qed

lemma discard_fst: "fst (discard m s) = fst (m s)"
  by (simp add: discard_def split: prod.split sum.split fault.split)

lemma appends_cases:
  "(\<And>c e. appends get (F c e)) \<Longrightarrow> (\<And>c y. appends get (G c y)) \<Longrightarrow>
     appends get (case r of (c, Inl e) \<Rightarrow> F c e | (c, Inr y) \<Rightarrow> G c y)"
  "appends get m \<Longrightarrow> (\<And>y. appends get (K y)) \<Longrightarrow> appends get (case v of None \<Rightarrow> m | Some y \<Rightarrow> K y)"
  "appends get m \<Longrightarrow> appends get m' \<Longrightarrow> appends get (if q then m else m')"
  by (auto split: prod.split sum.split option.split)

lemma exchange_extends:
  "\<exists>b. outbox (fst (secure_exchange P prof client rnd m c)) =
     outbox (fst (perform_handshake P prof (tc_prologue client) (tc_server_pubkey client) rnd c)) @ b"
proof -
  obtain n h where h: "perform_handshake P prof (tc_prologue client) (tc_server_pubkey client) rnd c = (n, h)"
    by fastforce
  have ops: "appends (\<lambda>n. n) (write_to f)" "appends (\<lambda>n. n) read_from" "appends (\<lambda>n. n) (discard (write_to f))" for f
    unfolding appends_def discard_fst using appends_net(1) by (simp_all add: read_from_outbox_same)
  obtain K where K: "secure_exchange P prof client rnd m =
      bindA (perform_handshake P prof (tc_prologue client) (tc_server_pubkey client) rnd) (\<lambda>(tx, rx). K tx rx)"
    and app: "\<And>tx rx. appends (\<lambda>n. n) (K tx rx)"
    by (rule that [OF secure_exchange_def])
      (unfold Let_def, intro appends_cases appends_bind appends_simple ops)
  show ?thesis
  proof (cases h)
    case (Inl e)
    then show ?thesis using h by (simp add: K bindA_case)
  next
    case (Inr k)
    then obtain tx rx where "h = Inr (tx, rx)" by (cases k) auto
    then show ?thesis using h app [of tx rx] by (simp add: K bindA_case appends_def)
  qed
qed

lemma served_run:
  assumes "server_handshake P prof prologue keys rnd s = (n, Inr (rx, tx))"
    and "handle_client_with_prologue P prof keys prologue rnd s = (s', y)"
  obtains n' now z y' where "inbox n' = inbox n" "outbox n' = outbox n" "write_faults n' = write_faults n"
    "transport_loop P prof (start_session n' rx tx now) = (z, y')"
    "inbox s' = inbox (s_net z)" "outbox s' = outbox (s_net z)"
    "y' = Inr () \<and> totals_fit (s_metrics z) \<longrightarrow> y = Inr ()"
proof -
  obtain n' now where t: "instant_now n = (n', Inr now)" "inbox n' = inbox n" "outbox n' = outbox n"
      "write_faults n' = write_faults n"
    using instant_now_total by blast
  obtain z y' where z: "transport_loop P prof (start_session n' rx tx now) = (z, y')" by fastforce
  have "inbox s' = inbox (s_net z) \<and> outbox s' = outbox (s_net z) \<and>
      (y' = Inr () \<and> totals_fit (s_metrics z) \<longrightarrow> y = Inr ())"
  proof (cases y')
    case (Inl e)
    then show ?thesis using assms t(1) z by (simp add: handle_client_with_prologue_def bindA_case)
  next
    case (Inr u)
    obtain z' r where l: "log_session prof z = (z', r)" by fastforce
    then have sy: "s' = s_net z'" "y = r"
      using assms t(1) z Inr by (simp_all add: handle_client_with_prologue_def bindA_case)
    have "r = Inr ()" if "totals_fit (s_metrics z)"
      by (rule log_session_ok [OF that, of prof]) (simp add: l)
    then show ?thesis using log_session_net [of prof z] l sy by simp
  qed
  then show thesis using that [OF t(2-4) z] by simp
qed

section \<open>The exchange of one message\<close>

lemma joint_start:
  assumes P: "session_primitives P"
    and "length client_random = 32" "length server_random = 32"
    and keys: "keys = from_private_bytes P secret" "length secret = 32"
    and ext: "\<exists>b. outbox c =
      outbox (fst (perform_handshake P prof pro (public_key keys) client_random (connection (outbox s)))) @ b"
    and s: "handle_client_with_prologue P prof' keys pro server_random (connection (outbox c)) = (s, y)"
  obtains ck sk init resp X Y n' now z y' where
    "outbox c = serialize init @ X" "outbox s = serialize resp @ Y"
    "perform_handshake P prof pro (public_key keys) client_random (connection (outbox s)) =
      ((connection (outbox s))\<lparr>inbox := Y, outbox := serialize init\<rparr>, Inr (cipher_new ck, cipher_new sk))"
    "inbox n' = X" "outbox n' = serialize resp" "write_faults n' = []"
    "transport_loop P prof' (start_session n' (cipher_new ck) (cipher_new sk) now) = (z, y')"
    "inbox s = inbox (s_net z)" "outbox s = outbox (s_net z)"
    "y' = Inr () \<and> totals_fit (s_metrics z) \<longrightarrow> y = Inr ()"
proof -
  obtain init resp ck sk where
    hc: "\<And>c rest. write_faults c = [] \<Longrightarrow> inbox c = serialize resp @ rest \<Longrightarrow>
       perform_handshake P prof pro (public_key keys) client_random c =
         (c\<lparr>inbox := rest, outbox := outbox c @ serialize init\<rparr>, Inr (cipher_new ck, cipher_new sk))"
    and hs: "\<And>s rest. write_faults s = [] \<Longrightarrow> inbox s = serialize init @ rest \<Longrightarrow>
       server_handshake P prof' pro keys server_random s =
         (s\<lparr>inbox := rest, outbox := outbox s @ serialize resp\<rparr>, Inr (cipher_new ck, cipher_new sk))"
    by (rule handshake_runs [OF assms(1-5), where prof = prof and prof' = prof' and prologue = pro]) blast
  have "outbox (fst (perform_handshake P prof pro (public_key keys) client_random (connection (outbox s)))) = serialize init"
    using handshake_output [of "connection (outbox s)" "connection (serialize resp)" P prof pro "public_key keys" client_random]
      hc [of "connection (serialize resp)" "[]"] by auto
  then obtain X where X: "outbox c = serialize init @ X" using ext by auto
  have "server_handshake P prof' pro keys server_random (connection (outbox c)) =
      ((connection (outbox c))\<lparr>inbox := X, outbox := serialize resp\<rparr>, Inr (cipher_new ck, cipher_new sk))"
    using hs [of "connection (outbox c)" X] X by simp
  then obtain n' now z y' where z:
    "inbox n' = X" "outbox n' = serialize resp" "write_faults n' = []"
    "transport_loop P prof' (start_session n' (cipher_new ck) (cipher_new sk) now) = (z, y')"
    "inbox s = inbox (s_net z)" "outbox s = outbox (s_net z)"
    "y' = Inr () \<and> totals_fit (s_metrics z) \<longrightarrow> y = Inr ()"
    by (rule served_run [OF _ s]) (rule that; simp)
  obtain Y where Y: "outbox s = serialize resp @ Y"
    using appends_loop [of P prof' "start_session n' (cipher_new ck) (cipher_new sk) now"] z(2,4,6) by auto
  have "perform_handshake P prof pro (public_key keys) client_random (connection (outbox s)) =
      ((connection (outbox s))\<lparr>inbox := Y, outbox := serialize init\<rparr>, Inr (cipher_new ck, cipher_new sk))"
    using hc [of "connection (outbox s)" Y] Y by simp
  from that [OF X Y this z] show thesis .
qed

lemma exchange_determined:
  assumes P: "session_primitives P"
    and "length client_random = 32" "length server_random = 32"
    and keys: "keys = from_private_bytes P secret" "length secret = 32"
    and client: "tc_server_pubkey client = public_key keys"
    and m: "utf8_valid m" "length m \<le> 65496"
    and c: "secure_exchange P prof client client_random m (connection (outbox s)) = (c, x)"
    and s: "handle_client_with_prologue P prof' keys (tc_prologue client) server_random (connection (outbox c)) = (s, y)"
  shows "x = Inr (REPLY_PREFIX @ m) \<and> y = Inr () \<and> inbox c = [] \<and> inbox s = []"
proof -
  let ?pro = "tc_prologue client"
  have ext: "\<exists>b. outbox c =
      outbox (fst (perform_handshake P prof ?pro (public_key keys) client_random (connection (outbox s)))) @ b"
    using exchange_extends [of P prof client client_random m "connection (outbox s)"] c client by simp
  obtain ck sk init resp X Y n' now z y' where X: "outbox c = serialize init @ X" and Y: "outbox s = serialize resp @ Y"
    and hand': "perform_handshake P prof ?pro (public_key keys) client_random (connection (outbox s)) =
      ((connection (outbox s))\<lparr>inbox := Y, outbox := serialize init\<rparr>, Inr (cipher_new ck, cipher_new sk))"
    and z: "inbox n' = X" "outbox n' = serialize resp" "write_faults n' = []"
    "transport_loop P prof' (start_session n' (cipher_new ck) (cipher_new sk) now) = (z, y')"
    "inbox s = inbox (s_net z)" "outbox s = outbox (s_net z)"
    "y' = Inr () \<and> totals_fit (s_metrics z) \<longrightarrow> y = Inr ()"
    by (rule joint_start [OF assms(1-5) ext s])
  let ?s0 = "start_session n' (cipher_new ck) (cipher_new sk) now"
  have start: "cs_nonce (cipher_new k) = 0" for k by (simp add: cipher_new_def)
  have reply: "answer_item (Said m) = (DataPayload, DATA_AAD, REPLY_PREFIX @ m)"
    by (simp add: lossy_valid [OF m(1)])
  have short: "length m < aead_limit" "length (REPLY_PREFIX @ m) < aead_limit"
    using m(2) by (simp_all add: aead_limit_def REPLY_PREFIX_def bytes_of_def)
  obtain f where f: "seals P (cipher_new ck) (DataPayload, DATA_AAD, m) f"
    by (rule seals_total [OF P short(1), of "cipher_new ck"]) (simp add: start, blast)
  obtain g where g: "seals P (cipher_new sk) (DataPayload, DATA_AAD, REPLY_PREFIX @ m) g"
    by (rule seals_total [OF P short(2), of "cipher_new sk"]) (simp add: start, blast)
  txt \<open>The client writes its message before it reads.\<close>
  let ?nc = "(connection (outbox s))\<lparr>inbox := Y, outbox := serialize init\<rparr>"
  have hand: "perform_handshake P prof ?pro (tc_server_pubkey client) client_random (connection (outbox s)) =
      (?nc, Inr (cipher_new ck, cipher_new sk))"
    using hand' by (simp add: client)
  have clean: "write_faults ?nc = []" by simp
  obtain Z where "outbox c = serialize init @ serialize f @ Z"
    using exchange_output [OF hand clean f] c by auto
  with X have "X = serialize f @ Z" by simp
  txt \<open>The server answers it.\<close>
  have io: "inbox (s_net ?s0) = concat (map serialize [f]) @ Z" using z(1) \<open>X = serialize f @ Z\<close> by simp
  have room: "room (length [Said m]) ?s0" by (rule room_start) (use z(3) in simp_all)
  have f': "sealed P (s_rx ?s0) (map request_item [Said m]) [f]" using f by simp
  have fits: "list_all (\<lambda>e. length (event_text e) \<le> 65511) [Said m]" using m(2) by simp
  obtain s1 gs where s1: "transport_loop P prof' ?s0 = transport_loop P prof' s1" "room 0 s1"
      "sealed P (cipher_new sk) (map answer_item [Said m]) gs" "inbox (s_net s1) = Z"
      "outbox (s_net s1) = serialize resp @ concat (map serialize gs)"
    using honest_turns [OF P room f' fits io, where prof = prof'] z(2) by auto
  then have run1: "transport_loop P prof' s1 = (z, y')" using z(4) by simp
  have "gs = [g]" by (rule sealed_unique [OF _ s1(3)]) (use g reply in simp)
  with s1 have out1: "outbox (s_net s1) = serialize resp @ serialize g" by simp
  obtain W where "outbox s = serialize resp @ serialize g @ W"
    using appends_loop [of P prof' s1] out1 run1 z(6) by auto
  with Y have W: "Y = serialize g @ W" by simp
  txt \<open>The client reads the answer and closes; the server reads the \<open>Close\<close> frame.\<close>
  have gv: "valid_frame g" "wf_msg_type g = DataPayload"
    using seals_size [OF P g short(2)] m(2) by (simp_all add: valid_frame_le REPLY_PREFIX_def bytes_of_def)
  let ?close = "close_frame (cs_nonce (cipher_new ck) + 1)"
  have "secure_exchange P prof client client_random m (connection (outbox s)) =
      (?nc\<lparr>inbox := W, outbox := outbox ?nc @ serialize f @ serialize ?close\<rparr>, Inr (REPLY_PREFIX @ m))"
    by (rule exchange_run(1) [OF hand clean f _ gv seals_decrypt [OF session_primitivesD(4) [OF P] g]
          reply_valid [OF m(1)]]) (simp add: W)
  then have cl: "outbox c = serialize init @ serialize f @ serialize ?close" "inbox c = W" "x = Inr (REPLY_PREFIX @ m)"
    using c by auto
  then have "inbox (s_net s1) = serialize ?close @ []"
    using s1(4) \<open>X = serialize f @ Z\<close> X by simp
  then obtain s2 where s2: "transport_loop P prof' s1 = (s2, Inr ())" "inbox (s_net s2) = []"
      "outbox (s_net s2) = outbox (s_net s1)" "totals_fit (s_metrics s2)"
    by (rule close_ends_loop [rotated, where P = P and prof = prof'])
      (use s1(2) in \<open>auto simp: room_def close_frame_def new_frame_def valid_frame_le\<close>)
  then have "z = s2" "y = Inr ()" using s1(1) z(4,7) by simp_all
  moreover have "W = []"
    using s2(3) out1 z(6) \<open>z = s2\<close> \<open>outbox s = serialize resp @ serialize g @ W\<close> by simp
  ultimately show ?thesis using cl s2(2) z(5) by simp
qed

section \<open>The interactive session\<close>

text \<open>A line that asks for something first sends its frame; the rest of its turn writes nothing.\<close>

lemma line_writes:
  assumes l: "line_event l = Some e" and f: "seals P (r_tx r) (request_item e) f"
    and r: "write_faults (r_net r) = []" "calm (Suc i) j (r_metrics r)" "payload_len f + 13 \<le> 2 ^ 18"
  shows "outbox (r_net (fst (interactive_line P prof client l r))) = outbox (r_net r) @ serialize f"
proof -
  obtain t a m where item: "request_item e = (t, a, m)" by (cases "request_item e") auto
  obtain ct where ct: "encrypt P m a (r_tx r) = (next_nonce (r_tx r), Inr ct)" "f = new_frame t (cs_nonce (r_tx r)) ct"
    using f by (auto simp: item seals_encrypt)
  have out: "\<not> is_quit l" "trim l \<noteq> []" "trim l \<noteq> bytes_of ''/help''" "trim l \<noteq> bytes_of ''/info''"
      "trim l \<noteq> bytes_of ''/stats''"
    using l by (auto simp: line_event_def line_item_def split: if_splits)
  then have quit: "trim l \<noteq> bytes_of ''/quit''" "trim l \<noteq> bytes_of ''exit''" by (auto simp: is_quit_def)
  have "\<exists>K. silent r_net K \<and> interactive_line P prof client l r =
      bindA (repl_count_tx prof (payload_len f + 13)) (\<lambda>_.
      bindA (onA r_net r_net_update (write_to f)) (\<lambda>_. K)) (r\<lparr>r_tx := next_nonce (r_tx r)\<rparr>)"
  proof (cases "trim l = bytes_of ''/ping''")
    case True
    then have s: "t = Heartbeat" "a = HEARTBEAT_AAD" "m = bytes_of ''PING''"
      using l item by (auto simp: line_event_def split: if_splits)
    let ?K = "bindA (onA r_net r_net_update read_from) (\<lambda>reply.
        bindA (repl_count_rx prof (payload_len reply + 13)) (\<lambda>_.
        if wf_msg_type reply = Heartbeat then
          bindA (onA r_rx r_rx_update (decrypt P prof (wf_payload reply) HEARTBEAT_AAD (wf_nonce reply))) (\<lambda>decrypted.
          bindA (print_line (HeartbeatReply (from_utf8_lossy decrypted))) (\<lambda>_. ret Continue))
        else ret Continue))"
    have "silent r_net ?K" by (intro silent_intros silent_count)
    moreover have "interactive_line P prof client l r =
      bindA (repl_count_tx prof (payload_len f + 13)) (\<lambda>_.
      bindA (onA r_net r_net_update (write_to f)) (\<lambda>_. ?K)) (r\<lparr>r_tx := next_nonce (r_tx r)\<rparr>)"
      using ct(1) by (simp add: interactive_line_def Let_def out [unfolded True] quit [unfolded True] True
          bind_reads current_nonce_def ct(2) s)
    ultimately show ?thesis by blast
  next
    case False
    then have s: "t = DataPayload" "a = DATA_AAD" "m = trim l"
      using l item by (auto simp: line_event_def split: if_splits)
    let ?K = "bindA (onA r_net r_net_update read_from) (\<lambda>reply.
        bindA (repl_count_rx prof (payload_len reply + 13)) (\<lambda>_.
        if wf_msg_type reply = DataPayload then
          bindA (onA r_rx r_rx_update (decrypt P prof (wf_payload reply) DATA_AAD (wf_nonce reply))) (\<lambda>decrypted.
          bindA (print_line (ServerReply (from_utf8_lossy decrypted))) (\<lambda>_. ret Continue))
        else if wf_msg_type reply = Close then bindA (print_line ServerClosed) (\<lambda>_. ret Break)
        else ret Continue))"
    have "silent r_net ?K" by (intro silent_intros silent_count)
    moreover have "interactive_line P prof client l r =
      bindA (repl_count_tx prof (payload_len f + 13)) (\<lambda>_.
      bindA (onA r_net r_net_update (write_to f)) (\<lambda>_. ?K)) (r\<lparr>r_tx := next_nonce (r_tx r)\<rparr>)"
      using ct(1) by (simp add: interactive_line_def Let_def out quit False bind_reads current_nonce_def ct(2) s)
    ultimately show ?thesis by blast
  qed
  then obtain K where K: "silent r_net K" "interactive_line P prof client l r =
      bindA (repl_count_tx prof (payload_len f + 13)) (\<lambda>_.
      bindA (onA r_net r_net_update (write_to f)) (\<lambda>_. K)) (r\<lparr>r_tx := next_nonce (r_tx r)\<rparr>)"
    by blast
  obtain r1 where r1: "repl_count_tx prof (payload_len f + 13) (r\<lparr>r_tx := next_nonce (r_tx r)\<rparr>) = (r1, Inr ())"
      "same_ends (r\<lparr>r_tx := next_nonce (r_tx r)\<rparr>) r1"
    using repl_count_ok(1) [OF r(3), of i j "r\<lparr>r_tx := next_nonce (r_tx r)\<rparr>" prof] r(2) by auto
  have "write_faults (r_net r1) = []" "outbox (r_net r1) = outbox (r_net r)"
    using r1(2) r(1) by (simp_all add: same_ends_def)
  then show ?thesis
    using K r1(1) write_to_clean [of "r_net r1" f] by (simp add: bindA_case onA_def silent_def)
qed

lemma appends_repl:
  "appends r_net (onA r_net r_net_update (write_to f))" "appends r_net (onA r_net r_net_update read_from)"
  "appends r_net (onA r_net r_net_update instant_now)"
  "appends r_net (onA r_rx r_rx_update c)" "appends r_net (onA r_tx r_tx_update d)"
  "appends r_net (onA r_metrics r_metrics_update t)" "appends r_net (print_line p)"
  by (rule appends_on_net(2), rule appends_net, rule appends_on_net(2), simp add: read_from_outbox_same,
      rule appends_on_net(2), rule appends_net)
    (simp_all add: appends_def onA_def print_line_def modifyA_def case_prod_beta)

lemma appends_line: "appends r_net (interactive_line P prof client l)"
proof -
  have count: "appends r_net (repl_count_tx prof n)" "appends r_net (repl_count_rx prof n)" for n
    unfolding repl_count_tx_def repl_count_rx_def by (intro appends_bind appends_repl)+
  have discarded: "appends r_net (discard (onA r_net r_net_update (write_to f)))" for f
    using appends_repl(1) [of f] by (simp add: appends_def discard_fst)
  show ?thesis
    unfolding interactive_line_def Let_def
    by (intro appends_cases(3) appends_bind appends_simple appends_repl count discarded)
qed

lemma appends_interactive: "\<exists>b. outbox (r_net (fst (interactive_loop P prof client ls r))) = outbox (r_net r) @ b"
proof (induction P prof client ls r rule: interactive_loop.induct)
  case (3 P prof client l ls r)
  obtain r1 x where line: "interactive_line P prof client l r = (r1, x)" by fastforce
  obtain b where b: "outbox (r_net r1) = outbox (r_net r) @ b"
    using appends_line line unfolding appends_def by (metis fst_conv)
  show ?case
  proof (cases "x = Inr Continue")
    case True
    with 3 line obtain b' where "outbox (r_net (fst (interactive_loop P prof client ls r1))) = outbox (r_net r1) @ b'"
      by (metis (no_types, lifting))
    then show ?thesis using line True b by simp
  next
    case False
    then show ?thesis using line b by (auto split: sum.split flow.split)
  qed
qed simp_all

lemma room_less: "room (Suc k) s \<Longrightarrow> room k s"
  by (simp add: room_def rx_room_def tx_room_def)

lemma dialogue_determined:
  assumes P: "session_primitives P"
  shows "write_faults (r_net r) = [] \<Longrightarrow> calm (length ls) (length ls) (r_metrics r) \<Longrightarrow> room (length ls) s \<Longrightarrow>
    r_tx r = s_rx s \<Longrightarrow> r_rx r = s_tx s \<Longrightarrow>
    list_all (\<lambda>e. length (event_text e) \<le> 65496 \<and> utf8_valid (event_text e)) (typed_events ls) \<Longrightarrow>
    interactive_loop P prof client (map Some ls) r = (r', x) \<Longrightarrow> transport_loop P prof' s = (s', y) \<Longrightarrow>
    outbox (r_net r') = outbox (r_net r) @ inbox (s_net s) \<Longrightarrow>
    outbox (s_net s') = outbox (s_net s) @ inbox (r_net r) \<Longrightarrow>
    x = Inr () \<and> y = Inr () \<and> inbox (r_net r') = [] \<and> inbox (s_net s') = [] \<and> totals_fit (s_metrics s') \<and>
    filter is_answer (r_printed r') = filter is_answer (r_printed r) @ map shown (typed_events ls)"
proof (induction ls arbitrary: r s)
  case Nil
  then have "r' = r" "x = Inr ()" "inbox (s_net s) = []" by simp_all
  with Nil eof_ends_loop [of s P prof'] show ?case by (auto simp: room_def intro: room_totals_fit)
next
  case (Cons l ls)
  have calm: "calm (length ls) (length ls) (r_metrics r)" "calm (Suc (length ls)) (Suc (length ls)) (r_metrics r)"
    using Cons.prems(2) by (simp_all add: calm_def)
  have room: "room (Suc (length ls)) s" using Cons.prems(3) by simp
  show ?case
  proof (cases "is_quit l")
    case True
    obtain r1 where r1: "interactive_line P prof client l r = (r1, Inr Break)" "inbox (r_net r1) = inbox (r_net r)"
        "outbox (r_net r1) = outbox (r_net r) @ serialize (close_frame (cs_nonce (r_tx r)))"
        "r_printed r1 = r_printed r @ [QuitText]"
      using line_quits [OF True calm(2) Cons.prems(1)] by blast
    then have r': "r' = r1" "x = Inr ()" using Cons.prems(7) by simp_all
    have tx: "tx_room 0 (s_metrics s)" using room by (simp add: room_def tx_room_def)
    have "inbox (s_net s) = serialize (close_frame (cs_nonce (r_tx r))) @ []"
      using Cons.prems(9) r1(3) r' by simp
    then obtain s1 where "transport_loop P prof' s = (s1, Inr ())" "inbox (s_net s1) = []"
        "outbox (s_net s1) = outbox (s_net s)" "totals_fit (s_metrics s1)"
      by (rule close_ends_loop [rotated, where P = P and prof = prof'])
        (use room tx in \<open>auto simp: room_def rx_room_def close_frame_def new_frame_def valid_frame_le\<close>)
    then show ?thesis using Cons.prems(8,10) r' r1 True by simp
  next
    case quit: False
    show ?thesis
    proof (cases "line_event l")
      case None
      obtain ps where ps: "interactive_line P prof client l r = (r\<lparr>r_printed := r_printed r @ ps\<rparr>, Inr Continue)"
          "filter is_answer ps = []"
        using line_keeps_quiet [OF None quit calm(1)] by blast
      then show ?thesis
        using Cons.IH [of "r\<lparr>r_printed := r_printed r @ ps\<rparr>" s] Cons.prems room_less [OF room] calm(1) None quit
        by simp
    next
      case (Some e)
      then have es: "typed_events (l # ls) = e # typed_events ls" using quit by simp
      have e: "length (event_text e) \<le> 65496" "utf8_valid (event_text e)" "length (event_text e) \<le> 65511"
        using Cons.prems(6) unfolding es by simp_all
      have fits: "length (snd (snd (request_item e))) < aead_limit" "length (snd (snd (answer_item e))) < aead_limit"
        using dialogue_fits(1,2) [of "[e]"] e by simp_all
      obtain t a m where item: "request_item e = (t, a, m)" by (cases "request_item e") auto
      obtain t' a' m' where item': "answer_item e = (t', a', m')" by (cases "answer_item e") auto
      have nonces: "unat (cs_nonce (r_tx r)) + 1 < 2 ^ 64" "unat (cs_nonce (r_rx r)) + 1 < 2 ^ 64"
        using room Cons.prems(4,5) by (simp_all add: room_def)
      obtain f where f: "seals P (r_tx r) (request_item e) f"
        unfolding item by (rule seals_total [OF P _ nonces(1)]) (use fits(1) item in simp, blast)
      obtain g where g: "seals P (r_rx r) (answer_item e) g"
        unfolding item' by (rule seals_total [OF P _ nonces(2)]) (use fits(2) item' in simp, blast)
      have carried: "valid_frame f" "carries P (s_rx s) f e"
        using seals_carries [OF P f e(3)] Cons.prems(4) by simp_all
      have size: "payload_len f + 13 \<le> 2 ^ 18" using carried(1) by (simp add: valid_frame_le payload_len_def)
      have first: "outbox (r_net (fst (interactive_line P prof client l r))) = outbox (r_net r) @ serialize f"
        by (rule line_writes [OF Some f Cons.prems(1) calm(2) size])
      obtain r0 z where line0: "interactive_line P prof client l r = (r0, z)" by fastforce
      obtain b where b: "outbox (r_net r') = outbox (r_net r0) @ b"
        using appends_interactive [of P prof client "map Some ls" r0] Cons.prems(7) line0
        by (cases "z = Inr Continue") (auto split: sum.splits flow.splits)
      then have inb: "inbox (s_net s) = serialize f @ b" using first line0 Cons.prems(9) by simp
      obtain s1 g' where s1: "transport_step P prof' s = (s1, Inr Continue)" "room (length ls) s1"
          "seals P (s_tx s) (answer_item e) g'" "s_rx s1 = next_nonce (s_rx s)" "s_tx s1 = next_nonce (s_tx s)"
          "inbox (s_net s1) = b" "outbox (s_net s1) = outbox (s_net s) @ serialize g'"
        by (rule room_turn [OF P room inb carried e(3)]) blast
      have g': "g' = g" using seals_unique [OF g] s1(3) Cons.prems(5) by simp
      have loop: "transport_loop P prof' s1 = (s', y)"
        using Cons.prems(8) s1(1) by (subst (asm) transport_loop.simps) simp
      obtain d where d: "outbox (s_net s') = outbox (s_net s1) @ d"
        using appends_loop [of P prof' s1] loop by auto
      then have io: "inbox (r_net r) = serialize g @ d" using Cons.prems(10) s1(7) g' by simp
      obtain r1 where r1: "interactive_line P prof client l r = (r1, Inr Continue)"
          "calm (length ls) (length ls) (r_metrics r1)" "r_tx r1 = next_nonce (r_tx r)"
          "r_rx r1 = next_nonce (r_rx r)" "write_faults (r_net r1) = []" "inbox (r_net r1) = d"
          "outbox (r_net r1) = outbox (r_net r) @ serialize f" "r_printed r1 = r_printed r @ [shown e]"
        using line_answered [OF P Some Cons.prems(1) calm(2) f g io e(1,2)] by blast
      have "is_answer (shown e)" by (cases e) simp_all
      then show ?thesis
        using Cons.IH [OF r1(5,2) s1(2)] Cons.prems(4-7) r1 s1 loop b d line0 unfolding es by simp
    qed
  qed
qed

lemma interactive_extends:
  "\<exists>b. outbox (fst (interactive_session P prof client rnd ls c)) =
     outbox (fst (perform_handshake P prof (tc_prologue client) (tc_server_pubkey client) rnd c)) @ b"
proof -
  obtain n h where h: "perform_handshake P prof (tc_prologue client) (tc_server_pubkey client) rnd c = (n, h)"
    by fastforce
  show ?thesis
  proof (cases h)
    case (Inl e)
    then show ?thesis using h by (simp add: interactive_session_def)
  next
    case (Inr k)
    then obtain tx rx where k: "h = Inr (tx, rx)" by (cases k) auto
    obtain n' now where t: "instant_now n = (n', Inr now)" "outbox n' = outbox n" using instant_now_total by blast
    let ?r = "\<lparr>r_net = n', r_tx = tx, r_rx = rx, r_metrics = metrics_new now, r_printed = []\<rparr>"
    obtain b where "outbox (r_net (fst (interactive_loop P prof client ls ?r))) = outbox n @ b"
      using appends_interactive [of P prof client ls ?r] t(2) by auto
    then show ?thesis using h k t(1) by (auto simp: interactive_session_def split: prod.split)
  qed
qed

lemma session_determined:
  assumes P: "session_primitives P"
    and "length client_random = 32" "length server_random = 32"
    and keys: "keys = from_private_bytes P secret" "length secret = 32"
    and client: "tc_server_pubkey client = public_key keys"
    and ls: "length ls < 2 ^ 40"
      "list_all (\<lambda>e. length (event_text e) \<le> 65496 \<and> utf8_valid (event_text e)) (typed_events ls)"
    and c: "interactive_session P prof client client_random (map Some ls) (connection (outbox s)) = (c, shows, x)"
    and s: "handle_client_with_prologue P prof' keys (tc_prologue client) server_random (connection (outbox c)) = (s, y)"
  shows "x = Inr () \<and> y = Inr () \<and> inbox c = [] \<and> inbox s = [] \<and>
    filter is_answer shows = map shown (typed_events ls)"
proof -
  let ?pro = "tc_prologue client"
  have ext: "\<exists>b. outbox c =
      outbox (fst (perform_handshake P prof ?pro (public_key keys) client_random (connection (outbox s)))) @ b"
    using interactive_extends [of P prof client client_random "map Some ls" "connection (outbox s)"] c client by simp
  obtain ck sk init resp X Y n' now z y' where X: "outbox c = serialize init @ X" and Y: "outbox s = serialize resp @ Y"
    and hand: "perform_handshake P prof ?pro (public_key keys) client_random (connection (outbox s)) =
      ((connection (outbox s))\<lparr>inbox := Y, outbox := serialize init\<rparr>, Inr (cipher_new ck, cipher_new sk))"
    and z: "inbox n' = X" "outbox n' = serialize resp" "write_faults n' = []"
    "transport_loop P prof' (start_session n' (cipher_new ck) (cipher_new sk) now) = (z, y')"
    "inbox s = inbox (s_net z)" "outbox s = outbox (s_net z)"
    "y' = Inr () \<and> totals_fit (s_metrics z) \<longrightarrow> y = Inr ()"
    by (rule joint_start [OF assms(1-5) ext s])
  obtain nc t where nc: "instant_now ((connection (outbox s))\<lparr>inbox := Y, outbox := serialize init\<rparr>) = (nc, Inr t)"
      "inbox nc = Y" "outbox nc = serialize init" "write_faults nc = []"
    using instant_now_total [of "(connection (outbox s))\<lparr>inbox := Y, outbox := serialize init\<rparr>"] by auto
  let ?r = "\<lparr>r_net = nc, r_tx = cipher_new ck, r_rx = cipher_new sk, r_metrics = metrics_new t, r_printed = []\<rparr>"
  let ?s0 = "start_session n' (cipher_new ck) (cipher_new sk) now"
  obtain r' where r': "interactive_loop P prof client (map Some ls) ?r = (r', x)" "r_net r' = c" "r_printed r' = shows"
    using c hand nc(1) client by (auto simp: interactive_session_def split: prod.splits)
  have "calm (length ls) (length ls) (r_metrics ?r)" using ls(1) by (simp add: calm_def metrics_new_def)
  moreover have "room (length ls) ?s0" by (rule room_start [OF z(3) ls(1)])
  ultimately show ?thesis
    using dialogue_determined [OF P, of ?r ls ?s0 prof client r' x prof' z y'] ls(2) r' z nc X Y by simp
qed

section \<open>Properties\<close>

text \<open>
  C2. Every exchange is echoed: in every joint run, in which each side reads exactly what
  the other has written, the client returns the message with the server's prefix, the
  server's session ends without an error and nothing is left over. With the existence of a
  joint run (lemma \<open>echo_joint\<close>) this is the one outcome an exchange can have.
\<close>

theorem every_exchange_is_echoed:
  assumes "session_primitives P"
    and "length client_random = 32" "length server_random = 32"
    and "keys = from_private_bytes P secret" "length secret = 32"
    and "tc_server_pubkey client = public_key keys"
    and "utf8_valid m" "length m \<le> 65496"
    and "secure_exchange P prof client client_random m (connection (outbox s)) = (c, x)"
    and "handle_client_with_prologue P prof' keys (tc_prologue client) server_random (connection (outbox c)) = (s, y)"
  shows "x = Inr (REPLY_PREFIX @ m) \<and> y = Inr () \<and> inbox c = [] \<and> inbox s = []"
  by (rule exchange_determined [OF assms])

theorem every_exchange_is_echoed_witness:
  "\<exists>c s x y.
    secure_exchange toy Debug (client_new (replicate 32 5) []) (replicate 32 1) [0x68] (connection (outbox s)) = (c, x) \<and>
    handle_client_with_prologue toy Release (from_private_bytes toy (replicate 32 5))
      (tc_prologue (client_new (replicate 32 5) [])) (replicate 32 2) (connection (outbox c)) = (s, y) \<and>
    x = Inr (REPLY_PREFIX @ [0x68]) \<and> y = Inr ()"
proof -
  have pub: "tc_server_pubkey (client_new (replicate 32 5) []) = public_key (from_private_bytes toy (replicate 32 5))"
    by (simp add: client_new_def from_private_bytes_def toy_def pad32_id)
  have m: "utf8_valid [0x68]" "length [0x68 :: u8] \<le> 65496"
    by (rule utf8_valid_ascii) simp_all
  note setting = toy_session length_replicate length_replicate refl length_replicate pub m
  obtain c s x y where run:
    "secure_exchange toy Debug (client_new (replicate 32 5) []) (replicate 32 1) [0x68] (connection (outbox s)) = (c, x)"
    "handle_client_with_prologue toy Release (from_private_bytes toy (replicate 32 5))
      (tc_prologue (client_new (replicate 32 5) [])) (replicate 32 2) (connection (outbox c)) = (s, y)"
    using echo_joint [OF setting, where prof = Debug and prof' = Release] by blast
  from every_exchange_is_echoed [OF setting run] run show ?thesis by blast
qed

text \<open>
  C8. Every interactive session is served: in every joint run, in which each side reads
  exactly what the other has written, both sides end without an error, nothing is left
  over, and the answers printed are those of the typed lines, in order.
\<close>

theorem every_session_is_served:
  assumes "session_primitives P"
    and "length client_random = 32" "length server_random = 32"
    and "keys = from_private_bytes P secret" "length secret = 32"
    and "tc_server_pubkey client = public_key keys"
    and "length ls < 2 ^ 40"
    and "list_all (\<lambda>e. length (event_text e) \<le> 65496 \<and> utf8_valid (event_text e)) (typed_events ls)"
    and "interactive_session P prof client client_random (map Some ls) (connection (outbox s)) = (c, shows, x)"
    and "handle_client_with_prologue P prof' keys (tc_prologue client) server_random (connection (outbox c)) = (s, y)"
  shows "x = Inr () \<and> y = Inr () \<and> inbox c = [] \<and> inbox s = [] \<and>
    filter is_answer shows = map shown (typed_events ls)"
  by (rule session_determined [OF assms])

theorem every_session_is_served_witness:
  "\<exists>c s shows x y.
    interactive_session toy Debug (client_new (replicate 32 5) []) (replicate 32 1)
      (map Some [[], bytes_of ''exit'']) (connection (outbox s)) = (c, shows, x) \<and>
    handle_client_with_prologue toy Release (from_private_bytes toy (replicate 32 5))
      (tc_prologue (client_new (replicate 32 5) [])) (replicate 32 2) (connection (outbox c)) = (s, y) \<and>
    x = Inr () \<and> y = Inr ()"
proof -
  let ?ls = "[[], bytes_of ''exit'']"
  have pub: "tc_server_pubkey (client_new (replicate 32 5) []) = public_key (from_private_bytes toy (replicate 32 5))"
    by (simp add: client_new_def from_private_bytes_def toy_def pad32_id)
  have trims: "trim [] = []" "trim (bytes_of ''exit'') = bytes_of ''exit''"
    by (rule trim_printable, simp add: printable_ascii_def bytes_of_def)+
  have es: "typed_events ?ls = []"
    by (simp add: line_event_def line_item_def is_quit_def trims)
  have ls: "length ?ls < 2 ^ 40"
      "list_all (\<lambda>e. length (event_text e) \<le> 65496 \<and> utf8_valid (event_text e)) (typed_events ?ls)"
    unfolding es by simp_all
  note setting = toy_session length_replicate length_replicate refl length_replicate pub ls
  obtain c s ps x y where run:
    "interactive_session toy Debug (client_new (replicate 32 5) []) (replicate 32 1) (map Some ?ls)
      (connection (outbox s)) = (c, ps, x)"
    "handle_client_with_prologue toy Release (from_private_bytes toy (replicate 32 5))
      (tc_prologue (client_new (replicate 32 5) [])) (replicate 32 2) (connection (outbox c)) = (s, y)"
    using typed_session_served [OF setting, where prof = Debug and prof' = Release] by blast
  from every_session_is_served [OF setting run] run show ?thesis by blast
qed

end
