(* ===== verification/Client_Verdicts.thy ===== *)
theory Client_Verdicts
  imports End_To_End
begin

text \<open>
  The client's verdict on what it reads: case by case, on the response to its handshake and
  on the reply to its message.
\<close>

text \<open>
  C28. The client's verdict on the handshake response, case by case: a frame of another
  type, a payload below 48 bytes, a ciphertext that does not open under the key derived from
  the ephemeral secret, and one that opens to another text than the acknowledgement each
  have their own error; with any other frame, and without write faults, the handshake
  succeeds.
\<close>

theorem client_handshake_verdict:
  assumes "session_primitives P" "inbox c = serialize f @ rest" "is_valid_payload_size (payload_len f)"
    and "write_faults c = []"
    and h2: "h2 = hash_handshake_state P prologue (p_x25519_base P os_random) server_pubkey
      (Some (take KEY_LEN (wf_payload f)))"
    and k: "derive_session_keys P (p_x25519 P os_random (take KEY_LEN (wf_payload f))) h2 = Inr (k', k)"
  shows "if wf_msg_type f \<noteq> HandshakeResp then
      snd (perform_handshake P prof prologue server_pubkey os_random c) =
        Inl (Err (ExpectedHandshakeResp (wf_msg_type f)))
    else if length (wf_payload f) < KEY_LEN + 16 then
      snd (perform_handshake P prof prologue server_pubkey os_random c) = Inl (Err RespPayloadSize)
    else (case p_open P k (build_nonce 0) h2 (drop KEY_LEN (wf_payload f)) of
        None \<Rightarrow> snd (perform_handshake P prof prologue server_pubkey os_random c) = Inl (Err AeadDecrypt)
      | Some ack \<Rightarrow>
          if ack \<noteq> ACK_TEXT
          then snd (perform_handshake P prof prologue server_pubkey os_random c) = Inl (Err BadHandshakeAck)
          else \<exists>tx rx. snd (perform_handshake P prof prologue server_pubkey os_random c) = Inr (tx, rx))"
proof -
  define cpub where "cpub = p_x25519_base P os_random"
  define h1 where "h1 = hash_handshake_state P prologue cpub server_pubkey None"
  note hkdf = derive_total [OF session_primitivesD(3) [OF assms(1)]]
  obtain ki ki' where ki: "derive_session_keys P (p_x25519 P os_random server_pubkey) h1 = Inr (ki, ki')"
    by (rule hkdf)
  obtain ict where ict: "snd (encrypt P INIT_TEXT h1 (cipher_new ki)) = Inr ict"
    by (rule encrypt_new [OF assms(1), of INIT_TEXT h1 ki]) (simp_all add: length_texts aead_limit_def)
  have wr: "write_to g c = (c\<lparr>outbox := outbox c @ serialize g\<rparr>, Inr ())" for g
    using assms(4) by (rule write_to_clean)
  have rd: "read_from (c\<lparr>outbox := out\<rparr>) = (c\<lparr>outbox := out, inbox := rest\<rparr>, Inr f)" for out
    using read_from_serialize [of f "c\<lparr>outbox := out\<rparr>" rest] assms(2,3) by (simp add: valid_frame_def)
  define epub where "epub = take KEY_LEN (wf_payload f)"
  have h2': "hash_handshake_state P prologue cpub server_pubkey (Some epub) = h2"
    by (simp add: h2 cpub_def epub_def)
  have k': "derive_session_keys P (p_x25519 P os_random epub) h2 = Inr (k', k)"
    using k by (simp add: epub_def)
  obtain ck sk where ks: "derive_session_keys P (p_x25519 P os_random server_pubkey @ p_x25519 P os_random epub) h2 =
      Inr (ck, sk)"
    by (rule hkdf)
  note unf = perform_handshake_def Let_def bindA_case throw_def liftA_def on_local_apply ret_def
    ephemeral_generate_def ephemeral_diffie_hellman_def diffie_hellman_def wr rd ict ki k' ks h2'
    cpub_def [symmetric] epub_def [symmetric] h1_def [symmetric]
  have dec: "snd (decrypt P prof ct h2 0 (cipher_new k)) =
      (case p_open P k (build_nonce 0) h2 ct of None \<Rightarrow> Inl (Err AeadDecrypt) | Some m \<Rightarrow> Inr m)" for ct
    by (auto simp: decrypt_def cipher_new_def bindA_case add_assign_eq
        u64_add_no_overflow ret_def split: option.split)
  have "length epub = KEY_LEN" if "\<not> length (wf_payload f) < KEY_LEN + 16"
    using that by (simp add: epub_def)
  then have "copy_from_slice KEY_LEN epub = Inr epub" if "\<not> length (wf_payload f) < KEY_LEN + 16"
    using that by simp
  then show ?thesis
    by (simp add: unf dec split: option.split)
qed

theorem client_handshake_verdict_witness:
  "snd (perform_handshake toy Debug [] (replicate 32 5) (replicate 32 1)
     (connection (serialize (handshake_resp_frame 0 [1])))) = Inl (Err RespPayloadSize)"
proof -
  obtain k' k where k: "derive_session_keys toy (p_x25519 toy (replicate 32 1)
      (take KEY_LEN (wf_payload (handshake_resp_frame 0 [1]))))
      (hash_handshake_state toy [] (p_x25519_base toy (replicate 32 1)) (replicate 32 5)
        (Some (take KEY_LEN (wf_payload (handshake_resp_frame 0 [1]))))) = Inr (k', k)"
    by (rule derive_total [OF toy_hkdf])
  show ?thesis
    using client_handshake_verdict [OF toy_session _ _ _ refl k, of "connection (serialize (handshake_resp_frame 0 [1]))"
        "[]" Debug]
    by (simp add: handshake_resp_frame_def new_frame_def is_valid_payload_size_def max_payload_size_def
        MAX_FRAME_SIZE_def payload_len_def KEY_LEN_def)
qed

text \<open>
  C29. The client's verdict on the reply to its message, case by case: a frame of another
  type, a nonce other than 0, a ciphertext that does not open under the server's key and a
  text that is not UTF-8 each have their own error, in this order; any other reply is
  returned as it was sent.
\<close>

theorem client_reply_verdict:
  assumes "session_primitives P" "length m < aead_limit"
    and hand: "perform_handshake P prof (tc_prologue client) (tc_server_pubkey client) os_random c =
      (n, Inr (cipher_new ck, cipher_new sk))"
    and "inbox n = serialize g @ rest" "is_valid_payload_size (payload_len g)" "write_faults n = []"
  shows "snd (secure_exchange P prof client os_random m c) =
    (if wf_msg_type g \<noteq> DataPayload then Inl (Err (ExpectedDataReply (wf_msg_type g)))
     else if wf_nonce g \<noteq> 0 then Inl (Err (NonceOrder 0 (wf_nonce g)))
     else case p_open P sk (build_nonce 0) DATA_AAD (wf_payload g) of
         None \<Rightarrow> Inl (Err AeadDecrypt)
       | Some t \<Rightarrow> if utf8_valid t then Inr t else Inl (Err InvalidUtf8))"
proof -
  obtain f where "seals P (cipher_new ck) (DataPayload, DATA_AAD, m) f"
    by (rule seals_total [OF assms(1,2), of "cipher_new ck"]) (simp add: cipher_new_def, blast)
  then obtain ct where ct: "encrypt P m DATA_AAD (cipher_new ck) = (next_nonce (cipher_new ck), Inr ct)"
    by (auto simp: seals_encrypt)
  have wr: "write_to f (n\<lparr>outbox := out, inbox := i\<rparr>) = (n\<lparr>outbox := out @ serialize f, inbox := i\<rparr>, Inr ())"
      "write_to f n = (n\<lparr>outbox := outbox n @ serialize f\<rparr>, Inr ())" for f out i
    using assms(6) by (simp_all add: write_to_clean)
  have rd: "read_from (n\<lparr>outbox := out\<rparr>) = (n\<lparr>outbox := out, inbox := rest\<rparr>, Inr g)" for out
    using read_from_serialize [of g "n\<lparr>outbox := out\<rparr>" rest] assms(4,5) by (simp add: valid_frame_def)
  have dec: "\<exists>c'. decrypt P prof (wf_payload g) DATA_AAD (wf_nonce g) (cipher_new sk) =
      (c', if wf_nonce g \<noteq> 0 then Inl (Err (NonceOrder 0 (wf_nonce g)))
       else case p_open P sk (build_nonce 0) DATA_AAD (wf_payload g) of
           None \<Rightarrow> Inl (Err AeadDecrypt) | Some t \<Rightarrow> Inr t)"
    by (auto simp: decrypt_def cipher_new_def bindA_case add_assign_eq u64_add_no_overflow ret_def split: option.split)
  then obtain c' where c': "decrypt P prof (wf_payload g) DATA_AAD (wf_nonce g) (cipher_new sk) =
      (c', if wf_nonce g \<noteq> 0 then Inl (Err (NonceOrder 0 (wf_nonce g)))
       else case p_open P sk (build_nonce 0) DATA_AAD (wf_payload g) of
           None \<Rightarrow> Inl (Err AeadDecrypt) | Some t \<Rightarrow> Inr t)" ..
  show ?thesis
    by (auto simp: secure_exchange_def bindA_case hand ct wr rd c' throw_def ret_def discard_def from_utf8_def
        split: option.split)
qed

theorem client_reply_verdict_witness:
  "\<exists>s2c. snd (secure_exchange toy Debug (client_new (replicate 32 5) []) (replicate 32 1) [0x68]
     (connection s2c)) = Inl (Err (ExpectedDataReply Close))"
proof -
  define keys where "keys = from_private_bytes toy (replicate 32 5)"
  have pub: "public_key keys = tc_server_pubkey (client_new (replicate 32 5) [])"
    by (simp add: keys_def from_private_bytes_def toy_def pad32_id client_new_def)
  obtain init resp ck sk where
    run: "\<And>c rest. write_faults c = [] \<Longrightarrow> inbox c = serialize resp @ rest \<Longrightarrow>
       perform_handshake toy Debug (tc_prologue (client_new (replicate 32 5) [])) (public_key keys) (replicate 32 1) c =
         (c\<lparr>inbox := rest, outbox := outbox c @ serialize init\<rparr>, Inr (cipher_new ck, cipher_new sk))"
    by (rule handshake_runs [OF toy_session _ _ keys_def, of "replicate 32 1" "replicate 32 2",
        where prof = Debug and prologue = "tc_prologue (client_new (replicate 32 5) [])"]) (simp, simp, simp, blast)
  let ?s2c = "serialize resp @ serialize (close_frame 0)"
  have hand: "perform_handshake toy Debug (tc_prologue (client_new (replicate 32 5) []))
      (tc_server_pubkey (client_new (replicate 32 5) [])) (replicate 32 1) (connection ?s2c) =
      ((connection ?s2c)\<lparr>inbox := serialize (close_frame 0), outbox := serialize init\<rparr>,
        Inr (cipher_new ck, cipher_new sk))"
    using run [of "connection ?s2c" "serialize (close_frame 0)"] by (simp add: pub)
  show ?thesis
    using client_reply_verdict [OF toy_session _ hand, of "[0x68]" "close_frame 0" "[]"]
    by (intro exI [of _ ?s2c]) (simp add: aead_limit_def close_frame_def new_frame_def is_valid_payload_size_def
        max_payload_size_def MAX_FRAME_SIZE_def payload_len_def)
qed

end
