(* ===== verification/Integrity.thy ===== *)
theory Integrity
  imports Interactive End_To_End
begin

text \<open>
  Integrity of the two directions of a session against an attacker on the network who does
  not hold the keys: whatever bytes arrive, what is accepted is a prefix of what was sent,
  in order, without gaps and without repetition.
\<close>

section \<open>What an unsuccessful turn has written\<close>

lemma bindA_eq_Inl:
  "bindA m k s = (s', Inl e) \<longleftrightarrow>
     m s = (s', Inl e) \<or> (\<exists>s1 x. m s = (s1, Inr x) \<and> k x s1 = (s', Inl e))"
  by (auto simp: bindA_case split: prod.splits sum.splits)

lemma onA_Inl: "onA sel upd m s = (s', Inl e) \<longleftrightarrow> (\<exists>y. m (sel s) = (y, Inl e) \<and> s' = upd (\<lambda>_. y) s)"
  by (auto simp: onA_def split: prod.splits)

lemma simple_Inl: "getsA f s \<noteq> (s', Inl e)" "ret x s \<noteq> (s', Inl e)"
  by (simp_all add: getsA_def ret_def)

lemma count_Inl:
  "count_rx prof n s = (s', Inl e) \<Longrightarrow> outbox (s_net s') = outbox (s_net s)"
  "count_tx prof n s = (s', Inl e) \<Longrightarrow> outbox (s_net s') = outbox (s_net s)"
  using instant_now_total [of "s_net s"]
  by (auto simp: count_rx_def count_tx_def bindA_eq_Inl onA_Inl onA_Inr)

lemma write_to_Inl: "write_to f s = (s', Inl e) \<Longrightarrow> \<exists>k. outbox s' = outbox s @ take k (serialize f)"
  using write_to_prefix [of f s] by simp

lemma serve_frame_Inl:
  assumes "serve_frame P prof f s = (s', Inl x)" "in_step s"
  shows "outbox (s_net s') = outbox (s_net s) \<or>
    (\<exists>e g k. carries P (s_rx s) f e \<and> seals P (s_tx s) (answer_item e) g \<and>
       outbox (s_net s') = outbox (s_net s) @ take k (serialize g))"
proof -
  have w: "window_ok (s_replay s)" using assms(2) by (simp add: in_step_def)
  note unf = serve_frame_def Let_def bindA_eq_Inl onA_Inl simple_Inl act_Inr current_nonce_def
    encrypt_Inr decrypt_Inr
  show ?thesis
  proof (cases "wf_msg_type f")
    case DataPayload
    have "outbox (s_net s') = outbox (s_net s) \<or>
      (\<exists>m g k. carries P (s_rx s) f (Said m) \<and> seals P (s_tx s) (answer_item (Said m)) g \<and>
         outbox (s_net s') = outbox (s_net s) @ take k (serialize g))"
      using assms(1) DataPayload
      by (auto simp: unf carries_def seals_def dest!: validate_Inr [OF w] count_Inr count_Inl write_to_Inl)
    then show ?thesis by blast
  next
    case Heartbeat
    have "outbox (s_net s') = outbox (s_net s) \<or>
      (\<exists>m g k. carries P (s_rx s) f (Pinged m) \<and> seals P (s_tx s) (answer_item (Pinged m)) g \<and>
         outbox (s_net s') = outbox (s_net s) @ take k (serialize g))"
      using assms(1) Heartbeat
      by (auto simp: unf heartbeat_frame_def carries_def seals_def
          dest!: validate_Inr [OF w] count_Inr count_Inl write_to_Inl)
    then show ?thesis by blast
  qed (use assms(1) in \<open>auto simp: serve_frame_def simple_Inl\<close>)
qed

lemma transport_step_Inl:
  assumes "transport_step P prof s = (s', Inl x)" "in_step s"
  shows "outbox (s_net s') = outbox (s_net s) \<or>
    (\<exists>n f e g k. read_from (s_net s) = (n, Inr f) \<and> carries P (s_rx s) f e \<and>
       seals P (s_tx s) (answer_item e) g \<and> outbox (s_net s') = outbox (s_net s) @ take k (serialize g))"
proof (cases "read_from (s_net s)")
  case (Pair n res)
  have out: "outbox n = outbox (s_net s)"
    using read_from_only_inbox [of "s_net s"] Pair
    by (metis fst_conv net.select_convs(2) net.surjective net.update_convs(1))
  show ?thesis
  proof (cases res)
    case (Inl e)
    then show ?thesis
      using assms(1) Pair out by (cases e) (auto simp: transport_step_def onA_def)
  next
    case (Inr f)
    then have turn: "bindA (count_rx prof (payload_len f + 13)) (\<lambda>_. serve_frame P prof f) (s\<lparr>s_net := n\<rparr>) = (s', Inl x)"
      using assms(1) Pair by (simp add: transport_step_def onA_def)
    then consider "count_rx prof (payload_len f + 13) (s\<lparr>s_net := n\<rparr>) = (s', Inl x)"
      | s1 where "count_rx prof (payload_len f + 13) (s\<lparr>s_net := n\<rparr>) = (s1, Inr ())" "serve_frame P prof f s1 = (s', Inl x)"
      by (auto simp: bindA_eq_Inl)
    then show ?thesis
    proof cases
      case 1
      then show ?thesis using count_Inl(1) [OF 1] out by simp
    next
      case 2
      note eff = count_Inr(1) [OF 2(1)]
      have "in_step s1" using eff assms(2) by (simp add: in_step_def)
      from serve_frame_Inl [OF 2(2) this] show ?thesis using eff out Pair Inr by auto
    qed
  qed
qed

section \<open>The attacker\<close>

text \<open>
  The frames that can be read off a stream one after the other, up to the first place where
  reading fails.
\<close>

lemma frame_dec_shorter: "frame_dec bs = Some (f, rest) \<Longrightarrow> length rest < length bs"
  using frames.enc_dec [of bs f rest] by simp

function arriving :: "bytes \<Rightarrow> wire_frame list" where
  "arriving bs = (case frame_dec bs of None \<Rightarrow> [] | Some (f, rest) \<Rightarrow> f # arriving rest)"
  by pat_completeness auto

termination arriving
  by (relation "measure length") (auto dest: frame_dec_shorter)

declare arriving.simps [simp del]

lemma arriving_frame: "valid_frame f \<Longrightarrow> arriving (serialize f @ bs) = f # arriving bs"
  by (subst arriving.simps) (simp add: frames.dec_enc)

lemma arriving_nil: "arriving [] = []"
  by (subst arriving.simps) (simp add: frame_dec_def read_from_eof)

lemma arriving_read:
  "read_from s = (s', Inr f) \<Longrightarrow> arriving (inbox s) = f # arriving (inbox s')"
  by (simp add: read_from_Inr arriving_frame)

lemma arriving_frames:
  "list_all valid_frame fs \<Longrightarrow> arriving (concat (map serialize fs) @ bs) = fs @ arriving bs"
  by (induction fs) (simp_all add: arriving_frame)

text \<open>
  A frame is authentic under a key if its payload opens with the nonce of its header and
  the associated data of its type. The attacker does not forge: what reaches the reader may
  be anything, in any order and any number of times, but the frames among it that are
  authentic are frames the sender made (the ciphertext integrity that an AEAD scheme
  promises whoever does not hold the key).
\<close>

definition authentic :: "primitives \<Rightarrow> bytes \<Rightarrow> wire_frame \<Rightarrow> bool" where
  "authentic P k f =
     (case wf_msg_type f of
        DataPayload \<Rightarrow> p_open P k (build_nonce (wf_nonce f)) DATA_AAD (wf_payload f) \<noteq> None
      | Heartbeat \<Rightarrow> p_open P k (build_nonce (wf_nonce f)) HEARTBEAT_AAD (wf_payload f) \<noteq> None
      | _ \<Rightarrow> False)"

definition no_forgery :: "primitives \<Rightarrow> bytes \<Rightarrow> wire_frame list \<Rightarrow> bytes \<Rightarrow> bool" where
  "no_forgery P k fs bs = list_all (\<lambda>f. authentic P k f \<longrightarrow> f \<in> set fs) (arriving bs)"

lemma sealed_nth:
  "sealed P c xs fs \<Longrightarrow> i < length fs \<Longrightarrow>
     i < length xs \<and> seals P (c\<lparr>cs_nonce := cs_nonce c + word_of_nat i\<rparr>) (xs ! i) (fs ! i)"
proof (induction P c xs fs arbitrary: i rule: sealed.induct)
  case (3 P c x xs g gs)
  show ?case
  proof (cases i)
    case (Suc j)
    then show ?thesis
      using 3(1) [of j] 3(2,3) by (simp add: next_nonce_def ac_simps)
  qed (use 3 in simp)
qed simp_all

text \<open>So the authentic frame with the reader's next number is the sender's frame of that number.\<close>

lemma sent_in_turn:
  assumes "sealed P (cipher_new k) xs fs" "length xs < 2 ^ 64" "j \<le> length xs"
    and "f \<in> set fs" "wf_nonce f = word_of_nat j"
  shows "j < length xs \<and> seals P ((cipher_new k)\<lparr>cs_nonce := word_of_nat j\<rparr>) (xs ! j) f"
proof -
  obtain i where i: "i < length fs" "f = fs ! i" using assms(4) by (auto simp: in_set_conv_nth)
  then have s: "i < length xs" "seals P ((cipher_new k)\<lparr>cs_nonce := word_of_nat i\<rparr>) (xs ! i) f"
    using sealed_nth [OF assms(1) i(1)] by (simp_all add: cipher_new_def)
  then have "word_of_nat j = (word_of_nat i :: u64)"
    using assms(5) by (auto simp: seals_def new_frame_def split: prod.splits)
  then have "unat (word_of_nat j :: u64) = unat (word_of_nat i :: u64)" by simp
  then have "j = i" using s(1) assms(2,3) by (simp add: unat_of_nat)
  then show ?thesis using s by simp
qed

lemma sealed_opens:
  assumes "aead_correct P" "seals P c x f"
  shows "wf_msg_type f = fst x \<and> wf_nonce f = cs_nonce c \<and>
    p_open P (cs_key c) (build_nonce (wf_nonce f)) (fst (snd x)) (wf_payload f) = Some (snd (snd x))"
  using assms by (auto simp: seals_def aead_correct_def new_frame_def split: prod.splits)

section \<open>What the server accepts\<close>

lemma carried_is_sent:
  assumes "aead_correct P" "sealed P (cipher_new k) (map request_item rs) fs" "length rs < 2 ^ 64"
    and "carries P c f e" "cs_key c = k" "cs_nonce c = word_of_nat j" "j \<le> length rs"
    and genuine: "authentic P k f \<longrightarrow> f \<in> set fs"
  shows "j < length rs \<and> e = rs ! j"
proof -
  have "authentic P k f" "wf_nonce f = word_of_nat j"
    using assms(4-6) by (cases e; simp add: carries_def authentic_def)+
  then have s: "j < length rs" "seals P ((cipher_new k)\<lparr>cs_nonce := word_of_nat j\<rparr>) (request_item (rs ! j)) f"
    using sent_in_turn [OF assms(2), of j f] assms(3,7) genuine by auto
  have "carries P c f (rs ! j)"
    using sealed_opens [OF assms(1) s(2)] assms(5,6)
    by (cases "request_item (rs ! j)") (auto simp: carries_def cipher_new_def)
  then show ?thesis using carries_unique [OF _ assms(4)] s(1) by simp
qed

lemma accepted_are_sent:
  assumes "session_spec P rx tx hs es gs rx' tx'"
    and "aead_correct P" "sealed P (cipher_new k) (map request_item rs) fs" "length rs < 2 ^ 64"
    and "\<forall>f\<in>set hs. authentic P k f \<longrightarrow> f \<in> set fs"
    and "cs_key rx = k" "cs_nonce rx = word_of_nat j" "j \<le> length rs"
  shows "es = take (length es) (drop j rs) \<and> j + length es \<le> length rs \<and>
    cs_key rx' = k \<and> cs_nonce rx' = word_of_nat (j + length es)"
  using assms(1,5-8)
proof (induction arbitrary: j rule: session_spec.induct)
  case (spec_answer rx f e tx g hs es gs rx' tx')
  have sent: "j < length rs" "e = rs ! j"
    using carried_is_sent [OF assms(2-4) spec_answer.hyps(1)] spec_answer.prems by auto
  have "es = take (length es) (drop (Suc j) rs) \<and> Suc j + length es \<le> length rs \<and>
      cs_key rx' = k \<and> cs_nonce rx' = word_of_nat (Suc j + length es)"
    by (rule spec_answer.IH) (use spec_answer.prems sent in simp_all)
  then show ?case using sent by (simp add: Cons_nth_drop_Suc [symmetric])
qed simp_all

lemma spec_sealed:
  "session_spec P rx tx hs es gs rx' tx' \<Longrightarrow> sealed P tx' xs ks \<Longrightarrow> sealed P tx (map answer_item es @ xs) (gs @ ks)"
  by (induction rule: session_spec.induct) simp_all

section \<open>What the client shows\<close>

text \<open>The printed lines that report an authenticated answer, and what an answer prints.\<close>

fun is_reply :: "printed \<Rightarrow> bool" where
  "is_reply (ServerReply _) = True"
| "is_reply (HeartbeatReply _) = True"
| "is_reply _ = False"

fun answer_shown :: "event \<Rightarrow> printed" where
  "answer_shown (Said m) = ServerReply (REPLY_PREFIX @ from_utf8_lossy m)"
| "answer_shown (Pinged m) = HeartbeatReply PONG"

definition view :: "repl \<Rightarrow> cipher_state \<times> printed list" where
  "view r = (r_rx r, filter is_reply (r_printed r))"

lemma view_simps [simp]:
  "view (r\<lparr>r_net := n\<rparr>) = view r" "view (r\<lparr>r_tx := c\<rparr>) = view r" "view (r\<lparr>r_metrics := m\<rparr>) = view r"
  by (simp_all add: view_def)

text \<open>
  Actions that leave the receiving cipher, the reported answers and the unread input alone,
  whatever their outcome.
\<close>

definition quiet :: "(repl, 'a) act \<Rightarrow> bool" where
  "quiet m \<longleftrightarrow> (\<forall>r. view (fst (m r)) = view r \<and> inbox (r_net (fst (m r))) = inbox (r_net r))"

lemma quiet_bind: "quiet m \<Longrightarrow> (\<And>x. quiet (k x)) \<Longrightarrow> quiet (bindA m k)"
  unfolding quiet_def bindA_def
  by (metis (mono_tags, lifting) case_prod_beta fst_conv old.sum.simps(5,6) sum.exhaust_sel)

lemma quiet_basic:
  "quiet (ret x)" "quiet (throw e)" "quiet (getsA g)" "quiet (arithA v)"
  "quiet (onA r_tx r_tx_update c)" "quiet (onA r_metrics r_metrics_update m)"
  by (auto simp: quiet_def ret_def throw_def getsA_def arithA_def onA_def split: prod.split)

lemma quiet_net:
  "quiet (onA r_net r_net_update (write_to f))"
  "quiet (discard (onA r_net r_net_update (write_to f)))"
  "quiet (onA r_net r_net_update instant_now)"
proof -
  show w: "quiet (onA r_net r_net_update (write_to f))"
    using write_to_inbox [of f] by (auto simp: quiet_def onA_def split: prod.split) (metis fst_conv)
  show "quiet (onA r_net r_net_update instant_now)"
    using instant_now_total by (auto simp: quiet_def onA_def split: prod.split) (metis fst_conv)
  show "quiet (discard (onA r_net r_net_update (write_to f)))"
    using w by (auto simp: quiet_def discard_def split: prod.split sum.split fault.split) (metis fst_conv)+
qed

lemma quiet_print: "\<not> is_reply p \<Longrightarrow> quiet (print_line p)"
  by (simp add: quiet_def print_line_def modifyA_def view_def)

lemma quiet_count: "quiet (repl_count_tx prof n)" "quiet (repl_count_rx prof n)"
  unfolding repl_count_tx_def repl_count_rx_def by (intro quiet_bind quiet_basic quiet_net)+

lemmas quiet_intros = quiet_bind quiet_basic quiet_net quiet_print quiet_count

lemma quietD: "quiet m \<Longrightarrow> m r = (r', x) \<Longrightarrow> view r' = view r \<and> inbox (r_net r') = inbox (r_net r)"
  by (metis fst_conv quiet_def)

text \<open>
  Opening a frame out of a set \<open>F\<close> under its own number and printing what it says; and the
  actions that are quiet but for reading frames of \<open>F\<close> and reporting one of them at most.
\<close>

definition reports :: "primitives \<Rightarrow> wire_frame set \<Rightarrow> repl \<Rightarrow> repl \<Rightarrow> bool" where
  "reports P F r r' \<longleftrightarrow>
     (\<exists>f a p m. f \<in> F \<and> (wf_msg_type f, a, p) \<in> {(DataPayload, DATA_AAD, ServerReply), (Heartbeat, HEARTBEAT_AAD, HeartbeatReply)} \<and>
        wf_nonce f = cs_nonce (r_rx r) \<and>
        p_open P (cs_key (r_rx r)) (build_nonce (wf_nonce f)) a (wf_payload f) = Some m \<and>
        view r' = (next_nonce (r_rx r), filter is_reply (r_printed r) @ [p (from_utf8_lossy m)]))"

definition fits :: "wire_frame set \<Rightarrow> repl \<Rightarrow> bool" where
  "fits F r \<longleftrightarrow> set (arriving (inbox (r_net r))) \<subseteq> F"

definition reporting :: "primitives \<Rightarrow> wire_frame set \<Rightarrow> (repl, flow) act \<Rightarrow> bool" where
  "reporting P F m \<longleftrightarrow> (\<forall>r r' x. fits F r \<longrightarrow> m r = (r', x) \<longrightarrow>
     (x = Inr Continue \<longrightarrow> fits F r') \<and> (view r' = view r \<or> (reports P F r r' \<and> x = Inr Continue)))"

lemma reporting_quiet: "quiet m \<Longrightarrow> reporting P F m"
  using quietD [of m] by (auto simp: reporting_def fits_def)

lemma reports_view: "view r1 = view r \<Longrightarrow> reports P F r1 r' = reports P F r r'"
  by (simp add: reports_def view_def)

lemma reporting_bind:
  assumes "quiet m" "\<And>x. reporting P F (k x)"
  shows "reporting P F (bindA m k)"
  unfolding reporting_def
proof (intro allI impI)
  fix r r' x assume fit: "fits F r" and run: "bindA m k r = (r', x)"
  obtain r1 y where m: "m r = (r1, y)" by fastforce
  then have v: "view r1 = view r" "fits F r1" using quietD [OF assms(1)] fit by (simp_all add: fits_def)
  show "(x = Inr Continue \<longrightarrow> fits F r') \<and> (view r' = view r \<or> (reports P F r r' \<and> x = Inr Continue))"
  proof (cases y)
    case (Inr z)
    then have "k z r1 = (r', x)" using run m by (simp add: bindA_case)
    then show ?thesis
      using assms(2) [of z] v reports_view [OF v(1)] unfolding reporting_def by metis
  qed (use run m v in \<open>auto simp: bindA_case\<close>)
qed

lemma reporting_read:
  assumes "\<And>f. f \<in> F \<Longrightarrow> reporting P F (k f)"
  shows "reporting P F (bindA (onA r_net r_net_update read_from) k)"
  unfolding reporting_def
proof (intro allI impI)
  fix r r' x assume fit: "fits F r" and run: "bindA (onA r_net r_net_update read_from) k r = (r', x)"
  obtain n y where m: "read_from (r_net r) = (n, y)" by fastforce
  show "(x = Inr Continue \<longrightarrow> fits F r') \<and> (view r' = view r \<or> (reports P F r r' \<and> x = Inr Continue))"
  proof (cases y)
    case (Inr f)
    let ?r = "r\<lparr>r_net := n\<rparr>"
    have "arriving (inbox (r_net r)) = f # arriving (inbox n)"
      using m Inr by (simp add: arriving_read)
    then have v: "f \<in> F" "fits F ?r" "view ?r = view r" using fit by (simp_all add: fits_def)
    moreover have "k f ?r = (r', x)" using run m Inr by (simp add: bindA_case onA_def)
    ultimately show ?thesis
      using assms [of f] reports_view [OF v(3)] unfolding reporting_def by metis
  qed (use run m in \<open>auto simp: bindA_case onA_def\<close>)
qed

lemma reporting_open:
  assumes "f \<in> F"
    and "(wf_msg_type f, a, p) \<in> {(DataPayload, DATA_AAD, ServerReply), (Heartbeat, HEARTBEAT_AAD, HeartbeatReply)}"
  shows "reporting P F (bindA (onA r_rx r_rx_update (decrypt P prof (wf_payload f) a (wf_nonce f))) (\<lambda>d.
    bindA (print_line (p (from_utf8_lossy d))) (\<lambda>_. ret Continue)))"
  unfolding reporting_def
proof (intro allI impI)
  fix r r' x
  assume fit: "fits F r" and run: "bindA (onA r_rx r_rx_update (decrypt P prof (wf_payload f) a (wf_nonce f))) (\<lambda>d.
    bindA (print_line (p (from_utf8_lossy d))) (\<lambda>_. ret Continue)) r = (r', x)"
  obtain c y where d: "decrypt P prof (wf_payload f) a (wf_nonce f) (r_rx r) = (c, y)" by fastforce
  show "(x = Inr Continue \<longrightarrow> fits F r') \<and> (view r' = view r \<or> (reports P F r r' \<and> x = Inr Continue))"
  proof (cases y)
    case (Inl e)
    then have "c = r_rx r" using d decrypt_Inl by blast
    then show ?thesis using run d Inl by (auto simp: bindA_case onA_def)
  next
    case (Inr m)
    have o: "wf_nonce f = cs_nonce (r_rx r)" "c = next_nonce (r_rx r)"
        "p_open P (cs_key (r_rx r)) (build_nonce (wf_nonce f)) a (wf_payload f) = Some m"
      using d Inr by (auto simp: decrypt_Inr next_nonce_def)
    have end_of_line: "r' = r\<lparr>r_rx := c, r_printed := r_printed r @ [p (from_utf8_lossy m)]\<rparr>" "x = Inr Continue"
      using run d Inr by (simp_all add: bindA_case onA_def print_line_def modifyA_def ret_def)
    have "is_reply (p (from_utf8_lossy m))" using assms(2) by auto
    then have "view r' = (next_nonce (r_rx r), filter is_reply (r_printed r) @ [p (from_utf8_lossy m)])"
      using o(2) end_of_line by (simp add: view_def)
    then have "reports P F r r'" unfolding reports_def using assms o by blast
    then show ?thesis using fit end_of_line by (simp add: fits_def)
  qed
qed

lemma reporting_if:
  "(b \<Longrightarrow> reporting P F m) \<Longrightarrow> (\<not> b \<Longrightarrow> reporting P F m') \<Longrightarrow> reporting P F (if b then m else m')"
  by simp

lemma reporting_line: "reporting P F (interactive_line P prof client l)"
  unfolding interactive_line_def Let_def
  by (intro reporting_if reporting_read reporting_bind reporting_open quiet_intros;
      (intro reporting_quiet quiet_intros)?; simp)

lemma reported_is_answer:
  assumes "aead_correct P" "sealed P (cipher_new k) (map answer_item es) gs" "length es < 2 ^ 64"
    and "\<forall>f\<in>F. authentic P k f \<longrightarrow> f \<in> set gs"
    and r: "reports P F r r'" "cs_key (r_rx r) = k" "cs_nonce (r_rx r) = word_of_nat j" "j \<le> length es"
  shows "j < length es \<and> view r' = (next_nonce (r_rx r), filter is_reply (r_printed r) @ [answer_shown (es ! j)])"
proof -
  obtain f a p m where f: "f \<in> F"
      "(wf_msg_type f, a, p) \<in> {(DataPayload, DATA_AAD, ServerReply), (Heartbeat, HEARTBEAT_AAD, HeartbeatReply)}"
      "wf_nonce f = word_of_nat j" "p_open P k (build_nonce (wf_nonce f)) a (wf_payload f) = Some m"
      "view r' = (next_nonce (r_rx r), filter is_reply (r_printed r) @ [p (from_utf8_lossy m)])"
    using r(1-3) unfolding reports_def by auto
  have "authentic P k f" using f(2,4) by (auto simp: authentic_def)
  then have "f \<in> set gs" using assms(4) f(1) by blast
  then have s: "j < length es" "seals P ((cipher_new k)\<lparr>cs_nonce := word_of_nat j\<rparr>) (answer_item (es ! j)) f"
    using sent_in_turn [OF assms(2), of j f] assms(3) r(4) f(3) by auto
  note o = sealed_opens [OF assms(1) s(2)]
  have lossy: "from_utf8_lossy (REPLY_PREFIX @ from_utf8_lossy x) = REPLY_PREFIX @ from_utf8_lossy x" for x
    using reply_valid [OF utf8_valid_lossy, of x] by (intro lossy_valid) (simp add: from_utf8_def split: if_splits)
  have pong: "from_utf8_lossy PONG = PONG"
    by (rule lossy_valid, rule utf8_valid_ascii) (simp add: PONG_def bytes_of_def)
  show ?thesis
    using s(1) o f lossy pong by (cases "es ! j") (auto simp: cipher_new_def)
qed

lemma shown_are_answers:
  assumes "aead_correct P" "sealed P (cipher_new k) (map answer_item es) gs" "length es < 2 ^ 64"
    and "\<forall>f\<in>F. authentic P k f \<longrightarrow> f \<in> set gs"
  shows "interactive_loop P prof client ls r = (r', res) \<Longrightarrow> fits F r \<Longrightarrow> cs_key (r_rx r) = k \<Longrightarrow>
    cs_nonce (r_rx r) = word_of_nat j \<Longrightarrow> j \<le> length es \<Longrightarrow>
    \<exists>n. j + n \<le> length es \<and> filter is_reply (r_printed r') =
      filter is_reply (r_printed r) @ map answer_shown (take n (drop j es))"
proof (induction ls arbitrary: r j)
  case (Cons l ls)
  show ?case
  proof (cases l)
    case (Some b)
    obtain r1 x where line: "interactive_line P prof client b r = (r1, x)" by fastforce
    have fit: "x = Inr Continue \<Longrightarrow> fits F r1"
      using reporting_line [of P F prof client b] line Cons.prems(2) unfolding reporting_def by blast
    consider (quiet) "view r1 = view r" | (report) "reports P F r r1" "x = Inr Continue"
      using reporting_line [of P F prof client b] line Cons.prems(2) unfolding reporting_def by blast
    then show ?thesis
    proof cases
      case quiet
      then have eq: "r_rx r1 = r_rx r" "filter is_reply (r_printed r1) = filter is_reply (r_printed r)"
        by (simp_all add: view_def)
      show ?thesis
      proof (cases "x = Inr Continue")
        case True
        then show ?thesis using Cons.IH [of r1 j] Cons.prems line Some eq fit by simp
      next
        case False
        then have "r' = r1" using Cons.prems(1) line Some by (auto split: sum.splits flow.splits)
        then show ?thesis using eq Cons.prems(5) by (intro exI [of _ 0]) simp
      qed
    next
      case report
      have ans: "j < length es" "view r1 = (next_nonce (r_rx r), filter is_reply (r_printed r) @ [answer_shown (es ! j)])"
        using reported_is_answer [OF assms report(1) Cons.prems(3-5)] by simp_all
      then have rx: "cs_key (r_rx r1) = k" "cs_nonce (r_rx r1) = word_of_nat (Suc j)"
        and pr: "filter is_reply (r_printed r1) = filter is_reply (r_printed r) @ [answer_shown (es ! j)]"
        using Cons.prems(3,4) by (simp_all add: view_def)
      have "interactive_loop P prof client ls r1 = (r', res)"
        using Cons.prems(1) line Some report(2) by simp
      from Cons.IH [OF this fit [OF report(2)] rx] ans(1) obtain n where n: "Suc j + n \<le> length es"
          "filter is_reply (r_printed r') = filter is_reply (r_printed r1) @ map answer_shown (take n (drop (Suc j) es))"
        by auto
      then show ?thesis
        using pr ans(1) by (intro exI [of _ "Suc n"]) (simp add: Cons_nth_drop_Suc [symmetric])
    qed
  qed (use Cons.prems in \<open>auto intro: exI [of _ 0]\<close>)
qed (auto intro: exI [of _ 0])

section \<open>Properties\<close>


text \<open>
  C5. An attacker on the network can only cut the session short: if the client has sealed
  the requests \<open>rs\<close> and no frame that reaches the server is a forgery, then, whatever bytes
  reach it (the client's frames dropped, repeated, reordered or altered, and anything in
  between) and wherever writing fails, what the server has written at the end is a prefix of
  the correctly sealed answers to a prefix of \<open>rs\<close>, and exactly the answers to a prefix of
  \<open>rs\<close> if the session ends without an error. Nothing is reordered, repeated, altered or left
  out in between.
\<close>

theorem attacker_can_only_truncate:
  assumes "aead_correct P" "sealed P (cipher_new k) (map request_item rs) fs" "length rs < 2 ^ 64"
    and forge: "no_forgery P k fs (inbox n)"
    and run: "transport_loop P prof (start_session n (cipher_new k) tx t) = (s', r)"
  shows "\<exists>es ys gs j. rs = es @ ys \<and> sealed P tx (map answer_item es) gs \<and>
    outbox (s_net s') = outbox n @ take j (concat (map serialize gs)) \<and>
    (r = Inr () \<longrightarrow> outbox (s_net s') = outbox n @ concat (map serialize gs))"
proof -
  let ?s = "start_session n (cipher_new k) tx t"
  obtain hs es gs s1 where s1: "reached P ?s hs es gs s1"
      "transport_step P prof s1 = (s', map_sum id (\<lambda>_. Break) r)"
    using loop_runs [OF _ run] by auto
  then have spec: "session_spec P (cipher_new k) tx hs es gs (s_rx s1) (s_tx s1)"
    and out: "outbox (s_net s1) = outbox n @ concat (map serialize gs)" and step: "in_step s1"
    and inb: "arriving (inbox n) = hs @ arriving (inbox (s_net s1))"
    by (simp_all add: reached_def arriving_frames)
  have genuine: "\<forall>f\<in>set (hs @ arriving (inbox (s_net s1))). authentic P k f \<longrightarrow> f \<in> set fs"
    using forge inb by (simp add: no_forgery_def list_all_iff)
  have es: "es = take (length es) rs" "length es \<le> length rs" "cs_key (s_rx s1) = k"
      "cs_nonce (s_rx s1) = word_of_nat (length es)"
    using accepted_are_sent [OF spec assms(1-3), of 0] genuine by (simp_all add: cipher_new_def)
  have gs: "sealed P tx (map answer_item es) gs"
    using spec_sealed [OF spec, of "[]" "[]"] by simp
  have split: "rs = es @ drop (length es) rs" using es(1) by (metis append_take_drop_id)
  show ?thesis
  proof (cases r)
    case (Inr u)
    then have "transport_step P prof s1 = (s', Inr Break)" using s1(2) by simp
    then have "outbox (s_net s') = outbox (s_net s1)"
      using step
    proof (cases rule: transport_step_Inr)
      case (broken n e)
      then show ?thesis
        using read_from_only_inbox [of "s_net s1"]
        by (metis fst_conv net.select_convs(2) net.surjective net.update_convs(1) session.select_convs(1)
            session.surjective session.update_convs(1))
    next
      case (turn n f s2)
      from turn(3,4) show ?thesis by (cases rule: serve_frame_Inr) (simp_all add: turn(7))
    qed
    then show ?thesis
      using split gs out
      by (intro exI [of _ es] exI [of _ "drop (length es) rs"] exI [of _ gs] exI [of _ "length (concat (map serialize gs))"])
        simp
  next
    case (Inl x)
    then have "transport_step P prof s1 = (s', Inl x)" using s1(2) by simp
    then consider "outbox (s_net s') = outbox (s_net s1)"
      | n' f e g i where "read_from (s_net s1) = (n', Inr f)" "carries P (s_rx s1) f e" "seals P (s_tx s1) (answer_item e) g"
        "outbox (s_net s') = outbox (s_net s1) @ take i (serialize g)"
      using transport_step_Inl [OF _ step] by blast
    then show ?thesis
    proof cases
      case 1
      then show ?thesis
        using split gs out Inl
        by (intro exI [of _ es] exI [of _ "drop (length es) rs"] exI [of _ gs]
            exI [of _ "length (concat (map serialize gs))"]) simp
    next
      case 2
      have e: "length es < length rs" "e = rs ! length es"
        using carried_is_sent [OF assms(1-3) 2(2) es(3,4,2)] genuine arriving_read [OF 2(1)] by auto
      have "rs = (es @ [e]) @ drop (Suc (length es)) rs"
        using split e by (metis Cons_nth_drop_Suc append_Cons append_Nil append_assoc)
      moreover have "sealed P tx (map answer_item (es @ [e])) (gs @ [g])"
        using spec_sealed [OF spec, of "[answer_item e]" "[g]"] 2(3) by simp
      ultimately show ?thesis
        using out 2(4) Inl
        by (intro exI [of _ "es @ [e]"] exI [of _ "drop (Suc (length es)) rs"] exI [of _ "gs @ [g]"]
            exI [of _ "length (concat (map serialize gs)) + i"]) simp
    qed
  qed
qed

text \<open>
  The witness: after the client's frame the attacker repeats it and then sends it under the
  next number with its text altered.
\<close>

theorem attacker_can_only_truncate_witness:
  "let tag = toy_tag [1] (build_nonce 0) DATA_AAD [0x68];
       f = new_frame DataPayload 0 (0x68 # tag); f' = new_frame DataPayload 1 (0x69 # tag) in
    \<exists>s' r. sealed toy (cipher_new [1]) (map request_item [Said [0x68]]) [f] \<and>
    transport_loop toy Debug
      (start_session (connection (serialize f @ serialize f @ serialize f')) (cipher_new [1]) (cipher_new [2]) 0) =
      (s', r) \<and>
    (\<exists>es ys gs j. [Said [0x68]] = es @ ys \<and> sealed toy (cipher_new [2]) (map answer_item es) gs \<and>
      outbox (s_net s') = take j (concat (map serialize gs)))"
proof -
  define tag where "tag = toy_tag [1] (build_nonce 0) DATA_AAD [0x68]"
  define f where "f = new_frame DataPayload 0 (0x68 # tag)"
  define f' where "f' = new_frame DataPayload 1 (0x69 # tag)"
  let ?n = "connection (serialize f @ serialize f @ serialize f')" and ?rs = "[Said [0x68]]"
  have f: "sealed toy (cipher_new [1]) (map request_item ?rs) [f]"
    by (simp add: seals_def cipher_new_def f_def tag_def toy_def aead_limit_def)
  have "le_val ([1] @ build_nonce 0) = 1" "le_val ([1] @ build_nonce 1) = 257"
    by code_simp+
  then have "toy_tag [1] (build_nonce 1) DATA_AAD [0x69] \<noteq> tag"
    by (simp add: tag_def toy_tag_def u64_le_inj)
  then have "\<not> authentic toy [1] f'"
    by (simp add: authentic_def f'_def tag_def new_frame_def toy_def Let_def)
  moreover have "arriving (inbox ?n) = [f, f, f']"
  proof -
    have "valid_frame f" "valid_frame f'"
      by (simp_all add: valid_frame_le f_def f'_def new_frame_def tag_def)
    then show ?thesis
      using arriving_frames [of "[f, f, f']" "[]"] by (simp add: arriving_nil)
  qed
  ultimately have forge: "no_forgery toy [1] [f] (inbox ?n)"
    by (simp add: no_forgery_def)
  obtain s' r where run: "transport_loop toy Debug (start_session ?n (cipher_new [1]) (cipher_new [2]) 0) = (s', r)"
    by fastforce
  have few: "length ?rs < 2 ^ 64" by simp
  obtain es ys gs j where "?rs = es @ ys" "sealed toy (cipher_new [2]) (map answer_item es) gs"
      "outbox (s_net s') = take j (concat (map serialize gs))"
    using attacker_can_only_truncate [OF toy_aead(1) f few forge run]
    unfolding connection_simps append_Nil by blast
  then show ?thesis
    using f run unfolding Let_def tag_def [symmetric] f_def [symmetric] f'_def [symmetric] by blast
qed

text \<open>
  C23. What the interactive client shows as answers is what the server answered: if the
  server has sealed the answers to \<open>es\<close> and no frame that reaches the client is a forgery,
  then, whatever bytes reach it, however the session ends and whatever is typed, the replies
  printed are, in order, the answers to a prefix of \<open>es\<close>.
\<close>

theorem client_shows_only_answers:
  assumes "aead_correct P" "sealed P (cipher_new k) (map answer_item es) gs" "length es < 2 ^ 64"
    and forge: "no_forgery P k gs (inbox (r_net r))"
    and "interactive_loop P prof client ls r = (r', res)" "r_rx r = cipher_new k" "r_printed r = []"
  shows "\<exists>ds ys. es = ds @ ys \<and> filter is_reply (r_printed r') = map answer_shown ds"
proof -
  let ?F = "set (arriving (inbox (r_net r)))"
  have start: "fits ?F r" "cs_key (r_rx r) = k" "cs_nonce (r_rx r) = word_of_nat 0" "0 \<le> length es"
    using assms(6) by (simp_all add: cipher_new_def fits_def)
  have "\<forall>f\<in>?F. authentic P k f \<longrightarrow> f \<in> set gs" using forge by (simp add: no_forgery_def list_all_iff)
  from shown_are_answers [OF assms(1-3) this assms(5) start] assms(7) obtain n where
    "filter is_reply (r_printed r') = map answer_shown (take n es)" by auto
  then show ?thesis by (intro exI [of _ "take n es"] exI [of _ "drop n es"]) simp
qed

text \<open>The witness: the attacker gives the server's one answer twice.\<close>

theorem client_shows_only_answers_witness:
  "let g = new_frame Heartbeat 0 (PONG @ toy_tag [2] (build_nonce 0) HEARTBEAT_AAD PONG) in
    \<exists>r r' res. sealed toy (cipher_new [2]) (map answer_item [Pinged []]) [g] \<and>
    interactive_loop toy Debug (client_new [] []) [Some [0x61], Some [0x62]] r = (r', res) \<and>
    inbox (r_net r) = serialize g @ serialize g \<and>
    (\<exists>ds ys. [Pinged []] = ds @ ys \<and> filter is_reply (r_printed r') = map answer_shown ds)"
proof -
  define g where "g = new_frame Heartbeat 0 (PONG @ toy_tag [2] (build_nonce 0) HEARTBEAT_AAD PONG)"
  have g: "sealed toy (cipher_new [2]) (map answer_item [Pinged []]) [g]"
    by (simp add: seals_def cipher_new_def g_def toy_def aead_limit_def PONG_def bytes_of_def)
  define r :: repl where "r = \<lparr>r_net = connection (serialize g @ serialize g), r_tx = cipher_new [1],
      r_rx = cipher_new [2], r_metrics = metrics_new 0, r_printed = []\<rparr>"
  have "valid_frame g"
    by (simp add: valid_frame_le g_def new_frame_def PONG_def bytes_of_def)
  then have forge: "no_forgery toy [2] [g] (inbox (r_net r))"
    using arriving_frames [of "[g, g]" "[]"] by (simp add: no_forgery_def arriving_nil r_def)
  obtain r' res where run: "interactive_loop toy Debug (client_new [] []) [Some [0x61], Some [0x62]] r = (r', res)"
    by fastforce
  have few: "length [Pinged []] < 2 ^ 64" and r: "r_rx r = cipher_new [2]" "r_printed r = []"
      "inbox (r_net r) = serialize g @ serialize g"
    by (simp_all add: r_def)
  obtain ds ys where "[Pinged []] = ds @ ys" "filter is_reply (r_printed r') = map answer_shown ds"
    using client_shows_only_answers [OF toy_aead(1) g few forge run r(1,2)] by blast
  then show ?thesis using g run r(3) unfolding Let_def g_def [symmetric] by blast
qed

end
