(* ===== verification/Machine.thy ===== *)
theory Machine
  imports Prelude
begin

text \<open>
  Runs of a machine whose actions may be disabled, and the interface through which an
  invariant of single actions becomes one of every run that takes allowed actions only.
\<close>

fun run_actions :: "('a \<Rightarrow> 's \<Rightarrow> 's option) \<Rightarrow> 'a list \<Rightarrow> 's \<Rightarrow> 's option" where
  "run_actions step [] s = Some s"
| "run_actions step (a # as) s =
     (case step a s of None \<Rightarrow> None | Some s' \<Rightarrow> run_actions step as s')"

lemma run_actions_append:
  "run_actions step (as @ bs) s =
     (case run_actions step as s of None \<Rightarrow> None | Some s' \<Rightarrow> run_actions step bs s')"
  by (induction as arbitrary: s) (simp_all split: option.split)

locale machine_invariant =
  fixes step :: "'a \<Rightarrow> 's \<Rightarrow> 's option"
    and allowed :: "'a \<Rightarrow> bool"
    and inv :: "'s \<Rightarrow> bool"
  assumes inv_step: "\<lbrakk>inv s; allowed a; step a s = Some s'\<rbrakk> \<Longrightarrow> inv s'"
begin

lemma run_inv: "run_actions step as s = Some s' \<Longrightarrow> list_all allowed as \<Longrightarrow> inv s \<Longrightarrow> inv s'"
  by (induction as arbitrary: s) (auto split: option.splits dest: inv_step)

end

end
