(* ===== verification/Server.thy ===== *)
theory Server
  imports Transport Machine
begin

text \<open>
  The server object and its accept loop (\<open>struct TunnelServer\<close>, src/src/server.rs 16-168).
  The shared counter of active connections is an atomic 64-bit word. The accept loop and
  the client tasks interleave at their atomic accesses to it: the load before the limit
  check, \<open>fetch_add\<close> with the spawn, and the wrapping \<open>fetch_sub\<close> when a task ends; a task
  that panics never reaches its \<open>fetch_sub\<close>. \<open>reset_connections\<close> may be called at any time.
\<close>

section \<open>The server object\<close>

record tunnel_server =
  ts_keypair :: key_pair
  ts_bind_addr :: bytes
  ts_max_connections :: "u64 option"
  ts_active :: u64
  ts_prologue :: bytes

definition server_new :: "key_pair \<Rightarrow> bytes \<Rightarrow> tunnel_server" where
  "server_new keypair bind_addr =
     \<lparr>ts_keypair = keypair, ts_bind_addr = bind_addr, ts_max_connections = None,
      ts_active = 0, ts_prologue = PROTOCOL_NAME\<rparr>"

definition server_from_hex :: "primitives \<Rightarrow> bytes \<Rightarrow> bytes \<Rightarrow> tunnel_server result" where
  "server_from_hex P hex_str bind_addr =
     (case from_private_hex P hex_str of
        Inl e \<Rightarrow> Inl e
      | Inr keypair \<Rightarrow> Inr (server_new keypair bind_addr))"

definition server_with_max_connections :: "u64 \<Rightarrow> tunnel_server \<Rightarrow> tunnel_server" where
  "server_with_max_connections limit s = s\<lparr>ts_max_connections := Some limit\<rparr>"

definition server_with_prologue :: "bytes \<Rightarrow> tunnel_server \<Rightarrow> tunnel_server" where
  "server_with_prologue prologue s = s\<lparr>ts_prologue := prologue\<rparr>"

definition server_with_prologue_str :: "bytes \<Rightarrow> tunnel_server \<Rightarrow> tunnel_server" where
  "server_with_prologue_str prologue s = server_with_prologue prologue s"

definition active_connections :: "tunnel_server \<Rightarrow> u64" where
  "active_connections s = ts_active s"

definition has_active_connections :: "tunnel_server \<Rightarrow> bool" where
  "has_active_connections s = (active_connections s > 0)"

definition is_idle :: "tunnel_server \<Rightarrow> bool" where
  "is_idle s = (active_connections s = 0)"

definition is_at_capacity :: "tunnel_server \<Rightarrow> bool" where
  "is_at_capacity s =
     (case ts_max_connections s of
        Some limit \<Rightarrow> limit \<le> active_connections s
      | None \<Rightarrow> False)"

definition available_capacity :: "tunnel_server \<Rightarrow> u64 option" where
  "available_capacity s =
     map_option (\<lambda>limit. u64_saturating_sub limit (active_connections s)) (ts_max_connections s)"

definition reset_connections :: "tunnel_server \<Rightarrow> tunnel_server" where
  "reset_connections s = s\<lparr>ts_active := 0\<rparr>"

definition server_public_key_hex :: "primitives \<Rightarrow> tunnel_server \<Rightarrow> bytes" where
  "server_public_key_hex P s = public_key_hex P (ts_keypair s)"

section \<open>The accept loop and the client tasks\<close>

text \<open>\<open>Checking a\<close>: a socket has been accepted and the counter was loaded as \<open>a\<close>.\<close>

datatype accept_phase = Waiting | Checking u64

record system =
  sy_server :: tunnel_server
  sy_phase :: accept_phase
  sy_live :: nat
  sy_leaked :: nat
  sy_refused :: nat

datatype action =
    Accept
  | AcceptFails
  | Decide
  | TaskEnds "unit result"
  | Reset

definition server_started :: "tunnel_server \<Rightarrow> system" where
  "server_started s =
     \<lparr>sy_server = s, sy_phase = Waiting, sy_live = 0, sy_leaked = 0, sy_refused = 0\<rparr>"

definition accept_load :: "system \<Rightarrow> system option" where
  "accept_load y =
     (case sy_phase y of
        Waiting \<Rightarrow> Some (y\<lparr>sy_phase := Checking (ts_active (sy_server y))\<rparr>)
      | Checking _ \<Rightarrow> None)"

definition accept_decide :: "system \<Rightarrow> system option" where
  "accept_decide y =
     (case sy_phase y of
        Waiting \<Rightarrow> None
      | Checking active \<Rightarrow>
          if (case ts_max_connections (sy_server y) of Some limit \<Rightarrow> limit \<le> active | None \<Rightarrow> False)
          then Some (y\<lparr>sy_phase := Waiting, sy_refused := sy_refused y + 1\<rparr>)
          else Some (y\<lparr>sy_server := (sy_server y)\<lparr>ts_active := ts_active (sy_server y) + 1\<rparr>,
                      sy_phase := Waiting, sy_live := sy_live y + 1\<rparr>))"

definition task_ends :: "unit result \<Rightarrow> system \<Rightarrow> system option" where
  "task_ends res y =
     (if sy_live y = 0 then None
      else case res of
          Inl (Panic _) \<Rightarrow> Some (y\<lparr>sy_live := sy_live y - 1, sy_leaked := sy_leaked y + 1\<rparr>)
        | _ \<Rightarrow> Some (y\<lparr>sy_server := (sy_server y)\<lparr>ts_active := ts_active (sy_server y) - 1\<rparr>,
                      sy_live := sy_live y - 1\<rparr>))"

fun system_step :: "action \<Rightarrow> system \<Rightarrow> system option" where
  "system_step Accept y = accept_load y"
| "system_step AcceptFails y = (case sy_phase y of Waiting \<Rightarrow> Some y | Checking _ \<Rightarrow> None)"
| "system_step Decide y = accept_decide y"
| "system_step (TaskEnds res) y = task_ends res y"
| "system_step Reset y = Some (y\<lparr>sy_server := reset_connections (sy_server y)\<rparr>)"

section \<open>The counter invariant\<close>

text \<open>
  The counter counts the tasks that run or have panicked; a value loaded for the limit
  check is never below the true number, because only the accept loop adds to it.
\<close>

definition capacity_inv :: "system \<Rightarrow> bool" where
  "capacity_inv y \<longleftrightarrow>
     ts_active (sy_server y) = word_of_nat (sy_live y + sy_leaked y) \<and>
     (\<forall>limit. ts_max_connections (sy_server y) = Some limit \<longrightarrow>
        sy_live y + sy_leaked y \<le> unat limit \<and>
        (\<forall>a. sy_phase y = Checking a \<longrightarrow> sy_live y + sy_leaked y \<le> unat a))"

lemma capacity_inv_started: "ts_active s = 0 \<Longrightarrow> capacity_inv (server_started s)"
  by (simp add: capacity_inv_def server_started_def)

lemma word_of_nat_pred: "0 < n \<Longrightarrow> (word_of_nat n :: u64) - 1 = word_of_nat (n - 1)"
  by (simp add: of_nat_diff)

lemma unat_counter:
  "capacity_inv y \<Longrightarrow> ts_max_connections (sy_server y) = Some limit \<Longrightarrow>
   unat (ts_active (sy_server y)) = sy_live y + sy_leaked y"
  using unat_u64 [of limit]
  by (auto simp: capacity_inv_def unat_of_nat simp del: of_nat_add)

interpretation capacity: machine_invariant system_step "\<lambda>a. a \<noteq> Reset" capacity_inv
proof
  fix y a y'
  assume inv: "capacity_inv y" and a: "a \<noteq> Reset" and st: "system_step a y = Some y'"
  show "capacity_inv y'"
  proof (cases a)
    case Accept
    then show ?thesis
      using inv st unat_counter [OF inv]
      by (auto simp: accept_load_def capacity_inv_def split: accept_phase.splits)
  next
    case Decide
    then show ?thesis
      using inv st
      by (auto simp: accept_decide_def capacity_inv_def word_le_nat_alt
          split: accept_phase.splits option.splits if_splits)
  next
    case (TaskEnds res)
    then show ?thesis
      using inv st word_of_nat_pred [of "sy_live y + sy_leaked y"]
      by (auto simp: task_ends_def capacity_inv_def split: if_splits sum.splits fault.splits)
  qed (use inv st a in \<open>auto split: accept_phase.splits\<close>)
qed

interpretation limit_kept: machine_invariant system_step "\<lambda>_. True"
    "\<lambda>y. ts_max_connections (sy_server y) = m" for m
proof
  fix y a y'
  assume "ts_max_connections (sy_server y) = m" "system_step a y = Some y'"
  then show "ts_max_connections (sy_server y') = m"
    by (cases a) (auto simp: accept_load_def accept_decide_def task_ends_def reset_connections_def
        split: accept_phase.splits if_splits sum.splits fault.splits option.splits)
qed

section \<open>Properties\<close>

text \<open>
  C17. The connection limit holds: however accepts, limit checks and ending tasks interleave,
  as long as nobody calls \<open>reset_connections\<close>, a server started with a limit never has more
  client tasks than the limit, its counter is the exact number of tasks that run or have
  panicked, the three queries answer accordingly, and a socket is refused only if the limit
  had been reached when the counter was read.
\<close>

theorem connection_limit_holds:
  assumes "ts_active s = 0" "ts_max_connections s = Some limit" "list_all (\<lambda>a. a \<noteq> Reset) as"
    and "run_actions system_step as (server_started s) = Some y"
  shows "sy_live y + sy_leaked y \<le> unat limit \<and>
    unat (active_connections (sy_server y)) = sy_live y + sy_leaked y \<and>
    map_option unat (available_capacity (sy_server y)) = Some (unat limit - (sy_live y + sy_leaked y)) \<and>
    (is_at_capacity (sy_server y) \<longleftrightarrow> sy_live y + sy_leaked y = unat limit) \<and>
    (is_idle (sy_server y) \<longleftrightarrow> sy_live y + sy_leaked y = 0) \<and>
    (\<forall>y1. system_step Accept y = Some y1 \<longrightarrow>
       (\<exists>y2. system_step Decide y1 = Some y2 \<and>
          sy_refused y2 = sy_refused y + (if is_at_capacity (sy_server y) then 1 else 0) \<and>
          sy_live y2 = sy_live y + (if is_at_capacity (sy_server y) then 0 else 1)))"
proof -
  have inv: "capacity_inv y"
    using capacity.run_inv [OF assms(4) assms(3)] capacity_inv_started [OF assms(1)] by simp
  have lim: "ts_max_connections (sy_server y) = Some limit"
    using limit_kept.run_inv [OF assms(4), of "Some limit"] assms(2)
    by (simp add: server_started_def list_all_iff)
  have exact: "unat (active_connections (sy_server y)) = sy_live y + sy_leaked y"
    using unat_counter [OF inv lim] by (simp add: active_connections_def)
  have bound: "sy_live y + sy_leaked y \<le> unat limit"
    using inv lim by (simp add: capacity_inv_def)
  have "is_at_capacity (sy_server y) \<longleftrightarrow> sy_live y + sy_leaked y = unat limit"
    using exact bound lim by (auto simp: is_at_capacity_def word_le_nat_alt)
  moreover have "is_idle (sy_server y) \<longleftrightarrow> sy_live y + sy_leaked y = 0"
    using exact by (simp add: is_idle_def unat_eq_0 flip: unat_eq_zero)
  moreover have "map_option unat (available_capacity (sy_server y)) = Some (unat limit - (sy_live y + sy_leaked y))"
    using exact lim by (simp add: available_capacity_def unat_u64_saturating_sub)
  ultimately show ?thesis
    using exact bound lim
    by (auto simp: accept_load_def accept_decide_def is_at_capacity_def active_connections_def
        split: accept_phase.splits)
qed

theorem connection_limit_holds_witness:
  "\<exists>y. run_actions system_step [Accept, Decide, Accept, Decide, Accept, Decide, TaskEnds (Inr ())]
      (server_started (server_with_max_connections 2 (server_new (from_private_bytes toy (replicate 32 1)) []))) = Some y \<and>
    sy_live y = 1 \<and> sy_refused y = 1 \<and> sy_live y + sy_leaked y \<le> 2 \<and>
    unat (active_connections (sy_server y)) = 1"
proof -
  let ?s = "server_with_max_connections 2 (server_new (from_private_bytes toy (replicate 32 1)) [])"
  let ?as = "[Accept, Decide, Accept, Decide, Accept, Decide, TaskEnds (Inr ())]"
  obtain y where y: "run_actions system_step ?as (server_started ?s) = Some y" "sy_live y = 1"
      "sy_leaked y = 0" "sy_refused y = 1"
    by (simp add: server_started_def accept_load_def accept_decide_def task_ends_def
        server_with_max_connections_def server_new_def word_le_nat_alt)
  have s: "ts_active ?s = 0" "ts_max_connections ?s = Some 2" "list_all (\<lambda>a. a \<noteq> Reset) ?as"
    by (simp_all add: server_with_max_connections_def server_new_def)
  show ?thesis
    using connection_limit_holds [OF s y(1)] y by auto
qed

text \<open>
  C35. \<open>reset_connections\<close> under load breaks the counter: if it is called while a client task
  runs, the task's \<open>fetch_sub\<close> wraps below zero to the largest 64-bit number, and the server
  then counts as full, whatever its limit is, and refuses the next client.
\<close>

theorem reset_under_load_locks_out:
  assumes "sy_live y \<noteq> 0" "sy_phase y = Waiting" "ts_max_connections (sy_server y) = Some limit"
    and "\<forall>p. res \<noteq> Inl (Panic p)"
  shows "\<exists>y1 y2. run_actions system_step [Reset, TaskEnds res] y = Some y1 \<and>
    active_connections (sy_server y1) = u64_max \<and> is_at_capacity (sy_server y1) \<and>
    available_capacity (sy_server y1) = Some 0 \<and>
    run_actions system_step [Accept, Decide] y1 = Some y2 \<and>
    sy_refused y2 = sy_refused y + 1 \<and> sy_live y2 = sy_live y - 1"
proof -
  have le: "limit \<le> u64_max" by (simp add: u64_max_def)
  have "unat (u64_saturating_sub limit u64_max) = 0"
    using le by (simp add: unat_u64_saturating_sub word_le_nat_alt)
  then have zero: "u64_saturating_sub limit u64_max = 0"
    by (simp only: unat_eq_zero)
  let ?y1 = "y\<lparr>sy_server := (sy_server y)\<lparr>ts_active := u64_max\<rparr>, sy_live := sy_live y - 1\<rparr>"
  have "run_actions system_step [Reset, TaskEnds res] y = Some ?y1"
    using assms(1,4) by (auto simp: task_ends_def reset_connections_def u64_max_def split: sum.split fault.split)
  moreover have "run_actions system_step [Accept, Decide] ?y1 = Some (?y1\<lparr>sy_refused := sy_refused y + 1\<rparr>)"
    using assms(2,3) le by (simp add: accept_load_def accept_decide_def)
  ultimately show ?thesis
    using assms(3) le zero
    by (intro exI [of _ ?y1] exI [of _ "?y1\<lparr>sy_refused := sy_refused y + 1\<rparr>"])
      (simp add: is_at_capacity_def available_capacity_def active_connections_def)
qed

theorem reset_under_load_locks_out_witness:
  "\<exists>y0 y1. run_actions system_step [Accept, Decide]
      (server_started (server_with_max_connections 50 (server_new (from_private_bytes toy (replicate 32 1)) []))) = Some y0 \<and>
    run_actions system_step [Reset, TaskEnds (Inr ())] y0 = Some y1 \<and>
    active_connections (sy_server y1) = u64_max \<and> is_at_capacity (sy_server y1)"
proof -
  let ?s = "server_with_max_connections 50 (server_new (from_private_bytes toy (replicate 32 1)) [])"
  obtain y0 where y0: "run_actions system_step [Accept, Decide] (server_started ?s) = Some y0"
      "sy_live y0 \<noteq> 0" "sy_phase y0 = Waiting" "ts_max_connections (sy_server y0) = Some 50"
    by (simp add: server_started_def accept_load_def accept_decide_def
        server_with_max_connections_def server_new_def)
  show ?thesis
    using reset_under_load_locks_out [OF y0(2-4), of "Inr ()"] y0(1) by auto
qed

end
