(* ===== verification/Safe_Actions.thy ===== *)
theory Safe_Actions
  imports Transport
begin

text \<open>
  A weakest precondition for the absence of panics: \<open>safe m R s\<close> says that the action \<open>m\<close>
  does not panic when it starts in \<open>s\<close>, and that \<open>R\<close> holds of result and state if it
  succeeds. It computes through the combinators, and each operation of the program has one
  introduction rule with the room its counters need.
\<close>

definition safe :: "('s, 'a) act \<Rightarrow> ('a \<Rightarrow> 's \<Rightarrow> bool) \<Rightarrow> 's \<Rightarrow> bool" where
  "safe m R s =
     (case m s of (s', Inl (Panic p)) \<Rightarrow> False | (s', Inl (Err e)) \<Rightarrow> True | (s', Inr x) \<Rightarrow> R x s')"

section \<open>The combinators\<close>

lemma safe_ret [simp]: "safe (ret x) R = R x"
  by (simp add: safe_def ret_def fun_eq_iff)

lemma safe_throw [simp]: "safe (throw (Err e)) R = (\<lambda>_. True)"
  by (simp add: safe_def throw_def fun_eq_iff)

lemma safe_gets [simp]: "safe (getsA f) R = (\<lambda>s. R (f s) s)"
  by (simp add: safe_def getsA_def fun_eq_iff)

lemma safe_modify [simp]: "safe (modifyA f) R = (\<lambda>s. R () (f s))"
  by (simp add: safe_def modifyA_def fun_eq_iff)

lemma safe_arith [simp]: "safe (arithA (Some x)) R = R x"
  by (simp add: safe_def arithA_def fun_eq_iff)

lemma safe_on [simp]: "safe (onA sel upd m) R = (\<lambda>s. safe m (\<lambda>x y. R x (upd (\<lambda>_. y) s)) (sel s))"
  by (auto simp: safe_def onA_def fun_eq_iff split: prod.split sum.split fault.split)

lemma safe_bind [simp]: "safe (bindA m k) R = safe m (\<lambda>x. safe (k x) R)"
  by (auto simp: safe_def bindA_case fun_eq_iff split: prod.split sum.split fault.split)

lemma safe_on_local [simp]: "safe (on_local c m) R = (\<lambda>s. safe m (\<lambda>x _. R x s) c)"
  by (auto simp: safe_def on_local_apply fun_eq_iff split: prod.split sum.split fault.split)

lemma safe_case_prod [simp]: "safe (case x of (a, b) \<Rightarrow> k a b) R = (case x of (a, b) \<Rightarrow> safe (k a b) R)"
  by (cases x) simp

lemma safe_discard_on [simp]:
  "safe (discard (onA sel upd m)) R = (\<lambda>s. safe (discard m) (\<lambda>x y. R x (upd (\<lambda>_. y) s)) (sel s))"
  by (auto simp: safe_def discard_def onA_def fun_eq_iff split: prod.split sum.split fault.split)

lemma safe_if: "(b \<Longrightarrow> safe m R s) \<Longrightarrow> (\<not> b \<Longrightarrow> safe m' R s) \<Longrightarrow> safe (if b then m else m') R s"
  by simp

lemma safe_mono: "safe m R s \<Longrightarrow> (\<And>x s'. R x s' \<Longrightarrow> R' x s') \<Longrightarrow> safe m R' s"
  by (auto simp: safe_def split: prod.splits sum.splits fault.splits)

lemma safe_conj: "safe m R s \<Longrightarrow> safe m R' s \<Longrightarrow> safe m (\<lambda>x s'. R x s' \<and> R' x s') s"
  by (auto simp: safe_def split: prod.splits sum.splits fault.splits)

lemma safe_no_panic: "safe m R s \<Longrightarrow> snd (m s) \<noteq> Inl (Panic p)"
  by (auto simp: safe_def split: prod.splits sum.splits fault.splits)

lemma safe_Inr: "safe m R s \<Longrightarrow> m s = (s', Inr x) \<Longrightarrow> R x s'"
  by (simp add: safe_def)

lemma safe_I: "(\<And>p. snd (m s) \<noteq> Inl (Panic p)) \<Longrightarrow> (\<And>s' x. m s = (s', Inr x) \<Longrightarrow> R x s') \<Longrightarrow> safe m R s"
  by (cases "m s"; cases "snd (m s)"; cases "projl (snd (m s))") (auto simp: safe_def split: fault.splits)

lemma safe_lift: "(\<And>p. r \<noteq> Inl (Panic p)) \<Longrightarrow> (\<And>x. r = Inr x \<Longrightarrow> R x s) \<Longrightarrow> safe (liftA r) R s"
  by (auto simp: safe_def liftA_apply split: sum.split fault.split)

section \<open>The operations\<close>

lemma safe_read:
  assumes "\<And>n f. read_from s = (n, Inr f) \<Longrightarrow> R f n"
  shows "safe read_from R s"
  by (rule safe_I) (use assms read_from_no_panic [of s] in \<open>auto simp: prod_eq_iff [of "read_from s"]\<close>)

lemma write_to_no_panic: "snd (write_to f s) \<noteq> Inl (Panic p)"
  by (auto simp: write_to_def bindA_case write_all_def flush_def split: list.split option.split)

lemma safe_write:
  assumes "\<And>n. inbox n = inbox s \<Longrightarrow> R () n"
  shows "safe (write_to f) R s"
  by (rule safe_I) (use assms write_to_no_panic write_to_inbox [of f s] in auto)

lemma safe_encrypt:
  assumes "\<And>ct. p_seal P (cs_key c) (build_nonce (cs_nonce c)) a m = Some ct \<Longrightarrow> R ct (next_nonce c)"
  shows "safe (encrypt P m a) R c"
  using assms by (auto simp: safe_def encrypt_def u64_checked_add_def next_nonce_def split: option.split)

lemma safe_decrypt:
  assumes "unat (cs_nonce c) + 1 < 2 ^ 64"
    and "\<And>m. p_open P (cs_key c) (build_nonce (cs_nonce c)) a ct = Some m \<Longrightarrow> R m (next_nonce c)"
  shows "safe (decrypt P prof ct a n) R c"
  using assms
  by (auto simp: safe_def decrypt_def bindA_case add_assign_eq u64_add_no_overflow next_nonce_def ret_def
      split: option.split)

lemma safe_validate:
  assumes "window_ok f" "counters_ok f" "unat (total_seen f) + 1 < 2 ^ 64" "R () (after_call f n)"
  shows "safe (validate_and_record prof n) R f"
  using validate_no_overflow [OF assms(1-3), of prof n] assms(4)
  by (auto simp: safe_def split: option.split)

lemma safe_count_rx:
  assumes "rx_room (Suc k) (s_metrics s)" "n \<le> 2 ^ 18"
    and "\<And>s1. rx_room k (s_metrics s1) \<Longrightarrow> (\<And>j. tx_room j (s_metrics s1) = tx_room j (s_metrics s)) \<Longrightarrow>
      inbox (s_net s1) = inbox (s_net s) \<Longrightarrow> s_rx s1 = s_rx s \<Longrightarrow> s_replay s1 = s_replay s \<Longrightarrow> R () s1"
  shows "safe (count_rx prof n) R s"
proof -
  obtain s1 where "count_rx prof n s = (s1, Inr ())" "R () s1"
    by (rule count_rx_ok [OF assms(1,2), of prof]) (use assms(3) in blast)
  then show ?thesis by (simp add: safe_def)
qed

lemma safe_count_tx:
  assumes "tx_room (Suc k) (s_metrics s)" "n \<le> 2 ^ 18"
    and "\<And>s1. tx_room k (s_metrics s1) \<Longrightarrow> (\<And>j. rx_room j (s_metrics s1) = rx_room j (s_metrics s)) \<Longrightarrow>
      inbox (s_net s1) = inbox (s_net s) \<Longrightarrow> s_rx s1 = s_rx s \<Longrightarrow> s_replay s1 = s_replay s \<Longrightarrow> R () s1"
  shows "safe (count_tx prof n) R s"
proof -
  obtain s1 where "count_tx prof n s = (s1, Inr ())" "R () s1"
    by (rule count_tx_ok [OF assms(1,2), of prof]) (use assms(3) in blast)
  then show ?thesis by (simp add: safe_def)
qed

lemma safe_now:
  assumes "\<And>n t. inbox n = inbox s \<Longrightarrow> R t n"
  shows "safe instant_now R s"
  using instant_now_total [of s] assms by (auto simp: safe_def)

lemma safe_discard_write:
  assumes "\<And>n. inbox n = inbox s \<Longrightarrow> R () n"
  shows "safe (discard (write_to f)) R s"
proof -
  have "R () (fst (write_to f s))" using assms write_to_inbox [of f s] by simp
  then show ?thesis
    using write_to_no_panic [of f s]
    by (cases "write_to f s"; cases "snd (write_to f s)"; cases "projl (snd (write_to f s))")
      (auto simp: safe_def discard_def)
qed

lemma derive_no_panic: "derive_session_keys P secret h \<noteq> Inl (Panic p)"
  by (auto simp: derive_session_keys_def derive_session_keypair_def Let_def session_keys_into_parts_def
      split: option.split sum.split)

lemma cipher_new_nonce: "cs_nonce (cipher_new k) = 0"
  by (simp add: cipher_new_def)

lemma cipher_Inl_Err:
  "encrypt P m a c = (c', Inl e) \<Longrightarrow> \<exists>t. e = Err t"
  "decrypt P prof ct a n c = (c', Inl e) \<Longrightarrow> unat (cs_nonce c) + 1 < 2 ^ 64 \<Longrightarrow> \<exists>t. e = Err t"
  by (auto simp: encrypt_def decrypt_def bindA_case add_assign_eq u64_add_no_overflow ret_def
      split: option.splits if_splits)

end
