(* ===== verification/Panic_Freedom.thy ===== *)
theory Panic_Freedom
  imports Safe_Actions Server
begin

text \<open>
  No input makes the server's client task panic, in either build profile, and what this
  means for the accept loop: the counter of active connections never leaks.
\<close>

section \<open>Room for what is still to come\<close>

text \<open>
  Room for \<open>i\<close> more frames in the receiving metrics and for \<open>k\<close> more in every other counter.
  Every frame takes at least 13 bytes, so the bytes to come bound the frames to come.
\<close>

definition room_for :: "nat \<Rightarrow> nat \<Rightarrow> session \<Rightarrow> bool" where
  "room_for i k s \<longleftrightarrow> window_ok (s_replay s) \<and> counters_ok (s_replay s) \<and>
     unat (total_seen (s_replay s)) + k < 2 ^ 64 \<and> unat (cs_nonce (s_rx s)) + k < 2 ^ 64 \<and>
     rx_room i (s_metrics s) \<and> tx_room k (s_metrics s)"

definition frames_left :: "net \<Rightarrow> nat" where
  "frames_left n = length (inbox n) div 13"

definition headroom :: "session \<Rightarrow> bool" where
  "headroom s \<longleftrightarrow> room_for (frames_left (s_net s)) (frames_left (s_net s)) s"

lemma room_mono:
  assumes "j \<le> k"
  shows "rx_room k m \<Longrightarrow> rx_room j m" "tx_room k m \<Longrightarrow> tx_room j m"
proof -
  have "j * 2 ^ 18 \<le> k * (2 ^ 18 :: nat)" using assms by simp
  then show "rx_room k m \<Longrightarrow> rx_room j m" "tx_room k m \<Longrightarrow> tx_room j m"
    using assms by (simp_all add: rx_room_def tx_room_def)
qed

lemma room_for_mono: "room_for i k s \<Longrightarrow> i' \<le> i \<Longrightarrow> k' \<le> k \<Longrightarrow> room_for i' k' s"
  using room_mono [of i' i "s_metrics s"] room_mono [of k' k "s_metrics s"] by (simp add: room_for_def)

lemma headroom_start:
  assumes "length (inbox n) < 2 ^ 48"
  shows "headroom (start_session n (cipher_new rk) tx t)"
proof -
  have "frames_left n * 13 < 2 ^ 48" using assms by (simp add: frames_left_def)
  then show ?thesis
    by (simp add: headroom_def room_for_def start_session_def new_filter_def cipher_new_def metrics_new_def
        rx_room_def tx_room_def) (simp add: with_window_size_def)
qed

lemma read_from_frames:
  assumes "read_from s = (n, Inr f)"
  shows "Suc (frames_left n) \<le> frames_left s"
proof -
  have "(length (inbox n) + 13) div 13 \<le> length (inbox s) div 13"
    by (rule div_le_mono [OF read_from_progress [OF assms]])
  then show ?thesis by (simp add: frames_left_def)
qed

section \<open>One turn\<close>

text \<open>The part that both answers share: seal, count, write.\<close>

lemma safe_answer:
  assumes P: "aead_sized P" "length m \<le> 200000" and tx: "tx_room (Suc k) (s_metrics s)"
    and R: "\<And>s1. tx_room k (s_metrics s1) \<Longrightarrow> (\<And>j. rx_room j (s_metrics s1) = rx_room j (s_metrics s)) \<Longrightarrow>
      inbox (s_net s1) = inbox (s_net s) \<Longrightarrow> s_rx s1 = s_rx s \<Longrightarrow> s_replay s1 = s_replay s \<Longrightarrow> R Continue s1"
  shows "safe (bindA (onA s_tx s_tx_update (encrypt P m a)) (\<lambda>ct.
      bindA (count_tx prof (payload_len (new_frame t n ct) + 13)) (\<lambda>_.
      bindA (onA s_net s_net_update (write_to (new_frame t n ct))) (\<lambda>_. ret Continue)))) R s"
proof (simp, rule safe_encrypt)
  fix ct
  assume "p_seal P (cs_key (s_tx s)) (build_nonce (cs_nonce (s_tx s))) a m = Some ct"
  then have size: "payload_len (new_frame t n ct) + 13 \<le> 2 ^ 18"
    using P by (auto simp: aead_sized_def payload_len_def new_frame_def)
  have room: "tx_room (Suc k) (s_metrics (s\<lparr>s_tx := next_nonce (s_tx s)\<rparr>))" using tx by simp
  show "safe (count_tx prof (payload_len (new_frame t n ct) + 13)) (\<lambda>_ s'.
      safe (write_to (new_frame t n ct)) (\<lambda>_ y. R Continue (s'\<lparr>s_net := y\<rparr>)) (s_net s'))
      (s\<lparr>s_tx := next_nonce (s_tx s)\<rparr>)"
  proof (rule safe_count_tx [OF room size])
    fix s1 :: session
    assume s1: "tx_room k (s_metrics s1)"
        "\<And>j. rx_room j (s_metrics s1) = rx_room j (s_metrics (s\<lparr>s_tx := next_nonce (s_tx s)\<rparr>))"
        "inbox (s_net s1) = inbox (s_net (s\<lparr>s_tx := next_nonce (s_tx s)\<rparr>))"
        "s_rx s1 = s_rx (s\<lparr>s_tx := next_nonce (s_tx s)\<rparr>)"
        "s_replay s1 = s_replay (s\<lparr>s_tx := next_nonce (s_tx s)\<rparr>)"
    show "safe (write_to (new_frame t n ct)) (\<lambda>_ y. R Continue (s1\<lparr>s_net := y\<rparr>)) (s_net s1)"
      by (rule safe_write, rule R) (use s1 in simp_all)
  qed
qed

lemma safe_serve:
  assumes P: "aead_sized P" and f: "valid_frame f" and s: "room_for k (Suc k) s"
  shows "safe (serve_frame P prof f) (\<lambda>_ s'. room_for k k s' \<and> inbox (s_net s') = inbox (s_net s)) s"
proof -
  let ?R = "\<lambda>(_ :: flow) s'. room_for k k s' \<and> inbox (s_net s') = inbox (s_net s)"
  let ?s1 = "s\<lparr>s_replay := after_call (s_replay s) (wf_nonce f)\<rparr>"
  let ?s2 = "?s1\<lparr>s_rx := next_nonce (s_rx s)\<rparr>"
  note room = s [unfolded room_for_def]
  have seen: "counters_ok (after_call (s_replay s) (wf_nonce f))"
      "unat (total_seen (after_call (s_replay s) (wf_nonce f))) = unat (total_seen (s_replay s)) + 1"
    using after_call_counters [of "s_replay s" "wf_nonce f"] room by simp_all
  have nonce: "unat (cs_nonce (s_rx s) + 1) = unat (cs_nonce (s_rx s)) + 1"
    using room by (simp add: unat_suc_u64)
  have idle: "room_for k k s" using room_for_mono [OF s, of k k] by simp
  have step: "safe (bindA (onA s_replay s_replay_update (validate_and_record prof (wf_nonce f))) (\<lambda>_.
      bindA (onA s_rx s_rx_update (decrypt P prof (wf_payload f) a (wf_nonce f))) K)) ?R s"
    if K: "\<And>m. length (wf_payload f) = length m + 16 \<Longrightarrow> safe (K m) ?R ?s2" for a K
  proof -
    have "safe (decrypt P prof (wf_payload f) a (wf_nonce f)) (\<lambda>m c. safe (K m) ?R (?s1\<lparr>s_rx := c\<rparr>)) (s_rx s)"
      by (rule safe_decrypt) (use room P K in \<open>auto simp: aead_sized_def\<close>)
    then show ?thesis
      using room by (auto intro!: safe_validate)
  qed
  have fin: "?R Continue s'"
    if "tx_room k (s_metrics s')" "\<And>j. rx_room j (s_metrics s') = rx_room j (s_metrics ?s2)"
      "inbox (s_net s') = inbox (s_net ?s2)" "s_rx s' = s_rx ?s2" "s_replay s' = s_replay ?s2" for s'
    using that room seen nonce by (simp add: room_for_def)
  have answer: "safe (bindA (onA s_tx s_tx_update (encrypt P m a)) (\<lambda>ct.
      bindA (count_tx prof (payload_len (new_frame t n ct) + 13)) (\<lambda>_.
      bindA (onA s_net s_net_update (write_to (new_frame t n ct))) (\<lambda>_. ret Continue)))) ?R ?s2"
    if "length m \<le> 200000" for m a t n
  proof (rule safe_answer [OF P that, where k = k and R = ?R])
    show "tx_room (Suc k) (s_metrics ?s2)" using room by simp
  qed (rule fin; assumption)
  have small: "length (REPLY_PREFIX @ from_utf8_lossy m) \<le> 200000" "length PONG \<le> 200000"
    if "length (wf_payload f) = length m + 16" for m
    using that f length_lossy [of m] by (simp_all add: valid_frame_le REPLY_PREFIX_def PONG_def bytes_of_def)
  show ?thesis
  proof (cases "wf_msg_type f")
    case DataPayload
    have "safe (let msg_str = from_utf8_lossy m; reply_msg = REPLY_PREFIX @ msg_str in
        bindA (getsA (\<lambda>s. current_nonce (s_tx s))) (\<lambda>reply_nonce.
        bindA (onA s_tx s_tx_update (encrypt P reply_msg DATA_AAD)) (\<lambda>encrypted_reply.
        let reply_frame = new_frame DataPayload reply_nonce encrypted_reply in
        bindA (count_tx prof (payload_len reply_frame + 13)) (\<lambda>_.
        bindA (onA s_net s_net_update (write_to reply_frame)) (\<lambda>_. ret Continue))))) ?R ?s2"
      if "length (wf_payload f) = length m + 16" for m
      using answer [OF small(1) [OF that], where n = "current_nonce (s_tx ?s2)" and t = DataPayload and a = DATA_AAD]
      unfolding Let_def by (simp only: safe_bind [of "getsA _"] safe_gets)
    then show ?thesis
      unfolding serve_frame_def DataPayload message_type.case by (rule step)
  next
    case Heartbeat
    have "safe (bindA (getsA (\<lambda>s. current_nonce (s_tx s))) (\<lambda>pong_nonce.
        bindA (onA s_tx s_tx_update (encrypt P PONG HEARTBEAT_AAD)) (\<lambda>pong.
        let pong_frame = heartbeat_frame pong_nonce pong in
        bindA (count_tx prof (payload_len pong_frame + 13)) (\<lambda>_.
        bindA (onA s_net s_net_update (write_to pong_frame)) (\<lambda>_. ret Continue))))) ?R ?s2"
      if "length (wf_payload f) = length m + 16" for m :: bytes
      using answer [OF small(2) [OF that], where n = "current_nonce (s_tx ?s2)" and t = Heartbeat and a = HEARTBEAT_AAD]
      unfolding Let_def heartbeat_frame_def by (simp only: safe_bind [of "getsA _"] safe_gets)
    then show ?thesis
      unfolding serve_frame_def Heartbeat message_type.case by (rule step)
  qed (use idle in \<open>simp_all add: serve_frame_def\<close>)
qed

section \<open>The loop and the whole task\<close>

lemma safe_turn:
  assumes P: "aead_sized P" and s: "headroom s"
  shows "safe (transport_step P prof)
    (\<lambda>fl s'. totals_fit (s_metrics s') \<and> (fl = Continue \<longrightarrow> headroom s')) s"
proof (cases "read_from (s_net s)")
  case (Pair n r)
  show ?thesis
  proof (cases r)
    case (Inl e)
    moreover have "totals_fit (s_metrics s)"
      using s by (auto simp: headroom_def room_for_def intro: room_totals_fit)
    ultimately show ?thesis
      using Pair read_from_no_panic [of "s_net s" n] by (cases e) (auto simp: safe_def transport_step_def onA_def)
  next
    case (Inr f)
    let ?k = "frames_left n"
    have read: "read_from (s_net s) = (n, Inr f)" using Pair Inr by simp
    then have f: "valid_frame f" by (simp add: read_from_Inr)
    have size: "payload_len f + 13 \<le> 2 ^ 18" using f by (simp add: valid_frame_le payload_len_def)
    have room: "room_for (Suc ?k) (Suc ?k) (s\<lparr>s_net := n\<rparr>)"
      using room_for_mono [OF s [unfolded headroom_def], of "Suc ?k" "Suc ?k"] read_from_frames [OF read]
      by (simp add: room_for_def)
    have "safe (bindA (count_rx prof (payload_len f + 13)) (\<lambda>_. serve_frame P prof f))
        (\<lambda>_ s'. room_for ?k ?k s' \<and> inbox (s_net s') = inbox n) (s\<lparr>s_net := n\<rparr>)"
    proof (simp, rule safe_count_rx [OF _ size])
      show "rx_room (Suc ?k) (s_metrics (s\<lparr>s_net := n\<rparr>))" using room by (simp add: room_for_def)
      fix s1 :: session
      assume s1: "rx_room ?k (s_metrics s1)"
          "\<And>j. tx_room j (s_metrics s1) = tx_room j (s_metrics (s\<lparr>s_net := n\<rparr>))"
          "inbox (s_net s1) = inbox (s_net (s\<lparr>s_net := n\<rparr>))" "s_rx s1 = s_rx (s\<lparr>s_net := n\<rparr>)"
          "s_replay s1 = s_replay (s\<lparr>s_net := n\<rparr>)"
      then have "room_for ?k (Suc ?k) s1" using room by (simp add: room_for_def)
      from safe_serve [OF P f this]
      show "safe (serve_frame P prof f) (\<lambda>_ s'. room_for ?k ?k s' \<and> inbox (s_net s') = inbox n) s1"
        using s1(3) by simp
    qed
    then have "safe (bindA (count_rx prof (payload_len f + 13)) (\<lambda>_. serve_frame P prof f))
        (\<lambda>fl s'. totals_fit (s_metrics s') \<and> (fl = Continue \<longrightarrow> headroom s')) (s\<lparr>s_net := n\<rparr>)"
      by (rule safe_mono) (auto simp: headroom_def frames_left_def room_for_def intro: room_totals_fit)
    then show ?thesis
      using read by (simp add: safe_def transport_step_def onA_def del: safe_bind)
  qed
qed

text \<open>The loop does not panic, and the totals that are logged when it ends fit.\<close>

lemma loop_no_panic:
  "aead_sized P \<Longrightarrow> headroom s \<Longrightarrow> snd (transport_loop P prof s) \<noteq> Inl (Panic p) \<and>
     (snd (transport_loop P prof s) = Inr () \<longrightarrow> totals_fit (s_metrics (fst (transport_loop P prof s))))"
proof (induction P prof s rule: transport_loop.induct)
  case (1 P prof s)
  note turn = safe_turn [OF 1(2,3), of prof]
  obtain s' r where st: "transport_step P prof s = (s', r)" by fastforce
  show ?case
  proof (cases r)
    case (Inl e)
    then show ?thesis
      using st safe_no_panic [OF turn, of p] by (subst (1 2 3) transport_loop.simps) simp
  next
    case (Inr fl)
    with st have step: "transport_step P prof s = (s', Inr fl)" by simp
    note post = safe_Inr [OF turn step]
    show ?thesis
    proof (cases fl)
      case Continue
      then have "transport_loop P prof s = transport_loop P prof s'"
        using step by (subst transport_loop.simps) simp
      then show ?thesis
        using 1(1) [OF step [symmetric] refl Continue] 1(2) post Continue by simp
    next
      case Break
      then have "transport_loop P prof s = (s', Inr ())"
        using step by (subst transport_loop.simps) simp
      then show ?thesis using post by simp
    qed
  qed
qed

lemma safe_handshake:
  assumes "\<And>n ck sk. length (inbox n) \<le> length (inbox s) \<Longrightarrow> R (cipher_new ck, cipher_new sk) n"
  shows "safe (server_handshake P prof prologue keys rnd) R s"
  unfolding server_handshake_def Let_def
  by (auto intro!: safe_read safe_lift safe_decrypt safe_encrypt safe_write assms
      simp: derive_no_panic cipher_new_nonce slices_Inl dest!: read_from_progress)

lemma task_no_panic:
  assumes P: "aead_sized P" and s: "length (inbox s) < 2 ^ 48"
  shows "snd (handle_client_with_prologue P prof keys prologue rnd s) \<noteq> Inl (Panic p)"
proof -
  let ?loop = "\<lambda>rx tx now stream. case transport_loop P prof (start_session stream rx tx now) of
       (s, Inl e) \<Rightarrow> (s_net s, Inl e)
     | (s, Inr _) \<Rightarrow> (case log_session prof s of (s, r) \<Rightarrow> (s_net s, r))"
  have loop: "safe (?loop (cipher_new ck) tx now) (\<lambda>_ _. True) n" if "length (inbox n) < 2 ^ 48" for ck tx now n
  proof -
    let ?run = "transport_loop P prof (start_session n (cipher_new ck) tx now)"
    note fin = loop_no_panic [OF P headroom_start [OF that, of ck tx now], of prof]
    show ?thesis
    proof (cases "snd ?run")
      case (Inl e)
      then show ?thesis
        using fin by (cases e; cases ?run) (auto simp: safe_def)
    next
      case (Inr u)
      then have "totals_fit (s_metrics (fst ?run))" using fin by simp
      then obtain n1 where "log_session prof (fst ?run) = ((fst ?run)\<lparr>s_net := n1\<rparr>, Inr ())"
        by (rule log_session_ok)
      then show ?thesis using Inr by (cases ?run) (auto simp: safe_def)
    qed
  qed
  have "safe (handle_client_with_prologue P prof keys prologue rnd) (\<lambda>_ _. True) s"
    unfolding handle_client_with_prologue_def safe_bind
  proof (rule safe_handshake, simp only: prod.case safe_bind)
    fix n :: net and ck sk
    assume n: "length (inbox n) \<le> length (inbox s)"
    show "safe instant_now (\<lambda>now. safe (?loop (cipher_new ck) (cipher_new sk) now) (\<lambda>_ _. True)) n"
      by (rule safe_now, rule loop) (use n s in simp)
  qed
  then show ?thesis by (rule safe_no_panic)
qed

section \<open>The accept loop with real clients\<close>

text \<open>The actions of the accept loop when every client task is a run of the session.\<close>

definition client_action :: "primitives \<Rightarrow> profile \<Rightarrow> tunnel_server \<Rightarrow> action \<Rightarrow> bool" where
  "client_action P prof server a =
     (case a of
        Reset \<Rightarrow> False
      | TaskEnds res \<Rightarrow>
          (\<exists>rnd stream. length (inbox stream) < 2 ^ 48 \<and>
             res = snd (handle_client_with_prologue P prof (ts_keypair server) (ts_prologue server) rnd stream))
      | _ \<Rightarrow> True)"

interpretation leak_free: machine_invariant system_step
    "\<lambda>a. \<forall>p. a \<noteq> TaskEnds (Inl (Panic p))" "\<lambda>y. sy_leaked y = 0"
proof
  fix y a y'
  assume "sy_leaked y = 0" "\<forall>p. a \<noteq> TaskEnds (Inl (Panic p))" "system_step a y = Some y'"
  then show "sy_leaked y' = 0"
    by (cases a) (auto simp: accept_load_def accept_decide_def task_ends_def reset_connections_def
        split: accept_phase.splits if_splits sum.splits fault.splits option.splits)
qed

lemma cut_off_client:
  "snd (handle_client_with_prologue P prof keys prologue rnd (connection [0, 0, 0])) = Inl (Err Io)"
proof -
  have "\<exists>n. read_from (connection [0, 0, 0]) = (n, Inl (Err Io))"
    by (simp add: read_from_def bindA_case read_exact_def)
  then show ?thesis
    by (auto simp: handle_client_with_prologue_def server_handshake_def bindA_case)
qed

section \<open>Properties\<close>

text \<open>
  C9. No client can make its task panic: whatever bytes arrive (fewer than 2^48), wherever
  writing fails and in either build profile, a client's whole session ends with \<open>Ok\<close> or
  with an error value, never with a panic: no arithmetic overflows, the sum in the closing
  log line included, and no slice or index is out of range.
\<close>

theorem server_task_never_panics:
  assumes "aead_sized P" "length (inbox stream) < 2 ^ 48"
  shows "(\<exists>u. snd (handle_client_with_prologue P prof keys prologue rnd stream) = Inr u) \<or>
    (\<exists>e. snd (handle_client_with_prologue P prof keys prologue rnd stream) = Inl (Err e))"
  using task_no_panic [OF assms, of prof keys prologue rnd]
  by (cases "snd (handle_client_with_prologue P prof keys prologue rnd stream)")
    (metis fault.exhaust, blast)

theorem server_task_never_panics_witness:
  "\<exists>e. snd (handle_client_with_prologue toy Debug (from_private_bytes toy (replicate 32 5)) PROTOCOL_NAME
      (replicate 32 2) (connection [0, 0, 0])) = Inl (Err e)"
  using server_task_never_panics [OF toy_sized, of "connection [0, 0, 0]" Debug
      "from_private_bytes toy (replicate 32 5)" PROTOCOL_NAME "replicate 32 2"]
  by (simp add: cut_off_client)

text \<open>
  C18. The counter of active connections never leaks: however accepts, limit checks and
  ending clients interleave, when the clients' tasks are runs of the session on connections
  of fewer than 2^48 bytes each and nobody calls \<open>reset_connections\<close>, the counter of a
  server with a limit is exactly the number of tasks that still run, and once they have all
  ended the server is idle with its full capacity.
\<close>

theorem remote_clients_leave_counter_exact:
  assumes "aead_sized P" "ts_active server = 0" "ts_max_connections server = Some limit"
    and "list_all (client_action P prof server) as"
    and "run_actions system_step as (server_started server) = Some y"
  shows "unat (active_connections (sy_server y)) = sy_live y \<and> sy_live y \<le> unat limit \<and>
    (sy_live y = 0 \<longrightarrow> is_idle (sy_server y) \<and> available_capacity (sy_server y) = Some limit)"
proof -
  have no_panic: "list_all (\<lambda>a. a \<noteq> Reset \<and> (\<forall>p. a \<noteq> TaskEnds (Inl (Panic p)))) as"
    using assms(4)
  proof (rule list.pred_mono_strong)
    fix a
    assume "client_action P prof server a"
    then show "a \<noteq> Reset \<and> (\<forall>p. a \<noteq> TaskEnds (Inl (Panic p)))"
      using task_no_panic [OF assms(1)] by (auto simp: client_action_def) metis
  qed
  then have inv: "capacity_inv y" and none: "sy_leaked y = 0"
    and lim: "ts_max_connections (sy_server y) = Some limit"
    using capacity.run_inv [OF assms(5)] leak_free.run_inv [OF assms(5)]
      limit_kept.run_inv [OF assms(5), of "Some limit"] capacity_inv_started [OF assms(2)] assms(3)
    by (auto simp: list_all_iff server_started_def)
  have exact: "unat (ts_active (sy_server y)) = sy_live y"
    using unat_counter [OF inv lim] none by simp
  have "is_idle (sy_server y) \<and> available_capacity (sy_server y) = Some limit" if "sy_live y = 0"
  proof -
    have "ts_active (sy_server y) = 0" using exact that by (simp add: unat_eq_0 flip: unat_eq_zero)
    then show ?thesis
      using lim by (simp add: is_idle_def available_capacity_def active_connections_def u64_saturating_sub_def)
  qed
  then show ?thesis
    using exact inv lim none by (simp add: active_connections_def capacity_inv_def)
qed

theorem remote_clients_leave_counter_exact_witness:
  "\<exists>y. run_actions system_step [Accept, Decide, Accept, Decide, TaskEnds (Inl (Err Io)), TaskEnds (Inl (Err Io))]
      (server_started (server_with_max_connections 2 (server_new (from_private_bytes toy (replicate 32 5)) []))) = Some y \<and>
    is_idle (sy_server y) \<and> available_capacity (sy_server y) = Some 2"
proof -
  let ?s = "server_with_max_connections 2 (server_new (from_private_bytes toy (replicate 32 5)) [])"
  let ?as = "[Accept, Decide, Accept, Decide, TaskEnds (Inl (Err Io)), TaskEnds (Inl (Err Io))]"
  obtain y where y: "run_actions system_step ?as (server_started ?s) = Some y" "sy_live y = 0"
    by (simp add: server_started_def accept_load_def accept_decide_def task_ends_def
        server_with_max_connections_def server_new_def word_le_nat_alt)
  have "\<exists>rnd stream. length (inbox stream) < 2 ^ 48 \<and> Inl (Err Io) =
      snd (handle_client_with_prologue toy Debug (ts_keypair ?s) (ts_prologue ?s) rnd stream)"
    by (intro exI [of _ "[]"] exI [of _ "connection [0, 0, 0]"]) (simp add: cut_off_client)
  then have real: "list_all (client_action toy Debug ?s) ?as"
    by (simp add: client_action_def)
  have s: "ts_active ?s = 0" "ts_max_connections ?s = Some 2"
    by (simp_all add: server_with_max_connections_def server_new_def)
  show ?thesis
    using remote_clients_leave_counter_exact [OF toy_sized s real y(1)] y by simp
qed

end
