(* ===== verification/Client_Safety.thy ===== *)
theory Client_Safety
  imports Safe_Actions Dialogue
begin

text \<open>
  No server makes the client panic: the exchange of one message for every input, the
  interactive session within the room of its counters.
\<close>

section \<open>The handshake and the exchange of one message\<close>

lemma safe_client_handshake:
  assumes "\<And>n ck sk. R (cipher_new ck, cipher_new sk) n"
  shows "safe (perform_handshake P prof prologue pub rnd) R s"
  unfolding perform_handshake_def Let_def
  by (auto intro!: safe_read safe_lift safe_decrypt safe_encrypt safe_write assms
      simp: derive_no_panic cipher_new_nonce slices_Inl)

lemma exchange_no_panic: "snd (secure_exchange P prof client rnd m s) \<noteq> Inl (Panic p)"
proof -
  have "safe (secure_exchange P prof client rnd m) (\<lambda>_ _. True) s"
    unfolding secure_exchange_def Let_def
    by (auto intro!: safe_client_handshake safe_write safe_read safe_discard_write
        simp: cipher_new_nonce dest!: cipher_Inl_Err cipher_Inl_Err(1) [OF sym] split: prod.split sum.split option.split)
  then show ?thesis by (rule safe_no_panic)
qed

section \<open>The interactive session\<close>

lemma length_strip_front: "length (strip_front ws bs) \<le> length bs"
  by (induction ws bs rule: strip_front.induct) (fastforce split: option.split)+

lemma length_trim: "length (trim bs) \<le> length bs"
  unfolding trim_def
  by (metis length_rev length_strip_front le_trans)

text \<open>Room for \<open>k\<close> more lines.\<close>

definition repl_room :: "nat \<Rightarrow> repl \<Rightarrow> bool" where
  "repl_room k r \<longleftrightarrow> calm k k (r_metrics r) \<and> unat (cs_nonce (r_rx r)) + k < 2 ^ 64"

lemma safe_repl_count:
  assumes "n \<le> 2 ^ 18"
  shows "calm (Suc i) j (r_metrics r) \<Longrightarrow>
      (\<And>r'. calm i j (r_metrics r') \<Longrightarrow> r_rx r' = r_rx r \<Longrightarrow> R () r') \<Longrightarrow> safe (repl_count_tx prof n) R r"
    and "calm i (Suc j) (r_metrics r) \<Longrightarrow>
      (\<And>r'. calm i j (r_metrics r') \<Longrightarrow> r_rx r' = r_rx r \<Longrightarrow> R () r') \<Longrightarrow> safe (repl_count_rx prof n) R r"
  using repl_count_ok(1) [OF assms, of i j r prof] repl_count_ok(2) [OF assms, of i j r prof]
  by (auto simp: safe_def same_ends_def)

lemma safe_print [simp]: "safe (print_line p) R = (\<lambda>r. R () (r\<lparr>r_printed := r_printed r @ [p]\<rparr>))"
  by (simp add: print_line_def)

lemma repl_room_printed [simp]: "repl_room k (r\<lparr>r_printed := ps\<rparr>) = repl_room k r"
  by (simp add: repl_room_def)

lemma safe_exchange_turn:
  assumes "calm (Suc k) (Suc k) (r_metrics r)" "payload_len f + 13 \<le> 2 ^ 18"
    and K: "\<And>g r'. calm k k (r_metrics r') \<Longrightarrow> r_rx r' = r_rx r \<Longrightarrow> safe (K g) R r'"
  shows "safe (bindA (repl_count_tx prof (payload_len f + 13)) (\<lambda>_.
      bindA (onA r_net r_net_update (write_to f)) (\<lambda>_.
      bindA (onA r_net r_net_update read_from) (\<lambda>reply.
      bindA (repl_count_rx prof (payload_len reply + 13)) (\<lambda>_. K reply))))) R r"
proof -
  have rx: "safe (repl_count_rx prof (payload_len g + 13)) (\<lambda>_. safe (K g) R) r1"
    if "valid_frame g" "calm k (Suc k) (r_metrics r1)" "r_rx r1 = r_rx r" for g r1
  proof (rule safe_repl_count(2) [OF _ that(2)])
    show "payload_len g + 13 \<le> 2 ^ 18" using that(1) by (simp add: valid_frame_le payload_len_def)
  qed (simp add: K that(3))
  show ?thesis
    unfolding safe_bind safe_on
    by (rule safe_repl_count(1) [OF assms(2,1)], rule safe_write, rule safe_read, rule rx)
      (simp_all add: read_from_Inr)
qed

lemma safe_line:
  assumes P: "aead_sized P" and l: "length l \<le> 200000" and r: "repl_room (Suc k) r"
  shows "safe (interactive_line P prof client l) (\<lambda>_. repl_room k) r"
proof -
  have calm: "calm (Suc k) (Suc k) (r_metrics r)" "calm k k (r_metrics r)"
    and nonce: "unat (cs_nonce (r_rx r)) + k + 1 < 2 ^ 64"
    using r by (auto simp: repl_room_def calm_def)
  have rest: "repl_room k r" using r calm(2) by (simp add: repl_room_def)
  have total: "total_bytes prof (r_metrics r) = Some (bytes_sent (r_metrics r) + bytes_received (r_metrics r))"
    using calm by (simp add: total_bytes_def calm_def u64_add_def)
  have turn: "safe (bindA (getsA (\<lambda>r. current_nonce (r_tx r))) (\<lambda>n.
      bindA (onA r_tx r_tx_update (encrypt P m a)) (\<lambda>ct.
      bindA (repl_count_tx prof (payload_len (new_frame t n ct) + 13)) (\<lambda>_.
      bindA (onA r_net r_net_update (write_to (new_frame t n ct))) (\<lambda>_.
      bindA (onA r_net r_net_update read_from) (\<lambda>reply.
      bindA (repl_count_rx prof (payload_len reply + 13)) (\<lambda>_. K reply))))))) (\<lambda>_. repl_room k) r"
    if m: "length m \<le> 200000"
      and K: "\<And>g r'. calm k k (r_metrics r') \<Longrightarrow> r_rx r' = r_rx r \<Longrightarrow> safe (K g) (\<lambda>_. repl_room k) r'"
    for m a t K
    unfolding safe_bind [of "getsA _"] safe_bind [of "onA r_tx _ _"] safe_gets safe_on [of r_tx]
  proof (rule safe_encrypt, rule safe_exchange_turn [where k = k])
    fix ct
    assume "p_seal P (cs_key (r_tx r)) (build_nonce (cs_nonce (r_tx r))) a m = Some ct"
    then show "payload_len (new_frame t (current_nonce (r_tx r)) ct) + 13 \<le> 2 ^ 18"
      using P m by (auto simp: aead_sized_def payload_len_def new_frame_def)
  qed (use calm K in simp_all)
  have opened: "safe (bindA (onA r_rx r_rx_update (decrypt P prof ct a n)) (\<lambda>d.
      bindA (print_line (p d)) (\<lambda>_. ret Continue))) (\<lambda>_. repl_room k) r'"
    if "calm k k (r_metrics r')" "r_rx r' = r_rx r" for r' ct a n p
    using that nonce unat_suc_u64 [of "cs_nonce (r_rx r)"]
    by (auto intro!: safe_decrypt simp: print_line_def repl_room_def)
  have printed: "safe (bindA (print_line p) (\<lambda>_. ret fl)) (\<lambda>_. repl_room k) r'" "safe (ret fl) (\<lambda>_. repl_room k) r'"
    if "calm k k (r_metrics r')" "r_rx r' = r_rx r" for r' p and fl :: flow
    using that nonce by (simp_all add: print_line_def repl_room_def)
  have quit: "safe (repl_count_tx prof (payload_len (new_frame Close n []) + 13)) (\<lambda>_ s'.
      safe (discard (write_to (new_frame Close n []))) (\<lambda>_ y. repl_room k (s'\<lparr>r_net := y\<rparr>)) (r_net s'))
      (r\<lparr>r_printed := ps\<rparr>)" for n ps
    by (rule safe_repl_count(1) [where i = k and j = "Suc k"], simp add: payload_len_def new_frame_def, use calm in simp,
        rule safe_discard_write) (use nonce in \<open>auto simp: repl_room_def calm_def\<close>)
  show ?thesis
    unfolding interactive_line_def Let_def
    by (intro safe_if printed turn opened)
      (use calm rest nonce length_trim [of l] l in \<open>simp_all add: total quit\<close>)
qed

lemma repl_no_panic:
  "aead_sized P \<Longrightarrow> list_all (\<lambda>l. pred_option (\<lambda>b. length b \<le> 200000) l) ls \<Longrightarrow> repl_room (length ls) r \<Longrightarrow>
   snd (interactive_loop P prof client ls r) \<noteq> Inl (Panic p)"
proof (induction P prof client ls r rule: interactive_loop.induct)
  case (3 P prof client l ls r)
  then have line: "safe (interactive_line P prof client l) (\<lambda>_. repl_room (length ls)) r"
    by (intro safe_line) simp_all
  obtain r1 x where x: "interactive_line P prof client l r = (r1, x)" by fastforce
  show ?case
  proof (cases x)
    case (Inl e)
    then show ?thesis using x safe_no_panic [OF line, of p] by simp
  next
    case (Inr fl)
    with x have run: "interactive_line P prof client l r = (r1, Inr fl)" by simp
    then show ?thesis
      using 3(1) [OF run [symmetric]] 3(2,3) safe_Inr [OF line run] by (cases fl) simp_all
  qed
qed simp_all

lemma interactive_no_panic:
  assumes P: "aead_sized P" and ls: "length ls < 2 ^ 40" "list_all (\<lambda>l. pred_option (\<lambda>b. length b \<le> 200000) l) ls"
  shows "snd (snd (interactive_session P prof client rnd ls s)) \<noteq> Inl (Panic p)"
proof -
  have "safe (perform_handshake P prof (tc_prologue client) (tc_server_pubkey client) rnd)
      (\<lambda>(tx, rx) n. \<exists>sk. rx = cipher_new sk) s"
    by (rule safe_client_handshake) blast
  note hand = safe_no_panic [OF this, of p] safe_Inr [OF this]
  obtain n h where h: "perform_handshake P prof (tc_prologue client) (tc_server_pubkey client) rnd s = (n, h)"
    by fastforce
  show ?thesis
  proof (cases h)
    case (Inl e)
    then show ?thesis using h hand(1) by (simp add: interactive_session_def)
  next
    case (Inr c)
    then obtain tx sk where c: "h = Inr (tx, cipher_new sk)" using hand(2) h by (cases c) auto
    obtain n' now where now: "instant_now n = (n', Inr now)" using instant_now_total by blast
    have "repl_room (length ls) \<lparr>r_net = n', r_tx = tx, r_rx = cipher_new sk, r_metrics = metrics_new now, r_printed = []\<rparr>"
      using ls(1) by (simp add: repl_room_def calm_def metrics_new_def cipher_new_def)
    from repl_no_panic [OF P ls(2) this, of prof client p] show ?thesis
      using h c now by (auto simp: interactive_session_def split: prod.split)
  qed
qed

section \<open>Properties\<close>

text \<open>
  C22. No server can make the client panic, by an overflow or by a slice out of range:
  sending one message ends with \<open>Ok\<close> or an error value for every input, and so does an
  interactive session of fewer than 2^40 lines of at most 200000 bytes each, whatever the
  server sends, wherever writing fails, in either build profile.
\<close>

theorem client_never_panics:
  assumes "aead_sized P" "length ls < 2 ^ 40" "list_all (\<lambda>l. pred_option (\<lambda>b. length b \<le> 200000) l) ls"
  shows "snd (send_secure_message P prof client connect rnd fires m) \<noteq> Inl (Panic p) \<and>
    snd (snd (start_interactive_session P prof client connect rnd ls)) \<noteq> Inl (Panic p)"
  using exchange_no_panic [of P prof client rnd m _ p] interactive_no_panic [OF assms, of prof client rnd _ p]
  by (auto simp: send_secure_message_def start_interactive_session_def Let_def split: option.split)

theorem client_never_panics_witness:
  "snd (send_secure_message toy Debug (client_new [] []) (Some (connection (serialize (new_frame HandshakeResp 0 [1, 2, 3]))))
      (replicate 32 1) False [0x68]) \<noteq> Inl (Panic SliceLength) \<and>
   snd (snd (start_interactive_session toy Debug (client_new [] [])
      (Some (connection (serialize (new_frame HandshakeResp 0 [1, 2, 3])))) (replicate 32 1) [Some [0x68], None])) \<noteq>
      Inl (Panic SliceLength)"
  by (rule client_never_panics [OF toy_sized]) simp_all

end
