(* ===== verification/Texts.thy ===== *)
theory Texts
  imports Cipher Wire Replay
begin

text \<open>
  The texts the types print: the \<open>Debug\<close> output of the secret-carrying types, the summaries
  of frames and filters (src/src/crypto/mod.rs, src/src/protocol/mod.rs), and the public error
  type \<open>TunnelError\<close> with its messages (src/src/error.rs). The texts of wrapped errors of
  other crates are carried as strings.
\<close>

definition quoted :: "bytes \<Rightarrow> bytes" where
  "quoted s = [0x22] @ s @ [0x22]"

definition REDACTED :: bytes where
  "REDACTED = bytes_of ''[REDACTED]''"

definition cipher_debug :: "cipher_state \<Rightarrow> bytes" where
  "cipher_debug c =
     bytes_of ''CipherState { key: '' @ quoted REDACTED @
     bytes_of '', nonce: '' @ dec_bytes (unat (cs_nonce c)) @ bytes_of '' }''"

definition session_keys_debug :: "session_keys \<Rightarrow> bytes" where
  "session_keys_debug k =
     bytes_of ''SessionKeys { client_write_key: '' @ quoted REDACTED @
     bytes_of '', server_write_key: '' @ quoted REDACTED @ bytes_of '' }''"

definition ephemeral_debug :: "primitives \<Rightarrow> ephemeral_key_pair \<Rightarrow> bytes" where
  "ephemeral_debug P e =
     bytes_of ''EphemeralKeyPair { secret: '' @ quoted REDACTED @
     bytes_of '', public_key: '' @ quoted (p_hex_encode P (eph_public_key e)) @ bytes_of '' }''"

definition payload_utf8_lossy :: "wire_frame \<Rightarrow> bytes" where
  "payload_utf8_lossy f = from_utf8_lossy (wf_payload f)"

definition frame_summary :: "wire_frame \<Rightarrow> bytes" where
  "frame_summary f =
     bytes_of ''WireFrame(type='' @ message_type_name (wf_msg_type f) @
     bytes_of '', nonce='' @ dec_bytes (unat (wf_nonce f)) @
     bytes_of '', payload_len='' @ dec_bytes (length (wf_payload f)) @ bytes_of ''B)''"

definition filter_display :: "replay_filter \<Rightarrow> bytes" where
  "filter_display f =
     bytes_of ''ReplayFilter(window='' @ dec_bytes (unat (window_size f)) @
     bytes_of '', last_seq='' @ dec_bytes (unat (last_seq f)) @
     bytes_of '', accepted='' @ dec_bytes (unat (total_accepted f)) @
     bytes_of ''/'' @ dec_bytes (unat (total_seen f)) @
     bytes_of '', rejected='' @ dec_bytes (unat (total_rejected f)) @ bytes_of '')''"

section \<open>The public error type\<close>

datatype tunnel_error =
    TE_Crypto bytes
  | TE_Handshake bytes
  | TE_Replay u64 bytes
  | TE_Frame bytes
  | TE_Io bytes
  | TE_Timeout bytes
  | TE_CapacityExceeded u64
  | TE_HexDecode bytes
  | TE_Utf8 bytes
  | TE_InvalidLength u64 u64
  | TE_Other bytes

fun tunnel_error_display :: "tunnel_error \<Rightarrow> bytes" where
  "tunnel_error_display (TE_Crypto t) = bytes_of ''Kryptografisk feil: '' @ t"
| "tunnel_error_display (TE_Handshake t) = bytes_of ''Handshake-feil: '' @ t"
| "tunnel_error_display (TE_Replay seq reason) =
     bytes_of ''Replay-angrep detektert for sekvensnummer '' @ dec_bytes (unat seq) @
     bytes_of '': '' @ reason"
| "tunnel_error_display (TE_Frame t) = bytes_of ''Protokoll-rammefeil: '' @ t"
| "tunnel_error_display (TE_Io t) = bytes_of ''Nettverks- og I/O-feil: '' @ t"
| "tunnel_error_display (TE_Timeout t) = bytes_of ''Operasjon timet ut: '' @ t"
| "tunnel_error_display (TE_CapacityExceeded n) =
     bytes_of ''Maksimal serverkapasitet n'' @ [0xC3, 0xA5] @ bytes_of ''dd ('' @
     dec_bytes (unat n) @ bytes_of '' forbindelser)''"
| "tunnel_error_display (TE_HexDecode t) = bytes_of ''Hex-dekodingsfeil: '' @ t"
| "tunnel_error_display (TE_Utf8 t) = bytes_of ''Ugyldig UTF-8 data: '' @ t"
| "tunnel_error_display (TE_InvalidLength expected actual) =
     bytes_of ''Ugyldig datalengde: forventet '' @ dec_bytes (unat expected) @
     bytes_of '' bytes, mottok '' @ dec_bytes (unat actual) @ bytes_of '' bytes''"
| "tunnel_error_display (TE_Other t) = bytes_of ''Generell feil: '' @ t"

text \<open>\<open>From<anyhow::Error>\<close>, given the text of the error.\<close>

definition tunnel_error_from_anyhow :: "bytes \<Rightarrow> tunnel_error" where
  "tunnel_error_from_anyhow err_text = TE_Other err_text"

section \<open>Decimal numbers delimit themselves\<close>

lemma dec_bytes_digits: "list_all (\<lambda>b. 0x30 \<le> b \<and> b \<le> 0x39) (dec_bytes n)"
proof (induction n rule: dec_bytes.induct)
  case (1 n)
  have digit: "(0x30 :: u8) \<le> 0x30 + word_of_nat m \<and> 0x30 + word_of_nat m \<le> (0x39 :: u8)" if "m < 10" for m
  proof -
    have "unat (0x30 + word_of_nat m :: u8) = 48 + m"
      using that by (simp add: unat_word_ariths unat_of_nat)
    then show ?thesis using that by (simp add: word_le_nat_alt)
  qed
  show ?case
  proof (cases "n < 10")
    case True
    then show ?thesis using digit [of n] by (simp add: dec_bytes.simps [of n])
  next
    case False
    with 1 have "list_all (\<lambda>b. 0x30 \<le> b \<and> b \<le> 0x39) (dec_bytes (n div 10))" by simp
    then show ?thesis using digit [of "n mod 10"] False by (simp add: dec_bytes.simps [of n])
  qed
qed

lemma digits_split:
  assumes "list_all d xs" "list_all d ys" "\<not> d x" "\<not> d y" "xs @ x # r = ys @ y # s"
  shows "xs = ys \<and> x # r = y # s"
  using assms
proof (induction xs arbitrary: ys)
  case Nil
  then show ?case by (cases ys) auto
next
  case (Cons a xs)
  then show ?case by (cases ys) auto
qed

lemma dec_bytes_split:
  assumes "dec_bytes m @ x # r = dec_bytes n @ y # s"
    and "\<not> (0x30 \<le> x \<and> x \<le> (0x39 :: u8))" "\<not> (0x30 \<le> y \<and> y \<le> (0x39 :: u8))"
  shows "m = n \<and> x # r = y # s"
  using digits_split [OF dec_bytes_digits dec_bytes_digits assms(2,3,1)] dec_bytes_inject by metis

lemma dec_bytes_sep:
  assumes "dec_bytes m @ s @ r = dec_bytes n @ s @ q" "s \<noteq> []" "\<not> (0x30 \<le> hd s \<and> hd s \<le> (0x39 :: u8))"
  shows "m = n \<and> r = q"
  using assms by (cases s) (auto dest: dec_bytes_split)

section \<open>Properties\<close>

text \<open>
  The printed texts are faithful and discreet: the filter's text determines its window,
  its highest number and its three counters, while the \<open>Debug\<close> texts of key pairs, ciphers,
  ephemeral and session keys do not depend on any secret key they hold.
\<close>

theorem texts_faithful_and_redacted:
  "(filter_display f = filter_display g \<longleftrightarrow>
     (window_size f, last_seq f, total_accepted f, total_seen f, total_rejected f) =
     (window_size g, last_seq g, total_accepted g, total_seen g, total_rejected g)) \<and>
   keypair_debug P (kp\<lparr>private_key := k\<rparr>) = keypair_debug P kp \<and>
   cipher_debug (c\<lparr>cs_key := k\<rparr>) = cipher_debug c \<and>
   ephemeral_debug P (e\<lparr>eph_secret := k\<rparr>) = ephemeral_debug P e \<and>
   session_keys_debug (sk\<lparr>client_write_key := k, server_write_key := k'\<rparr>) = session_keys_debug sk"
proof (intro conjI)
  show "filter_display f = filter_display g \<longleftrightarrow>
     (window_size f, last_seq f, total_accepted f, total_seen f, total_rejected f) =
     (window_size g, last_seq g, total_accepted g, total_seen g, total_rejected g)"
  proof
    assume eq: "filter_display f = filter_display g"
    have sep: "bytes_of '', last_seq='' \<noteq> []" "\<not> (0x30 \<le> hd (bytes_of '', last_seq='') \<and> hd (bytes_of '', last_seq='') \<le> (0x39 :: u8))"
        "bytes_of '', accepted='' \<noteq> []" "\<not> (0x30 \<le> hd (bytes_of '', accepted='') \<and> hd (bytes_of '', accepted='') \<le> (0x39 :: u8))"
        "bytes_of ''/'' \<noteq> []" "\<not> (0x30 \<le> hd (bytes_of ''/'') \<and> hd (bytes_of ''/'') \<le> (0x39 :: u8))"
        "bytes_of '', rejected='' \<noteq> []" "\<not> (0x30 \<le> hd (bytes_of '', rejected='') \<and> hd (bytes_of '', rejected='') \<le> (0x39 :: u8))"
        "bytes_of '')'' \<noteq> []" "\<not> (0x30 \<le> hd (bytes_of '')'') \<and> hd (bytes_of '')'') \<le> (0x39 :: u8))"
      by (simp_all add: bytes_of_def word_le_nat_alt)
    note s1 = dec_bytes_sep [OF eq [unfolded filter_display_def append_assoc same_append_eq] sep(1,2)]
    note s2 = dec_bytes_sep [OF conjunct2 [OF s1, unfolded append_assoc same_append_eq] sep(3,4)]
    note s3 = dec_bytes_sep [OF conjunct2 [OF s2, unfolded append_assoc same_append_eq] sep(5,6)]
    note s4 = dec_bytes_sep [OF conjunct2 [OF s3, unfolded append_assoc same_append_eq] sep(7,8)]
    have "dec_bytes (unat (total_rejected f)) = dec_bytes (unat (total_rejected g))"
      using conjunct2 [OF s4] by simp
    then show "(window_size f, last_seq f, total_accepted f, total_seen f, total_rejected f) =
     (window_size g, last_seq g, total_accepted g, total_seen g, total_rejected g)"
      using s1 s2 s3 s4 by (simp add: dec_bytes_inject word_unat_eq_iff)
  qed (simp add: filter_display_def)
qed (simp_all add: keypair_debug_def cipher_debug_def ephemeral_debug_def session_keys_debug_def)

end
