(* ===== verification/Verify.thy ===== *)
theory Verify
  imports End_To_End
begin

text \<open>
  The built-in security self-check (src/src/verify.rs 13-118): its four checks as the
  source runs them on the model. The live check's network, random bytes and port binding
  are arguments.
\<close>

section \<open>The checks\<close>

definition SECRET_TEST_MESSAGE :: bytes where
  "SECRET_TEST_MESSAGE = bytes_of ''Testmelding med topphemmelig innhold 12345!''"

definition test_live_tunnel_handshake ::
  "primitives \<Rightarrow> profile \<Rightarrow> bool \<Rightarrow> bytes \<Rightarrow> bytes \<Rightarrow> net option \<Rightarrow> bytes \<Rightarrow>
   net option \<times> unit result" where
  "test_live_tunnel_handshake P prof port_free local_addr server_random connect client_random =
     (if \<not> port_free then (None, Inl (Err Io))
      else
        let server_keypair = keypair_generate P server_random;
            client = client_new (public_key server_keypair) local_addr
        in case send_secure_message P prof client connect client_random False SECRET_TEST_MESSAGE of
             (stream, Inl e) \<Rightarrow> (stream, Inl e)
           | (stream, Inr response) \<Rightarrow>
               if \<not> contains response SECRET_TEST_MESSAGE then (stream, Inl (Err (VerificationFailed 1)))
               else (stream, Inr ()))"

definition test_packet_tampering_detection :: "primitives \<Rightarrow> profile \<Rightarrow> unit result" where
  "test_packet_tampering_detection P prof =
     (let key = replicate KEY_LEN 0x99;
          sender = cipher_new key;
          receiver = cipher_new key;
          aad = bytes_of ''aad-metadata'';
          plaintext = bytes_of ''Viktig bankoverforing: 1 000 000 NOK''
      in case encrypt P plaintext aad sender of
           (_, Inl e) \<Rightarrow> Inl e
         | (_, Inr ciphertext) \<Rightarrow>
             bindR (index_at (length ciphertext - 1) ciphertext) (\<lambda>last.
               let ciphertext = ciphertext[length ciphertext - 1 := xor last 0xFF]
               in case snd (decrypt P prof ciphertext aad 0 receiver) of
                    Inr _ \<Rightarrow> Inl (Err (VerificationFailed 2))
                  | Inl (Panic p) \<Rightarrow> Inl (Panic p)
                  | Inl (Err _) \<Rightarrow> Inr ()))"

definition test_replay_attack_rejection :: "profile \<Rightarrow> unit result" where
  "test_replay_attack_rejection prof =
     (case validate_and_record prof 100 new_filter of
        (_, Inl e) \<Rightarrow> Inl e
      | (filt, Inr _) \<Rightarrow>
          (case snd (validate_and_record prof 100 filt) of
             Inr _ \<Rightarrow> Inl (Err (VerificationFailed 3))
           | Inl (Panic p) \<Rightarrow> Inl (Panic p)
           | Inl (Err _) \<Rightarrow> Inr ()))"

definition test_nonce_progression :: "primitives \<Rightarrow> unit result" where
  "test_nonce_progression P =
     snd (bindA (getsA current_nonce) (\<lambda>n. bindA (assert_eq n 0) (\<lambda>_.
          bindA (encrypt P (bytes_of ''msg 1'') []) (\<lambda>_.
          bindA (getsA current_nonce) (\<lambda>n. bindA (assert_eq n 1) (\<lambda>_.
          bindA (encrypt P (bytes_of ''msg 2'') []) (\<lambda>_.
          bindA (getsA current_nonce) (\<lambda>n. assert_eq n 2)))))))
        (cipher_new (replicate KEY_LEN 0x33)))"

definition run_security_verification ::
  "primitives \<Rightarrow> profile \<Rightarrow> bool \<Rightarrow> bytes \<Rightarrow> bytes \<Rightarrow> net option \<Rightarrow> bytes \<Rightarrow>
   net option \<times> unit result" where
  "run_security_verification P prof port_free local_addr server_random connect client_random =
     (case test_live_tunnel_handshake P prof port_free local_addr server_random connect client_random of
        (stream, Inl e) \<Rightarrow> (stream, Inl e)
      | (stream, Inr _) \<Rightarrow> (stream,
          (case test_packet_tampering_detection P prof of
             Inl e \<Rightarrow> Inl e
           | Inr _ \<Rightarrow>
          (case test_replay_attack_rejection prof of
             Inl e \<Rightarrow> Inl e
           | Inr _ \<Rightarrow> test_nonce_progression P))))"

section \<open>Each check passes\<close>

lemma flip_byte: "xor (a :: u8) 0xFF \<noteq> a"
proof
  assume "xor a 0xFF = a"
  then have "bit (xor a 0xFF) 0 = bit a 0" by simp
  then show False by (simp add: bit_xor_iff)
qed

lemma tampering_detected:
  assumes "session_primitives P" "aead_tagged P" "aead_stream P"
  shows "test_packet_tampering_detection P prof = Inr ()"
proof -
  let ?key = "replicate KEY_LEN 0x99 :: bytes" and ?aad = "bytes_of ''aad-metadata''"
  let ?m = "bytes_of ''Viktig bankoverforing: 1 000 000 NOK''"
  have short: "length ?m < aead_limit" by (simp add: bytes_of_def aead_limit_def)
  obtain ct where ct: "p_seal P ?key (build_nonce 0) ?aad ?m = Some ct"
      "p_open P ?key (build_nonce 0) ?aad ct = Some ?m" "length ct = length ?m + 16"
    by (rule seal_total [OF session_primitivesD(4,5) [OF assms(1)] short])
  define ct' where "ct' = ct[length ct - 1 := xor (ct ! (length ct - 1)) 0xFF]"
  have last: "length ct - 1 < length ct" using ct(3) by simp
  then have "ct' ! (length ct - 1) \<noteq> ct ! (length ct - 1)"
    by (simp add: ct'_def flip_byte)
  then have ne: "ct' \<noteq> ct" by (rule contrapos_nn) simp
  have "p_open P ?key (build_nonce 0) ?aad ct' = None"
    using tag_flip [OF assms(2,3) ct(2), of ct'] ne ct(3) by (simp add: ct'_def)
  moreover have "encrypt P ?m ?aad (cipher_new ?key) = ((cipher_new ?key)\<lparr>cs_nonce := 1\<rparr>, Inr ct)"
    using ct(1) by (simp add: encrypt_Inr cipher_new_def)
  moreover have "ct \<noteq> []" using ct(3) by auto
  ultimately show ?thesis
    by (simp add: test_packet_tampering_detection_def Let_def decrypt_def cipher_new_def ct'_def)
qed

lemma replay_rejected: "test_replay_attack_rejection prof = Inr ()"
proof -
  have ok: "window_ok new_filter" "counters_ok new_filter" "unat (total_seen new_filter) + 1 < 2 ^ 64"
    by (simp_all add: new_filter_def) (simp add: with_window_size_def)
  have fresh: "verdict new_filter 100 = None"
    by (simp add: verdict_def new_filter_def with_window_size_def)
  let ?f = "after_call new_filter 100"
  have ok': "window_ok ?f" "counters_ok ?f" "unat (total_seen ?f) + 1 < 2 ^ 64"
    using ok after_call_counters [OF ok(2,3)]
    by (simp_all add: new_filter_def) (simp add: with_window_size_def)
  have again: "verdict ?f 100 \<noteq> None"
    using fresh by (simp add: verdict_def after_call_def slide_def Let_def new_filter_def
        with_window_size_def REPLAY_WINDOW_SIZE_def clamp_window_def)
  then show ?thesis
    using fresh validate_no_overflow [OF ok, of prof 100] validate_no_overflow [OF ok', of prof 100]
    by (auto simp: test_replay_attack_rejection_def)
qed

lemma nonces_progress:
  assumes "session_primitives P"
  shows "test_nonce_progression P = Inr ()"
proof -
  note laws = session_primitivesD(4,5) [OF assms]
  have enc: "\<exists>ct. encrypt P m a c = (next_nonce c, Inr ct)"
    if "length m < aead_limit" "unat (cs_nonce c) + 1 < 2 ^ 64" for m a c
    using encrypt_ok [OF laws that] unfolding next_nonce_def by metis
  let ?c = "cipher_new (replicate KEY_LEN 0x33)"
  obtain ct1 where one: "encrypt P (bytes_of ''msg 1'') [] ?c = (next_nonce ?c, Inr ct1)"
    using enc [of "bytes_of ''msg 1''" ?c] by (auto simp: bytes_of_def aead_limit_def cipher_new_def)
  obtain ct2 where two: "encrypt P (bytes_of ''msg 2'') [] (next_nonce ?c) = (next_nonce (next_nonce ?c), Inr ct2)"
    using enc [of "bytes_of ''msg 2''" "next_nonce ?c"] by (auto simp: bytes_of_def aead_limit_def cipher_new_def)
  show ?thesis
    using one two
    by (simp add: test_nonce_progression_def bindA_case getsA_def assert_eq_def assertA_def ret_def current_nonce_def)
      (simp add: cipher_new_def)
qed

section \<open>Properties\<close>

text \<open>
  C31. The self-check passes: with primitives that behave as documented there is a joint run
  with the server that the live check starts, in which each side reads exactly what the
  other has written, the server's session ends without an error and all four checks
  succeed: the message comes back, the tampered ciphertext is refused, the second copy of
  number 100 is refused, and the counter takes the values 0, 1 and 2.
\<close>

theorem verification_passes:
  assumes P: "session_primitives P" "aead_tagged P" "aead_stream P"
    and "length server_random = 32" "length client_random = 32" "length ephemeral_random = 32"
  shows "\<exists>c s.
    run_security_verification P prof True addr server_random (Some (connection (outbox s))) client_random =
      (Some c, Inr ()) \<and>
    handle_client P prof (keypair_generate P server_random) ephemeral_random (connection (outbox c)) = (s, Inr ())"
proof -
  let ?keys = "keypair_generate P server_random"
  let ?client = "client_new (public_key ?keys) addr"
  have keys: "?keys = from_private_bytes P server_random"
    by (simp add: keypair_generate_def from_private_bytes_def)
  have client: "tc_server_pubkey ?client = public_key ?keys" "tc_prologue ?client = PROTOCOL_NAME"
      "tc_timeout ?client = None"
    by (simp_all add: client_new_def)
  have msg: "utf8_valid SECRET_TEST_MESSAGE" "length SECRET_TEST_MESSAGE \<le> 65496"
    by (rule utf8_valid_ascii) (simp_all add: SECRET_TEST_MESSAGE_def bytes_of_def)
  obtain c s where run:
    "secure_exchange P prof ?client client_random SECRET_TEST_MESSAGE (connection (outbox s)) =
       (c, Inr (REPLY_PREFIX @ SECRET_TEST_MESSAGE))"
    "handle_client_with_prologue P prof ?keys PROTOCOL_NAME ephemeral_random (connection (outbox c)) = (s, Inr ())"
    using echo_joint [OF P(1) assms(5,6) keys assms(4) client(1) msg, of prof prof] client(2) by auto
  have "test_live_tunnel_handshake P prof True addr server_random (Some (connection (outbox s))) client_random =
      (Some c, Inr ())"
    using send_secure_message_ok [OF run(1), of False]
    by (simp add: test_live_tunnel_handshake_def Let_def contains_append)
  then show ?thesis
    using run(2) tampering_detected [OF P] replay_rejected nonces_progress [OF P(1)]
    by (intro exI [of _ c] exI [of _ s]) (simp add: run_security_verification_def handle_client_def)
qed

theorem verification_passes_witness:
  "\<exists>c s. run_security_verification toy Debug True [] (replicate 32 5) (Some (connection (outbox s))) (replicate 32 1) =
      (Some c, Inr ()) \<and>
    handle_client toy Debug (keypair_generate toy (replicate 32 5)) (replicate 32 2) (connection (outbox c)) = (s, Inr ())"
  by (rule verification_passes [OF toy_session toy_aead(3,4)]) simp_all

end
