(* ===== verification/Float64.thy ===== *)
theory Float64
  imports Complex_Main "HOL-Library.Log_Nat" Prelude
begin

text \<open>
  What the program uses of \<open>f64\<close>: the cast \<open>as f64\<close> of a 64-bit integer, \<open>+\<close> and \<open>/\<close> on
  non-negative numbers, and \<open>Duration::as_secs_f64\<close>. A finite double is the rational it
  stands for; every operation rounds its exact result to 53 significant bits, ties to even
  (IEEE 754 binary64). All values of the program are zero or lie between 2^-100 and 2^100, so
  there are no subnormal numbers and no overflow; division by zero gives infinity.
\<close>

section \<open>Rounding to 53 bits\<close>

text \<open>The binary exponent: \<open>2 ^ e \<le> x < 2 ^ (e + 1)\<close>.\<close>

definition f64_exp :: "rat \<Rightarrow> int" where
  "f64_exp x =
     (let (n, d) = quotient_of x;
          k = int (floorlog 2 (nat n)) - int (floorlog 2 (nat d))
      in if 2 powi k \<le> x then k else k - 1)"

definition ulp :: "rat \<Rightarrow> rat" where
  "ulp x = 2 powi (f64_exp x - 52)"

definition round_half_even :: "rat \<Rightarrow> int" where
  "round_half_even x =
     (let f = \<lfloor>x\<rfloor>; r = x - of_int f in
      if r < 1 / 2 then f else if 1 / 2 < r then f + 1 else if even f then f else f + 1)"

definition round53 :: "rat \<Rightarrow> rat" where
  "round53 x = (if x = 0 then 0 else of_int (round_half_even (x / ulp x)) * ulp x)"

datatype f64 = Finite rat | PosInf | NaN

definition f64_of_u64 :: "u64 \<Rightarrow> f64" where
  "f64_of_u64 w = Finite (round53 (of_nat (unat w)))"

fun f64_add :: "f64 \<Rightarrow> f64 \<Rightarrow> f64" where
  "f64_add (Finite a) (Finite b) = Finite (round53 (a + b))"
| "f64_add NaN _ = NaN"
| "f64_add _ NaN = NaN"
| "f64_add _ _ = PosInf"

fun f64_div :: "f64 \<Rightarrow> f64 \<Rightarrow> f64" where
  "f64_div (Finite a) (Finite b) =
     (if b = 0 then (if a = 0 then NaN else PosInf) else Finite (round53 (a / b)))"
| "f64_div NaN _ = NaN"
| "f64_div _ NaN = NaN"
| "f64_div PosInf PosInf = NaN"
| "f64_div PosInf (Finite _) = PosInf"
| "f64_div (Finite _) PosInf = Finite 0"

fun f64_mul :: "f64 \<Rightarrow> f64 \<Rightarrow> f64" where
  "f64_mul (Finite a) (Finite b) = Finite (round53 (a * b))"
| "f64_mul NaN _ = NaN"
| "f64_mul _ NaN = NaN"
| "f64_mul PosInf (Finite b) = (if b = 0 then NaN else PosInf)"
| "f64_mul (Finite a) PosInf = (if a = 0 then NaN else PosInf)"
| "f64_mul PosInf PosInf = PosInf"

text \<open>A \<open>Duration\<close> is a number of nanoseconds.\<close>

definition as_secs_f64 :: "nat \<Rightarrow> f64" where
  "as_secs_f64 d =
     f64_add (f64_of_u64 (word_of_nat (d div 10 ^ 9)))
             (f64_div (f64_of_u64 (word_of_nat (d mod 10 ^ 9))) (Finite (10 ^ 9)))"

section \<open>The exponent\<close>

lemma two_powi_mono: "a \<le> b \<Longrightarrow> (2 :: rat) powi a \<le> 2 powi b"
  by (rule power_int_increasing) auto

lemma two_powi_less: "(2 :: rat) powi a < 2 powi b \<longleftrightarrow> a < b"
  by (meson not_le power_int_strict_increasing two_powi_mono one_less_numeral_iff semiring_norm(76))

lemma f64_exp_bounds:
  assumes "0 < x"
  shows "2 powi f64_exp x \<le> x" "x < 2 powi (f64_exp x + 1)"
proof -
  obtain n d where q: "quotient_of x = (n, d)" by (cases "quotient_of x")
  have x: "x = of_int n / of_int d" and d: "0 < d"
    using q by (auto simp: quotient_of_div quotient_of_denom_pos)
  with assms have n: "0 < n" by (simp add: zero_less_divide_iff)
  define a where "a = floorlog 2 (nat n)"
  define b where "b = floorlog 2 (nat d)"
  have a: "(2 :: nat) ^ (a - 1) \<le> nat n" "nat n < 2 ^ a" and b: "(2 :: nat) ^ (b - 1) \<le> nat d" "nat d < 2 ^ b"
    using floorlog_bounds [of "nat n" 2] floorlog_bounds [of "nat d" 2] n d by (simp_all add: a_def b_def)
  have pos: "0 < a" "0 < b" using a(2) b(2) n d by (auto intro: gr0I)
  have upper: "(of_int n :: rat) < 2 powi int a" "(of_int d :: rat) < 2 powi int b"
    using a(2) b(2) n d by (metis of_int_less_iff of_int_of_nat_eq of_int_numeral of_int_power
        of_nat_less_iff of_nat_numeral of_nat_power order_less_imp_le power_int_of_nat nat_0_le)+
  have lower: "(2 :: rat) powi (int a - 1) \<le> of_int n" "(2 :: rat) powi (int b - 1) \<le> of_int d"
  proof -
    have *: "(2 :: rat) powi (int c - 1) \<le> of_int m" if "0 < c" "0 < m" "(2 :: nat) ^ (c - 1) \<le> nat m" for c m
    proof -
      have "(2 :: int) ^ (c - 1) \<le> m" using that by (simp add: le_nat_iff)
      then have "(of_int (2 ^ (c - 1)) :: rat) \<le> of_int m" by (simp only: of_int_le_iff)
      moreover have "int c - 1 = int (c - 1)" using that(1) by simp
      ultimately show ?thesis by (simp only: power_int_of_nat) simp
    qed
    show "(2 :: rat) powi (int a - 1) \<le> of_int n" "(2 :: rat) powi (int b - 1) \<le> of_int d"
      using * pos n d a(1) b(1) by auto
  qed
  have lt: "x < 2 powi (int a - int b + 1)"
  proof -
    have "x < 2 powi int a / of_int d" using upper(1) d by (simp add: x divide_strict_right_mono)
    also have "\<dots> \<le> 2 powi int a / 2 powi (int b - 1)"
      using lower(2) d by (intro divide_left_mono) auto
    also have "\<dots> = 2 powi (int a - (int b - 1))" by (subst power_int_diff) auto
    finally show ?thesis by (simp add: algebra_simps)
  qed
  have gt: "2 powi (int a - int b - 1) < x"
  proof -
    have "(2 :: rat) powi (int a - int b - 1) = 2 powi (int a - 1) / 2 powi int b"
      by (subst power_int_diff [symmetric]) (auto simp: algebra_simps)
    also have "\<dots> \<le> of_int n / 2 powi int b" using lower(1) by (intro divide_right_mono) auto
    also have "\<dots> < x" unfolding x using upper(2) n d by (intro divide_strict_left_mono) auto
    finally show ?thesis .
  qed
  have e: "f64_exp x = (if 2 powi (int a - int b) \<le> x then int a - int b else int a - int b - 1)"
    by (simp add: f64_exp_def q a_def b_def)
  show "2 powi f64_exp x \<le> x" "x < 2 powi (f64_exp x + 1)"
    using lt gt by (auto simp: e not_le)
qed

lemma f64_exp_eqI:
  assumes "2 powi e \<le> x" "x < 2 powi (e + 1)"
  shows "f64_exp x = e"
proof -
  have "0 < x" using assms(1) by (rule order.strict_trans2 [rotated]) simp
  note b = f64_exp_bounds [OF this]
  have "e < f64_exp x + 1" using assms(1) b(2) two_powi_less by (metis order.strict_trans1)
  moreover have "f64_exp x < e + 1" using b(1) assms(2) two_powi_less by (metis order.strict_trans1)
  ultimately show ?thesis by simp
qed

lemma ulp_pos [simp]: "0 < ulp x" "ulp x \<noteq> 0"
  by (simp_all add: ulp_def)

section \<open>Rounding is monotone, exact where it can be, and close\<close>

lemma round_half_even_error: "\<bar>of_int (round_half_even x) - x\<bar> \<le> 1 / 2"
  by (auto simp: round_half_even_def Let_def abs_if) linarith+

lemma round_half_even_int [simp]: "round_half_even (of_int k) = k"
  by (simp add: round_half_even_def)

lemma round_half_even_mono:
  assumes "x \<le> y"
  shows "round_half_even x \<le> round_half_even y"
proof (cases "\<lfloor>x\<rfloor> = \<lfloor>y\<rfloor>")
  case True
  with assms show ?thesis by (auto simp: round_half_even_def Let_def)
next
  case False
  with assms have "\<lfloor>x\<rfloor> + 1 \<le> \<lfloor>y\<rfloor>" using floor_mono [OF assms] by simp
  moreover have "round_half_even x \<le> \<lfloor>x\<rfloor> + 1" "\<lfloor>y\<rfloor> \<le> round_half_even y"
    by (auto simp: round_half_even_def Let_def)
  ultimately show ?thesis by simp
qed

lemma scaled_bounds:
  assumes "0 < x"
  shows "of_int (2 ^ 52) \<le> x / ulp x" "x / ulp x < of_int (2 ^ 53)"
proof -
  have e: "(2 :: rat) powi f64_exp x = of_int (2 ^ 52) * ulp x"
      "(2 :: rat) powi (f64_exp x + 1) = of_int (2 ^ 53) * ulp x"
    by (simp_all add: ulp_def power_int_diff power_int_add)
  show "of_int (2 ^ 52) \<le> x / ulp x" "x / ulp x < of_int (2 ^ 53)"
    using f64_exp_bounds [OF assms] ulp_pos(1) [of x] unfolding e
    by (simp_all only: pos_le_divide_eq pos_divide_less_eq)
qed

lemma round53_binade:
  assumes "0 < x"
  shows "2 powi f64_exp x \<le> round53 x" "round53 x \<le> 2 powi (f64_exp x + 1)"
proof -
  have "round_half_even (of_int (2 ^ 52)) \<le> round_half_even (x / ulp x)"
    "round_half_even (x / ulp x) \<le> round_half_even (of_int (2 ^ 53))"
    using scaled_bounds [OF assms] by (auto intro!: round_half_even_mono)
  then have "(of_int (2 ^ 52) :: rat) \<le> of_int (round_half_even (x / ulp x))"
    "(of_int (round_half_even (x / ulp x)) :: rat) \<le> of_int (2 ^ 53)"
    by (simp_all only: round_half_even_int of_int_le_iff)
  moreover have "(2 :: rat) powi f64_exp x = of_int (2 ^ 52) * ulp x"
      "(2 :: rat) powi (f64_exp x + 1) = of_int (2 ^ 53) * ulp x"
    by (simp_all add: ulp_def power_int_diff power_int_add)
  ultimately show "2 powi f64_exp x \<le> round53 x" "round53 x \<le> 2 powi (f64_exp x + 1)"
    using assms ulp_pos(1) [of x] by (simp_all only: round53_def if_False less_imp_neq [symmetric] mult_right_mono order_less_imp_le)
qed

lemma round53_zero [simp]: "round53 0 = 0"
  by (simp add: round53_def)

lemma round53_pos: "0 < x \<Longrightarrow> 0 < round53 x"
  using round53_binade(1) [of x] by (rule order.strict_trans2 [rotated]) auto

lemma round53_mono:
  assumes "0 \<le> x" "x \<le> y"
  shows "round53 x \<le> round53 y"
proof (cases "x = 0")
  case True
  then show ?thesis using assms round53_pos [of y] by (cases "y = 0") auto
next
  case False
  with assms have x: "0 < x" and y: "0 < y" by simp_all
  show ?thesis
  proof (cases "f64_exp x = f64_exp y")
    case True
    then have "ulp x = ulp y" by (simp add: ulp_def)
    moreover have "round_half_even (x / ulp x) \<le> round_half_even (y / ulp x)"
      using assms(2) by (intro round_half_even_mono divide_right_mono) (auto intro: order_less_imp_le)
    ultimately show ?thesis
      using x y by (simp add: round53_def mult_right_mono order_less_imp_le)
  next
    case False
    have "2 powi f64_exp x < (2 :: rat) powi (f64_exp y + 1)"
      using f64_exp_bounds(1) [OF x] f64_exp_bounds(2) [OF y] assms(2) by linarith
    with False have "f64_exp x + 1 \<le> f64_exp y" by (simp add: two_powi_less)
    then have "(2 :: rat) powi (f64_exp x + 1) \<le> 2 powi f64_exp y" by (rule two_powi_mono)
    then show ?thesis using round53_binade(2) [OF x] round53_binade(1) [OF y] by linarith
  qed
qed

lemma round53_nonneg: "0 \<le> x \<Longrightarrow> 0 \<le> round53 x"
  using round53_mono [of 0 x] by simp

lemma round53_exact:
  assumes "x = of_int m * 2 powi (e - 52)" "2 powi e \<le> x" "x < 2 powi (e + 1)"
  shows "round53 x = x"
proof -
  have "f64_exp x = e" by (rule f64_exp_eqI [OF assms(2,3)])
  then have u: "ulp x = 2 powi (e - 52)" by (simp add: ulp_def)
  then have "x / ulp x = of_int m" by (simp add: assms(1))
  moreover have "x \<noteq> 0" using assms(2) by (metis not_le power_int_eq_0_iff zero_less_power_int zero_less_numeral)
  ultimately have "round53 x = of_int (round_half_even (of_int m)) * 2 powi (e - 52)"
    by (simp only: round53_def if_False u)
  then show ?thesis by (simp add: assms(1))
qed

lemma round53_nat:
  assumes "n < 2 ^ 53"
  shows "round53 (of_nat n) = of_nat n"
proof (cases "n = 0")
  case False
  define e where "e = f64_exp (of_nat n)"
  have b: "2 powi e \<le> (of_nat n :: rat)" "(of_nat n :: rat) < 2 powi (e + 1)"
    using f64_exp_bounds [of "of_nat n"] False by (simp_all add: e_def)
  have "(of_nat n :: rat) < of_nat (2 ^ 53)" using assms by (simp only: of_nat_less_iff)
  also have "(of_nat (2 ^ 53) :: rat) = 2 powi 53" by (simp add: power_int_def)
  finally have "2 powi e < (2 :: rat) powi 53" using b(1) by (rule order.strict_trans1 [rotated])
  then have "e \<le> 52" by (simp only: two_powi_less)
  then have "(2 :: rat) powi (52 - e) * 2 powi (e - 52) = 1"
    by (simp flip: power_int_add)
  moreover have "(2 :: rat) powi (52 - e) = of_int (2 ^ nat (52 - e))"
    using \<open>e \<le> 52\<close> by (simp add: power_int_def)
  ultimately have "of_nat n = of_int (int n * 2 ^ nat (52 - e)) * (2 :: rat) powi (e - 52)"
    by (simp add: mult.assoc)
  then show ?thesis using b by (rule round53_exact)
qed simp

text \<open>The largest double below one, and the relative error of one rounding.\<close>

lemma round53_below_one: "round53 (1 - 1 / 2 ^ 53) = 1 - 1 / 2 ^ 53"
  by (rule round53_exact [of _ "2 ^ 53 - 1" "- 1"]) (simp_all add: power_int_def power_divide)

lemma round53_error:
  assumes "0 \<le> x"
  shows "\<bar>round53 x - x\<bar> \<le> x / 2 ^ 53"
proof (cases "x = 0")
  case False
  with assms have x: "0 < x" by simp
  have "\<bar>round53 x - x\<bar> = \<bar>of_int (round_half_even (x / ulp x)) - x / ulp x\<bar> * ulp x"
  proof -
    have "round53 x - x = (of_int (round_half_even (x / ulp x)) - x / ulp x) * ulp x"
      using x ulp_pos(1) [of x] by (simp add: round53_def left_diff_distrib)
    then show ?thesis using ulp_pos(1) [of x] by (simp only: abs_mult abs_of_pos)
  qed
  also have "\<dots> \<le> 1 / 2 * ulp x"
    by (intro mult_right_mono round_half_even_error) (simp add: order_less_imp_le)
  also have "\<dots> \<le> x / 2 ^ 53"
    using scaled_bounds(1) [OF x] ulp_pos(1) [of x] by (simp add: pos_le_divide_eq)
  finally show ?thesis .
qed simp

section \<open>Operations\<close>

lemma f64_of_u64_exact: "unat w < 2 ^ 53 \<Longrightarrow> f64_of_u64 w = Finite (of_nat (unat w))"
  by (simp only: f64_of_u64_def round53_nat)

lemma as_secs_f64_finite:
  obtains r where "as_secs_f64 d = Finite r" "0 \<le> r"
proof -
  show thesis
    by (rule that [of "case as_secs_f64 d of Finite r \<Rightarrow> r"])
      (auto simp: as_secs_f64_def f64_of_u64_def simp del: of_nat_unat intro!: round53_nonneg add_nonneg_nonneg divide_nonneg_nonneg)
qed

end
