(* ===== verification/Rates.thy ===== *)
theory Rates
  imports Float64 Replay Stats
begin

text \<open>
  The floating-point readings of the program: the acceptance rate of the replay filter
  (src/src/protocol/mod.rs 493-500) and the transfer rates of a session
  (src/src/stats.rs 91-109), over the doubles of \<open>Float64\<close>. Each is related to the exact
  quotient that it stands for.
\<close>

definition acceptance_rate :: "replay_filter \<Rightarrow> f64" where
  "acceptance_rate f =
     (if total_seen f = 0 then Finite 1
      else f64_div (f64_of_u64 (total_accepted f)) (f64_of_u64 (total_seen f)))"

fun f64_positive :: "f64 \<Rightarrow> bool" where
  "f64_positive (Finite a) = (0 < a)"
| "f64_positive PosInf = True"
| "f64_positive NaN = False"

text \<open>\<open>None\<close> is the overflow panic of the total in a debug build; \<open>now\<close> is the clock reading.\<close>

definition bytes_per_sec :: "profile \<Rightarrow> session_metrics \<Rightarrow> nat \<Rightarrow> f64 option" where
  "bytes_per_sec prof m now =
     (let secs = as_secs_f64 (metrics_elapsed m now) in
      if f64_positive secs
      then map_option (\<lambda>total. f64_div (f64_of_u64 total) secs) (total_bytes prof m)
      else Some (Finite 0))"

definition frames_per_sec :: "profile \<Rightarrow> session_metrics \<Rightarrow> nat \<Rightarrow> f64 option" where
  "frames_per_sec prof m now =
     (let secs = as_secs_f64 (metrics_elapsed m now) in
      if f64_positive secs
      then map_option (\<lambda>total. f64_div (f64_of_u64 total) secs) (total_frames prof m)
      else Some (Finite 0))"

section \<open>Closeness up to a number of roundings\<close>

text \<open>\<open>close n x y\<close>: the two differ by at most the factor of \<open>n\<close> roundings.\<close>

definition slack :: rat where
  "slack = 1 + 1 / 2 ^ 52"

definition close :: "nat \<Rightarrow> rat \<Rightarrow> rat \<Rightarrow> bool" where
  "close n x y \<longleftrightarrow> 0 \<le> x \<and> 0 \<le> y \<and> x \<le> y * slack ^ n \<and> y \<le> x * slack ^ n"

lemma slack_ge: "1 \<le> slack ^ n" "0 < slack ^ n"
  by (simp_all add: slack_def one_le_power)

lemma close_round: "0 \<le> x \<Longrightarrow> close 1 (round53 x) x"
proof -
  assume x: "0 \<le> x"
  have e: "round53 x \<le> x + x / 2 ^ 53" "x - x / 2 ^ 53 \<le> round53 x"
    using round53_error [OF x] by (simp_all add: abs_if split: if_splits)
  have "x + x / 2 ^ 53 \<le> x * slack" using x by (simp add: slack_def distrib_left)
  moreover have "x \<le> (x - x / 2 ^ 53) * slack" using x by (simp add: slack_def algebra_simps)
  moreover have "(x - x / 2 ^ 53) * slack \<le> round53 x * slack"
    using e(2) by (rule mult_right_mono) (simp add: slack_def)
  ultimately show ?thesis
    using e(1) x round53_nonneg [OF x] by (simp add: close_def)
qed

lemma close_trans:
  assumes "close n x y" "close m y z"
  shows "close (n + m) x z"
proof -
  have "x \<le> y * slack ^ n" "y * slack ^ n \<le> (z * slack ^ m) * slack ^ n"
    "z \<le> y * slack ^ m" "y * slack ^ m \<le> (x * slack ^ n) * slack ^ m"
    using assms slack_ge(2) by (auto simp: close_def intro!: mult_right_mono order_less_imp_le)
  then show ?thesis
    using assms by (auto simp: close_def power_add ac_simps)
qed

lemma close_add:
  assumes "close n a b" "close n c d"
  shows "close n (a + c) (b + d)"
  using assms by (auto simp: close_def distrib_right)

lemma close_refl: "0 \<le> x \<Longrightarrow> close n x x"
  using slack_ge(1) [of n] by (simp add: close_def mult_left_mono [of 1 "slack ^ n" x, simplified])

lemma close_divide:
  assumes "close n a b" "close m c d" "0 < c" "0 < d"
  shows "close (n + m) (a / c) (b / d)"
proof -
  have "a * d \<le> (b * slack ^ n) * (c * slack ^ m)" "b * c \<le> (a * slack ^ n) * (d * slack ^ m)"
    using assms slack_ge(2)
    by (auto simp: close_def intro: mult_mono mult_nonneg_nonneg order_less_imp_le)
  then show ?thesis
    using assms by (simp add: close_def power_add field_simps)
qed

lemma close_zero: "close n x y \<Longrightarrow> x = 0 \<longleftrightarrow> y = 0"
  by (auto simp: close_def)

lemma slack_4: "slack ^ 4 \<le> 1 + 1 / 2 ^ 49"
  by (simp add: slack_def power_divide eval_nat_numeral)

lemma as_secs_close:
  assumes "d < 2 ^ 64 * 10 ^ 9"
  obtains r where "as_secs_f64 d = Finite r" "close 2 r (of_nat d / 10 ^ 9)"
proof -
  define a where "a = (of_nat (d div 10 ^ 9) :: rat)"
  define b where "b = (of_nat (d mod 10 ^ 9) :: rat)"
  have "d div 10 ^ 9 < 2 ^ 64" using assms by (simp add: less_mult_imp_div_less)
  then have a: "of_nat (unat (word_of_nat (d div 10 ^ 9) :: u64)) = a"
    by (simp only: unat_of_nat a_def) simp
  have lt: "d mod 10 ^ 9 < 10 ^ 9" by simp
  then have b: "of_nat (unat (word_of_nat (d mod 10 ^ 9) :: u64)) = b"
    by (simp only: unat_of_nat b_def) simp
  have exact: "round53 b = b"
    unfolding b_def using lt by (intro round53_nat) simp
  have r: "as_secs_f64 d = Finite (round53 (round53 a + round53 (b / 10 ^ 9)))"
    unfolding as_secs_f64_def f64_of_u64_def a b exact by simp
  have pos: "0 \<le> a" "0 \<le> b / 10 ^ 9" by (simp_all add: a_def b_def)
  have "close 1 (round53 a + round53 (b / 10 ^ 9)) (a + b / 10 ^ 9)"
    using pos by (intro close_add close_round)
  moreover have "close 1 (round53 (round53 a + round53 (b / 10 ^ 9))) (round53 a + round53 (b / 10 ^ 9))"
    using pos by (intro close_round add_nonneg_nonneg round53_nonneg)
  ultimately have "close (1 + 1) (round53 (round53 a + round53 (b / 10 ^ 9))) (a + b / 10 ^ 9)"
    using close_trans by blast
  moreover have "a + b / 10 ^ 9 = of_nat d / 10 ^ 9"
  proof -
    have "(of_nat d :: rat) = of_nat (10 ^ 9 * (d div 10 ^ 9) + d mod 10 ^ 9)" by simp
    also have "\<dots> = 10 ^ 9 * a + b" unfolding a_def b_def by (simp only: of_nat_add of_nat_mult) simp
    finally show ?thesis by (simp add: field_simps)
  qed
  ultimately show thesis using that [OF r] by (simp only: one_add_one)
qed

lemma rate_close:
  assumes "as_secs_f64 d = Finite s" "close 2 s (of_nat d / 10 ^ 9)" "0 < s"
  obtains r where "f64_div (f64_of_u64 t) (Finite s) = Finite r"
    "close 4 r (of_nat (unat t) * 10 ^ 9 / of_nat d)"
proof -
  define n where "n = (of_nat (unat t) :: rat)"
  have n: "0 \<le> n" unfolding n_def by (rule of_nat_0_le_iff)
  have d: "0 < (of_nat d / 10 ^ 9 :: rat)"
  proof -
    have "(of_nat d / 10 ^ 9 :: rat) \<noteq> 0" using assms(3) close_zero [OF assms(2)] by blast
    then show ?thesis by (metis close_def assms(2) order_less_le)
  qed
  have 1: "close (1 + 2) (round53 n / s) (n / (of_nat d / 10 ^ 9))"
    by (rule close_divide [OF close_round [OF n] assms(2,3) d])
  have "0 \<le> round53 n / s" using n assms(3) by (simp add: round53_nonneg)
  from close_trans [OF close_round [OF this] 1]
  have 2: "close 4 (round53 (round53 n / s)) (n * 10 ^ 9 / of_nat d)"
    by (simp add: numeral_eq_Suc)
  have "f64_div (f64_of_u64 t) (Finite s) = Finite (round53 (round53 n / s))"
    using assms(3) unfolding f64_of_u64_def n_def [symmetric] by simp
  then show thesis using 2 unfolding n_def by (rule that)
qed

lemma rates_defined:
  "total_bytes prof m = Some t \<Longrightarrow> \<exists>r. bytes_per_sec prof m now = Some (Finite r) \<and> 0 \<le> r"
  "total_frames prof m = Some t \<Longrightarrow> \<exists>r. frames_per_sec prof m now = Some (Finite r) \<and> 0 \<le> r"
proof -
  obtain s where s: "as_secs_f64 (metrics_elapsed m now) = Finite s" "0 \<le> s"
    by (rule as_secs_f64_finite)
  have div: "\<exists>r. f64_div (f64_of_u64 t) (Finite s) = Finite r \<and> 0 \<le> r" if "0 < s"
    using that by (simp add: f64_of_u64_def del: of_nat_unat) (intro round53_nonneg divide_nonneg_nonneg, auto simp del: of_nat_unat intro: round53_nonneg)
  show "total_bytes prof m = Some t \<Longrightarrow> \<exists>r. bytes_per_sec prof m now = Some (Finite r) \<and> 0 \<le> r"
    "total_frames prof m = Some t \<Longrightarrow> \<exists>r. frames_per_sec prof m now = Some (Finite r) \<and> 0 \<le> r"
    using s div by (auto simp: bytes_per_sec_def frames_per_sec_def Let_def)
qed

section \<open>Properties\<close>

lemma filter_outcomes_length: "length (filter_outcomes prof f ns) = length ns"
  by (induction ns arbitrary: f) (simp_all split: prod.split)

text \<open>
  After any run of fewer than \<open>2 ^ 53\<close> calls on a new filter the acceptance rate is a finite
  number between 0 and 1; it is 1 exactly when nothing was rejected, and after at least one
  call it is the share of accepted numbers up to the error of one rounding.
\<close>

theorem acceptance_rate_exact:
  assumes "length ns < 2 ^ 53"
  shows "\<exists>r. acceptance_rate (filter_after prof (with_window_size w) ns) = Finite r \<and> 0 \<le> r \<and> r \<le> 1 \<and>
    (r = 1 \<longleftrightarrow> total_rejected (filter_after prof (with_window_size w) ns) = 0) \<and>
    (let share = of_nat (unat (total_accepted (filter_after prof (with_window_size w) ns))) / of_nat (length ns)
     in ns = [] \<or> \<bar>r - share\<bar> \<le> share / 2 ^ 53)"
proof -
  let ?f = "filter_after prof (with_window_size w) ns"
  note c = filter_after_counters [OF window_ok_new counters_ok_new, of w ns prof]
  define a where "a = unat (total_accepted ?f)"
  define s where "s = unat (total_seen ?f)"
  define j where "j = unat (total_rejected ?f)"
  have sum: "s = length ns" "a + j = s"
  proof -
    have zero: "total_seen (with_window_size w) = 0" "total_accepted (with_window_size w) = 0"
        "total_rejected (with_window_size w) = 0"
      by (simp_all add: with_window_size_def)
    show "s = length ns" "a + j = s"
      using c assms sum_length_filter_compl [of "\<lambda>r. r = Inr ()" "filter_outcomes prof (with_window_size w) ns"]
      by (simp_all add: a_def s_def j_def zero filter_outcomes_length)
  qed
  show ?thesis
  proof (cases "s = 0")
    case True
    then have "total_seen ?f = 0" "total_rejected ?f = 0" "ns = []"
      using sum by (simp_all add: s_def j_def unat_eq_0)
    then show ?thesis by (simp add: acceptance_rate_def)
  next
    case False
    have small: "a < 2 ^ 53" "s < 2 ^ 53" using sum assms by simp_all
    have rate: "acceptance_rate ?f = Finite (round53 (of_nat a / of_nat s))"
      using False small
      by (simp add: acceptance_rate_def f64_of_u64_exact a_def s_def unat_eq_0 del: of_nat_unat)
    define q where "q = (of_nat a / of_nat s :: rat)"
    have q: "0 \<le> q" "q \<le> 1" using False sum(2) by (simp_all add: q_def)
    have one: "round53 1 = 1" using round53_nat [of 1] by simp
    have le1: "0 \<le> round53 q" "round53 q \<le> 1"
      using round53_mono [of q 1] q one by (simp_all add: round53_nonneg)
    have less: "round53 q < 1" if "j \<noteq> 0"
    proof -
      have "q \<le> (of_nat s - 1) / of_nat s"
        unfolding q_def using that sum(2) False by (intro divide_right_mono) simp_all
      also have "\<dots> = 1 - 1 / of_nat s" using False by (simp add: diff_divide_distrib)
      also have "\<dots> \<le> 1 - 1 / of_nat (2 ^ 53)"
        using False small(2) by (intro diff_left_mono divide_left_mono) (simp_all only: of_nat_le_iff, simp_all)
      finally have "round53 q \<le> round53 (1 - 1 / 2 ^ 53)"
        using q(1) by (intro round53_mono) simp_all
      then show ?thesis unfolding round53_below_one by simp
    qed
    have "q = 1" if "j = 0" using that sum(2) False by (simp add: q_def)
    then have "round53 q = 1 \<longleftrightarrow> j = 0" using less one by fastforce
    then have rej: "round53 q = 1 \<longleftrightarrow> total_rejected ?f = 0" by (simp add: j_def unat_eq_0)
    have share: "of_nat (unat (total_accepted ?f)) / of_nat (length ns) = q"
      unfolding q_def a_def sum(1) ..
    show ?thesis
      unfolding share Let_def
      using rate le1 rej round53_error [OF q(1)]
      by (intro exI [of _ "round53 q"]) (simp add: q_def)
  qed
qed

theorem acceptance_rate_exact_witness:
  "\<exists>r. acceptance_rate (filter_after Debug (with_window_size 64) [100, 100]) = Finite r \<and> 0 \<le> r \<and> r \<le> 1"
  using acceptance_rate_exact [of "[100, 100]" Debug 64] by force

text \<open>
  C39. The transfer rate of a session is never infinite or undefined: it panics if and only
  if the build checks overflow, the bytes of both directions add up to 2^64 or more and a
  measurable time has passed; otherwise it is a finite number that agrees with the bytes
  (modulo 2^64) per elapsed time up to a relative error of \<open>2 ^ -49\<close>, and is 0 when no time
  has passed.
\<close>

theorem transfer_rate_exact:
  assumes "metrics_elapsed m now < 2 ^ 64 * 10 ^ 9"
  shows "(bytes_per_sec prof m now = None \<longleftrightarrow>
      prof = Debug \<and> 2 ^ 64 \<le> unat (bytes_sent m) + unat (bytes_received m) \<and> 0 < metrics_elapsed m now) \<and>
    (case bytes_per_sec prof m now of
      None \<Rightarrow> True
    | Some v \<Rightarrow> \<exists>r. v = Finite r \<and>
        (let bytes = (unat (bytes_sent m) + unat (bytes_received m)) mod 2 ^ 64;
             exact = of_nat bytes * 10 ^ 9 / of_nat (metrics_elapsed m now)
         in 0 \<le> r \<and> r \<le> exact * (1 + 1 / 2 ^ 49) \<and> exact \<le> r * (1 + 1 / 2 ^ 49)))"
proof -
  let ?d = "metrics_elapsed m now" and ?sum = "unat (bytes_sent m) + unat (bytes_received m)"
  obtain s where s: "as_secs_f64 ?d = Finite s" "close 2 s (of_nat ?d / 10 ^ 9)"
    by (rule as_secs_close [OF assms])
  have total: "total_bytes prof m = None \<longleftrightarrow> prof = Debug \<and> 2 ^ 64 \<le> ?sum"
    by (auto simp: total_bytes_def u64_add_def)
  show ?thesis
  proof (cases "0 < s")
    case False
    then have "?d = 0" using close_zero [OF s(2)] s(2) by (auto simp: close_def)
    with False s(1) show ?thesis by (simp add: bytes_per_sec_def Let_def)
  next
    case True
    then have d: "0 < ?d" using close_zero [OF s(2)] by (auto intro: gr0I)
    show ?thesis
    proof (cases "total_bytes prof m")
      case None
      with True s(1) have "bytes_per_sec prof m now = None" by (simp add: bytes_per_sec_def)
      with None total d show ?thesis by simp
    next
      case (Some t)
      then have "t = bytes_sent m + bytes_received m"
        unfolding total_bytes_def by (rule u64_add_Some)
      then have t: "unat t = ?sum mod 2 ^ 64" by (simp add: unat_word_ariths)
      obtain r where r: "f64_div (f64_of_u64 t) (Finite s) = Finite r"
          "close 4 r (of_nat (unat t) * 10 ^ 9 / of_nat ?d)"
        by (rule rate_close [OF s True])
      have "x * slack ^ 4 \<le> x * (1 + 1 / 2 ^ 49)" if "0 \<le> x" for x
        using slack_4 that by (rule mult_left_mono)
      with r(2) have "0 \<le> r \<and> r \<le> of_nat (unat t) * 10 ^ 9 / of_nat ?d * (1 + 1 / 2 ^ 49) \<and>
          of_nat (unat t) * 10 ^ 9 / of_nat ?d \<le> r * (1 + 1 / 2 ^ 49)"
        unfolding close_def by (meson order_trans)
      moreover have "bytes_per_sec prof m now = Some (Finite r)"
        using True s(1) Some r(1) by (simp add: bytes_per_sec_def)
      ultimately show ?thesis using Some total unfolding t Let_def by auto
    qed
  qed
qed

theorem transfer_rate_exact_witness:
  "(\<exists>m. bytes_per_sec Debug m 2000000000 = None) \<and>
   bytes_per_sec Release (metrics_new 0) 2000000000 = Some (Finite 0)"
proof
  let ?m = "(metrics_new 0)\<lparr>bytes_sent := u64_max, bytes_received := 1\<rparr>"
  have el: "metrics_elapsed ?m 2000000000 < 2 ^ 64 * 10 ^ 9" "0 < metrics_elapsed ?m 2000000000"
    by (simp_all add: metrics_elapsed_def metrics_new_def)
  have "2 ^ 64 \<le> unat (bytes_sent ?m) + unat (bytes_received ?m)"
    by (simp add: unat_u64_max)
  with transfer_rate_exact [OF el(1), of Debug] el(2) show "\<exists>m. bytes_per_sec Debug m 2000000000 = None"
    by blast
  have "metrics_elapsed (metrics_new 0) 2000000000 < 2 ^ 64 * 10 ^ 9"
    by (simp add: metrics_elapsed_def metrics_new_def)
  from transfer_rate_exact [OF this, of Release]
  show "bytes_per_sec Release (metrics_new 0) 2000000000 = Some (Finite 0)"
    by (auto simp: metrics_new_def Let_def split: option.splits)
qed

end
