(* ===== verification/Benchmark.thy ===== *)
theory Benchmark
  imports Rates Wire Cipher
begin

text \<open>
  The benchmark suite (src/src/bench.rs): its six sections with the operations they repeat, the
  \<open>unwrap()\<close> calls, the counters and the figures they print. A figure is the \<open>f64\<close> that the
  program formats; the banner lines are left out. What \<open>start.elapsed()\<close> returns in
  section \<open>k\<close> is \<open>elapsed k\<close>, in nanoseconds.
\<close>

datatype bench_line =
    KeyExchange nat nat f64
  | KeyDerivation nat nat f64
  | AeadThroughput f64 nat f64 f64
  | ReplayOps nat f64
  | SerializeAlloc nat f64
  | SerializeReuse nat f64

definition print_figure :: "bench_line \<Rightarrow> (bench_line list, unit) act" where
  "print_figure l = modifyA (\<lambda>out. out @ [l])"

text \<open>\<open>(iterations as f64) / elapsed.as_secs_f64()\<close>.\<close>

definition ops_per_sec :: "nat \<Rightarrow> nat \<Rightarrow> f64" where
  "ops_per_sec iterations elapsed = f64_div (f64_of_u64 (word_of_nat iterations)) (as_secs_f64 elapsed)"

text \<open>The timed loops.\<close>

definition bench_key_exchange :: "primitives \<Rightarrow> nat \<Rightarrow> key_pair \<Rightarrow> key_pair \<Rightarrow> ('s, unit) act" where
  "bench_key_exchange P iterations alice bob =
     repeatA iterations
       (bindA (ret (diffie_hellman P (private_key alice) (public_key bob))) (\<lambda>_. ret ()))"

definition bench_key_derivation :: "primitives \<Rightarrow> nat \<Rightarrow> bytes \<Rightarrow> bytes \<Rightarrow> ('s, unit) act" where
  "bench_key_derivation P iterations secret hash =
     repeatA iterations
       (bindA (unwrapA (liftA (derive_session_keys P secret hash))) (\<lambda>_. ret ()))"

definition bench_aead ::
  "primitives \<Rightarrow> profile \<Rightarrow> nat \<Rightarrow> bytes \<Rightarrow> (cipher_state \<times> u64, unit) act" where
  "bench_aead P prof iterations payload =
     repeatA iterations
       (bindA (onA fst apfst (unwrapA (encrypt P payload (bytes_of ''aad-metadata'')))) (\<lambda>ct.
        add_assign prof snd apsnd (word_of_nat (length ct))))"

definition bench_replay :: "profile \<Rightarrow> nat \<Rightarrow> (replay_filter, unit) act" where
  "bench_replay prof iterations =
     for_range iterations 1 (\<lambda>i. discard (validate_and_record prof i))"

definition bench_serialize :: "nat \<Rightarrow> wire_frame \<Rightarrow> ('s, unit) act" where
  "bench_serialize iterations frame = repeatA iterations (bindA (ret (serialize frame)) (\<lambda>_. ret ()))"

definition bench_serialize_into :: "nat \<Rightarrow> wire_frame \<Rightarrow> (bytes, unit) act" where
  "bench_serialize_into iterations frame =
     repeatA iterations
       (bindA (modifyA (\<lambda>_. [])) (\<lambda>_. modifyA (serialize_into frame)))"

definition run_benchmark_suite ::
  "primitives \<Rightarrow> profile \<Rightarrow> bytes \<Rightarrow> bytes \<Rightarrow> (nat \<Rightarrow> nat) \<Rightarrow> (bench_line list, unit) act" where
  "run_benchmark_suite P prof alice_random bob_random elapsed =
     (let iterations = 10000;
          alice = keypair_generate P alice_random;
          bob = keypair_generate P bob_random
      in
      bindA (bench_key_exchange P iterations alice bob) (\<lambda>_.
      bindA (print_figure (KeyExchange iterations (elapsed 1) (ops_per_sec iterations (elapsed 1)))) (\<lambda>_.
      let secret = replicate KEY_LEN 0x42;
          hash = replicate 32 0x99
      in
      bindA (bench_key_derivation P iterations secret hash) (\<lambda>_.
      bindA (print_figure (KeyDerivation iterations (elapsed 2) (ops_per_sec iterations (elapsed 2)))) (\<lambda>_.
      let chunk_size = 16 * 1024;
          payload = replicate chunk_size 0xAB;
          aead_iterations = 20000;
          cipher = cipher_new (replicate KEY_LEN 0x77)
      in
      bindA (on_local (cipher, 0) (bindA (bench_aead P prof aead_iterations payload) (\<lambda>_. getsA snd))) (\<lambda>total_bytes.
      let mb_processed = f64_div (f64_of_u64 total_bytes) (f64_mul (Finite 1024) (Finite 1024));
          throughput = f64_div mb_processed (as_secs_f64 (elapsed 3))
      in
      bindA (print_figure (AeadThroughput mb_processed (elapsed 3) throughput
               (f64_mul throughput (Finite (round53 (8 / 1000)))))) (\<lambda>_.
      let filter_iterations = 100000 in
      bindA (on_local new_filter (bench_replay prof filter_iterations)) (\<lambda>_.
      bindA (print_figure (ReplayOps filter_iterations (ops_per_sec filter_iterations (elapsed 4)))) (\<lambda>_.
      let frame = new_frame DataPayload 1 payload;
          frame_iterations = 20000
      in
      bindA (bench_serialize frame_iterations frame) (\<lambda>_.
      bindA (print_figure (SerializeAlloc frame_iterations (ops_per_sec frame_iterations (elapsed 5)))) (\<lambda>_.
      bindA (on_local [] (bench_serialize_into frame_iterations frame)) (\<lambda>_.
      print_figure (SerializeReuse frame_iterations (ops_per_sec frame_iterations (elapsed 6)))))))))))))))"

section \<open>The loops do what they time\<close>

lemma repeatA_ret: "repeatA n (bindA (ret x) (\<lambda>_. ret ())) s = (s, Inr ())"
  by (induction n) (simp_all add: ret_def bindA_def)

lemma bench_key_derivation_run:
  assumes "hkdf_expands P"
  shows "bench_key_derivation P n secret hash s = (s, Inr ())"
proof -
  obtain k where "derive_session_keys P secret hash = Inr k"
    using derive_total [OF assms] by metis
  then show ?thesis
    by (induction n) (simp_all add: bench_key_derivation_def act_simps bindA_def unwrapA_def liftA_def ret_def)
qed

lemma bench_aead_run:
  assumes "aead_correct P" "aead_seals P" "length payload < 2 ^ 20" "n < 2 ^ 20"
  shows "bench_aead P prof n payload (cipher_new key, 0) =
    ((cipher_with_nonce key (word_of_nat n), word_of_nat (n * (length payload + 16))), Inr ())"
proof -
  let ?I = "\<lambda>i s. s = (cipher_with_nonce key (word_of_nat i), word_of_nat (i * (length payload + 16)) :: u64)"
  have short: "length payload < aead_limit" using assms(3) by (simp add: aead_limit_def)
  have "\<exists>s'. bench_aead P prof n payload (cipher_new key, 0) = (s', Inr ()) \<and> ?I (0 + n) s'"
    unfolding bench_aead_def
  proof (rule repeatA_invariant)
    fix i and s :: "cipher_state \<times> u64"
    assume s: "?I i s" and i: "i < 0 + n"
    let ?c = "cipher_with_nonce key (word_of_nat i)"
    have room: "unat (cs_nonce ?c) + 1 < 2 ^ 64"
      using i assms(4) by (simp add: cipher_with_nonce_def unat_of_nat)
    obtain ct where ct: "encrypt P payload (bytes_of ''aad-metadata'') ?c = (?c\<lparr>cs_nonce := cs_nonce ?c + 1\<rparr>, Inr ct)"
        "length ct = length payload + 16"
      by (rule encrypt_ok [OF assms(1,2) short room, of "bytes_of ''aad-metadata''"])
    have "i * (length payload + 16) + (length payload + 16) \<le> 2 ^ 20 * (2 ^ 20 + 16)"
      using i assms(3,4) mult_le_mono [of "Suc i" "2 ^ 20" "length payload + 16" "2 ^ 20 + 16"] by simp
    then have fits: "unat (word_of_nat (i * (length payload + 16)) :: u64) + unat (word_of_nat (length ct) :: u64) < 2 ^ 64"
      using ct(2) by (simp only: unat_of_nat) simp
    show "\<exists>s'. bindA (onA fst apfst (unwrapA (encrypt P payload (bytes_of ''aad-metadata'')))) (\<lambda>ct.
        add_assign prof snd apsnd (word_of_nat (length ct))) s = (s', Inr ()) \<and> ?I (Suc i) s'"
      using s ct fits
      by (simp add: bindA_def onA_def unwrapA_def add_assign_eq u64_add_no_overflow)
        (simp add: cipher_with_nonce_def algebra_simps)
  qed (simp add: cipher_new_def cipher_with_nonce_def)
  then show ?thesis by auto
qed

lemma bench_replay_run:
  assumes "n < 2 ^ 20"
  shows "\<exists>f. bench_replay prof n new_filter = (f, Inr ()) \<and>
    unat (total_seen f) = n \<and> unat (total_accepted f) = n \<and> unat (total_rejected f) = 0"
proof -
  let ?I = "\<lambda>i f. window_ok f \<and> 0 < i \<and> unat (total_seen f) = i - 1 \<and> unat (total_accepted f) = i - 1 \<and>
    unat (total_rejected f) = 0 \<and> (initialized f \<longrightarrow> unat (last_seq f) = i - 1)"
  have "\<exists>f. for_range n (word_of_nat 1) (\<lambda>i. discard (validate_and_record prof i)) new_filter = (f, Inr ()) \<and>
      ?I (1 + n) f"
  proof (rule for_range_invariant)
    fix i f
    assume f: "?I i f" and i: "1 \<le> i" "i < 1 + n"
    have ok: "counters_ok f" "unat (total_seen f) + 1 < 2 ^ 64" "unat (total_accepted f) + 1 < 2 ^ 64"
      using f i assms by (simp_all add: counters_ok_def)
    have num: "unat (word_of_nat i :: u64) = i" using i assms by (simp add: unat_of_nat)
    then have v: "verdict f (word_of_nat i) = None"
      using f i by (auto simp: verdict_def word_less_nat_alt)
    have "discard (validate_and_record prof (word_of_nat i)) f = (after_call f (word_of_nat i), Inr ())"
      using validate_no_overflow [OF _ ok(1,2), of prof "word_of_nat i"] f v by (simp add: discard_def)
    moreover have "last_seq (after_call f (word_of_nat i)) = word_of_nat i"
      using f i num v by (auto simp: after_call_accept slide_def word_less_nat_alt)
    moreover have "unat (total_accepted (after_call f (word_of_nat i))) = i"
        "unat (total_rejected (after_call f (word_of_nat i))) = 0"
      using f i ok v by (simp_all add: after_call_accept unat_suc_u64)
    moreover have "unat (total_seen (after_call f (word_of_nat i))) = i" "window_ok (after_call f (word_of_nat i))"
      using f i after_call_counters [OF ok(1,2)] by simp_all
    ultimately show "\<exists>f'. discard (validate_and_record prof (word_of_nat i)) f = (f', Inr ()) \<and> ?I (Suc i) f'"
      using num by simp
  qed (simp add: new_filter_def, simp add: with_window_size_def)
  then show ?thesis by (auto simp: bench_replay_def)
qed

lemma bench_serialize_into_run:
  "bench_serialize_into (Suc n) frame buf = (serialize frame, Inr ())"
  by (induction n arbitrary: buf)
    (simp_all add: bench_serialize_into_def serialize_def bindA_def modifyA_def ret_def)

section \<open>Properties\<close>

text \<open>
  C26. The benchmark suite runs to its end: no \<open>unwrap()\<close> fails and no counter overflows in
  either build, whatever times the clock measures, and it prints exactly these figures; the
  sealed volume is 20000 ciphertexts of 16400 bytes. Two of the timed loops do what they
  claim to time: the filter accepts every one of the numbers it is offered, and the reused
  buffer ends with the bytes of the allocating serialiser.
\<close>

theorem benchmark_completes:
  assumes "hkdf_expands P" "aead_correct P" "aead_seals P"
  shows "run_benchmark_suite P prof alice_random bob_random elapsed out =
     (let mb = Finite (round53 (20000 * 16400 / 1048576));
          throughput = f64_div mb (as_secs_f64 (elapsed 3))
      in out @
       [KeyExchange 10000 (elapsed 1) (ops_per_sec 10000 (elapsed 1)),
        KeyDerivation 10000 (elapsed 2) (ops_per_sec 10000 (elapsed 2)),
        AeadThroughput mb (elapsed 3) throughput (f64_mul throughput (Finite (round53 (8 / 1000)))),
        ReplayOps 100000 (ops_per_sec 100000 (elapsed 4)),
        SerializeAlloc 20000 (ops_per_sec 20000 (elapsed 5)),
        SerializeReuse 20000 (ops_per_sec 20000 (elapsed 6))], Inr ()) \<and>
    (\<exists>f. bench_replay prof 100000 new_filter = (f, Inr ()) \<and>
         unat (total_accepted f) = 100000 \<and> unat (total_rejected f) = 0) \<and>
    bench_serialize_into 20000 frame buf = (serialize frame, Inr ())"
proof (intro conjI)
  have aead: "bench_aead P prof 20000 (replicate (16 * 1024) 0xAB) (cipher_new (replicate KEY_LEN 0x77), 0) =
     ((cipher_with_nonce (replicate KEY_LEN 0x77) (word_of_nat 20000),
       word_of_nat (20000 * (length (replicate (16 * 1024) (0xAB :: u8)) + 16))), Inr ())"
    using assms(2,3) by (rule bench_aead_run) (simp_all only: length_replicate, simp_all)
  obtain f where f: "bench_replay prof 100000 new_filter = (f, Inr ())"
      "unat (total_accepted f) = 100000" "unat (total_rejected f) = 0"
    using bench_replay_run [of 100000 prof] by auto
  then show "\<exists>f. bench_replay prof 100000 new_filter = (f, Inr ()) \<and>
         unat (total_accepted f) = 100000 \<and> unat (total_rejected f) = 0" by blast
  have into: "bench_serialize_into 20000 frame buf = (serialize frame, Inr ())" for frame buf
    using bench_serialize_into_run [of 19999 frame buf] by simp
  then show "bench_serialize_into 20000 frame buf = (serialize frame, Inr ())" .
  have mb: "f64_div (f64_of_u64 328000000) (f64_mul (Finite 1024) (Finite 1024)) =
      Finite (round53 (640625 / 2048))"
  proof -
    have "f64_of_u64 328000000 = Finite 328000000"
      using f64_of_u64_exact [of 328000000] by simp
    moreover have "round53 1048576 = 1048576" using round53_nat [of 1048576] by simp
    ultimately show ?thesis by simp
  qed
  show "run_benchmark_suite P prof alice_random bob_random elapsed out =
     (let mb = Finite (round53 (20000 * 16400 / 1048576));
          throughput = f64_div mb (as_secs_f64 (elapsed 3))
      in out @
       [KeyExchange 10000 (elapsed 1) (ops_per_sec 10000 (elapsed 1)),
        KeyDerivation 10000 (elapsed 2) (ops_per_sec 10000 (elapsed 2)),
        AeadThroughput mb (elapsed 3) throughput (f64_mul throughput (Finite (round53 (8 / 1000)))),
        ReplayOps 100000 (ops_per_sec 100000 (elapsed 4)),
        SerializeAlloc 20000 (ops_per_sec 20000 (elapsed 5)),
        SerializeReuse 20000 (ops_per_sec 20000 (elapsed 6))], Inr ())"
    unfolding run_benchmark_suite_def Let_def bindA_case on_local_apply aead f(1) into
      bench_key_exchange_def repeatA_ret bench_key_derivation_run [OF assms(1)] bench_serialize_def
    by (simp add: print_figure_def modifyA_def getsA_def mb del: f64_div.simps f64_mul.simps)
qed

theorem benchmark_completes_witness:
  "\<exists>lines. run_benchmark_suite toy Debug (replicate 32 1) (replicate 32 2) (\<lambda>_. 0) [] = (lines, Inr ()) \<and>
     length lines = 6"
  using benchmark_completes [OF toy_hkdf toy_aead(1,2), of Debug "replicate 32 1" "replicate 32 2" "\<lambda>_. 0" "[]"]
  by (simp add: Let_def)

end
