(* ===== verification/Cli.thy ===== *)
theory Cli
  imports Server Verify Benchmark
begin

text \<open>
  The command line program (src/src/main.rs 13-180): the commands with their parsed
  arguments, how they configure server and client, and the dispatch. Parsing the arguments
  is left to the \<open>clap\<close> crate; random bytes, network, input and measured times are in
  \<open>environment\<close>.
\<close>

datatype commands =
    Keygen
  | ServerCmd bytes "bytes option" "bytes option" "u64 option"
  | ClientCmd bytes bytes bytes bool "bytes option" "nat option"
  | VerifyCmd
  | BenchCmd

text \<open>What a command has done when \<open>main\<close> returns, or the server it goes on to run.\<close>

datatype outcome =
    KeysPrinted bytes bytes
  | ServerRuns tunnel_server
  | ReplyPrinted bytes
  | SessionEnded "printed list"
  | ChecksPassed
  | BenchmarksRun "bench_line list"

record environment =
  en_random :: bytes
  en_client_random :: bytes
  en_connect :: "net option"
  en_timer_fires :: bool
  en_lines :: "bytes option list"
  en_port_free :: bool
  en_local_addr :: bytes
  en_elapsed :: "nat \<Rightarrow> nat"

definition server_command ::
  "primitives \<Rightarrow> bytes \<Rightarrow> bytes \<Rightarrow> bytes option \<Rightarrow> bytes option \<Rightarrow> u64 option \<Rightarrow> tunnel_server result" where
  "server_command P os_random bind private_hex prologue max_connections =
     (case (case private_hex of
              Some hex_str \<Rightarrow> from_private_hex P hex_str
            | None \<Rightarrow> Inr (keypair_generate P os_random)) of
        Inl e \<Rightarrow> Inl e
      | Inr keypair \<Rightarrow>
          let server = server_new keypair bind;
              server = (case prologue of Some p \<Rightarrow> server_with_prologue_str p server | None \<Rightarrow> server);
              server = (case max_connections of Some m \<Rightarrow> server_with_max_connections m server | None \<Rightarrow> server)
          in Inr server)"

definition client_command ::
  "primitives \<Rightarrow> bytes \<Rightarrow> bytes \<Rightarrow> bytes option \<Rightarrow> nat option \<Rightarrow> tunnel_client result" where
  "client_command P connect server_pubkey prologue timeout =
     (case parse_public_key_hex P server_pubkey of
        Inl e \<Rightarrow> Inl e
      | Inr key \<Rightarrow>
          let client = client_new key connect;
              client = (case prologue of Some p \<Rightarrow> client_with_prologue_str p client | None \<Rightarrow> client);
              client = (case timeout of Some secs \<Rightarrow> client_with_timeout (secs * 1000000000) client | None \<Rightarrow> client)
          in Inr client)"

text \<open>Beside the outcome, the connection as a client operation leaves it.\<close>

definition run_command ::
  "primitives \<Rightarrow> profile \<Rightarrow> environment \<Rightarrow> commands \<Rightarrow> net option \<times> outcome result" where
  "run_command P prof env cmd =
     (case cmd of
        Keygen \<Rightarrow>
          (let keypair = keypair_generate P (en_random env)
           in (None, Inr (KeysPrinted (private_key_hex P keypair) (public_key_hex P keypair))))
      | ServerCmd bind private_hex prologue max_connections \<Rightarrow>
          (None, (case server_command P (en_random env) bind private_hex prologue max_connections of
             Inl e \<Rightarrow> Inl e
           | Inr server \<Rightarrow> if en_port_free env then Inr (ServerRuns server) else Inl (Err Io)))
      | ClientCmd connect server_pubkey message interactive prologue timeout \<Rightarrow>
          (case client_command P connect server_pubkey prologue timeout of
             Inl e \<Rightarrow> (None, Inl e)
           | Inr client \<Rightarrow>
               if interactive then
                 (case start_interactive_session P prof client (en_connect env) (en_client_random env)
                         (en_lines env) of
                    (stream, shown, Inl e) \<Rightarrow> (stream, Inl e)
                  | (stream, shown, Inr _) \<Rightarrow> (stream, Inr (SessionEnded shown)))
               else
                 (case send_secure_message P prof client (en_connect env) (en_client_random env)
                         (en_timer_fires env) message of
                    (stream, Inl e) \<Rightarrow> (stream, Inl e)
                  | (stream, Inr response) \<Rightarrow> (stream, Inr (ReplyPrinted response))))
      | VerifyCmd \<Rightarrow>
          (case run_security_verification P prof (en_port_free env) (en_local_addr env)
                  (en_random env) (en_connect env) (en_client_random env) of
             (stream, Inl e) \<Rightarrow> (stream, Inl e)
           | (stream, Inr _) \<Rightarrow> (stream, Inr ChecksPassed))
      | BenchCmd \<Rightarrow>
          (case run_benchmark_suite P prof (en_random env) (en_client_random env) (en_elapsed env) [] of
             (figures, Inl e) \<Rightarrow> (None, Inl e)
           | (figures, Inr _) \<Rightarrow> (None, Inr (BenchmarksRun figures))))"

section \<open>Properties\<close>

text \<open>
  C25. The commands fit together: take the two keys that \<open>keygen\<close> prints, start a server with
  the private one and a client with the public one, any common prologue option, and send a
  UTF-8 message of at most 65496 bytes; then both commands accept their arguments and there
  is a joint run, in which each side reads exactly what the other has written, the server's
  session ends without an error and the client prints the echo.
\<close>

theorem printed_keys_interoperate:
  assumes P: "session_primitives P" "hex_inverts P"
    and lens: "length (en_random env) = 32" "length (en_client_random env) = 32"
      "length server_random = 32" "\<not> en_timer_fires env"
    and m: "utf8_valid m" "length m \<le> 65496"
  shows "\<exists>priv pub server c s.
    run_command P prof env Keygen = (None, Inr (KeysPrinted priv pub)) \<and>
    server_command P any_random bind (Some priv) prologue max_connections = Inr server \<and>
    handle_client_with_prologue P prof' (ts_keypair server) (ts_prologue server) server_random (connection (outbox c)) =
      (s, Inr ()) \<and>
    run_command P prof (env\<lparr>en_connect := Some (connection (outbox s))\<rparr>)
      (ClientCmd bind pub m False prologue timeout) = (Some c, Inr (ReplyPrinted (REPLY_PREFIX @ m)))"
proof -
  define keys where "keys = keypair_generate P (en_random env)"
  have keys: "keys = from_private_bytes P (en_random env)"
    by (simp add: keys_def keypair_generate_def from_private_bytes_def)
  have trims: "trim (p_hex_encode P bs) = p_hex_encode P bs" for bs
    using P(2) by (rule trim_hex)
  have read: "from_private_hex P (private_key_hex P keys) = Inr keys"
      "parse_public_key_hex P (public_key_hex P keys) = Inr (public_key keys)"
    using P lens(1) trims session_primitivesD(2) [OF P(1)]
    by (simp_all add: from_private_hex_def private_key_hex_def parse_public_key_hex_def
        public_key_hex_def keys from_private_bytes_def KEY_LEN_def hex_inverts_def dh_lengths_def)
  obtain server where server: "server_command P any_random bind (Some (private_key_hex P keys)) prologue max_connections = Inr server"
      "ts_keypair server = keys" "ts_prologue server = (case prologue of Some p \<Rightarrow> p | None \<Rightarrow> PROTOCOL_NAME)"
    using read(1)
    by (auto simp: server_command_def Let_def server_new_def server_with_prologue_str_def
        server_with_prologue_def server_with_max_connections_def split: option.split)
  obtain client where client: "client_command P bind (public_key_hex P keys) prologue timeout = Inr client"
      "tc_server_pubkey client = public_key keys" "tc_prologue client = ts_prologue server"
    using read(2) server(3)
    by (auto simp: client_command_def Let_def client_new_def client_with_prologue_str_def
        client_with_prologue_def client_with_timeout_def split: option.split)
  obtain c s where run:
    "secure_exchange P prof client (en_client_random env) m (connection (outbox s)) = (c, Inr (REPLY_PREFIX @ m))"
    "handle_client_with_prologue P prof' keys (tc_prologue client) server_random (connection (outbox c)) = (s, Inr ())"
    using echo_joint [OF P(1) lens(2,3) keys lens(1) client(2) m, of prof prof'] by auto
  have "run_command P prof env Keygen = (None, Inr (KeysPrinted (private_key_hex P keys) (public_key_hex P keys)))"
    by (simp add: run_command_def Let_def keys_def)
  moreover have "run_command P prof (env\<lparr>en_connect := Some (connection (outbox s))\<rparr>)
      (ClientCmd bind (public_key_hex P keys) m False prologue timeout) = (Some c, Inr (ReplyPrinted (REPLY_PREFIX @ m)))"
    using client(1) send_secure_message_ok [OF run(1)] lens(4) by (simp add: run_command_def)
  ultimately show ?thesis
    using server run(2) client(3) by auto
qed

theorem printed_keys_interoperate_witness:
  "\<exists>priv pub c (s :: net).
    run_command toy Debug \<lparr>en_random = replicate 32 5, en_client_random = replicate 32 1, en_connect = None,
      en_timer_fires = False, en_lines = [], en_port_free = True, en_local_addr = [], en_elapsed = (\<lambda>_. 0)\<rparr> Keygen =
      (None, Inr (KeysPrinted priv pub)) \<and>
    run_command toy Debug \<lparr>en_random = replicate 32 5, en_client_random = replicate 32 1,
      en_connect = Some (connection (outbox s)), en_timer_fires = False, en_lines = [], en_port_free = True,
      en_local_addr = [], en_elapsed = (\<lambda>_. 0)\<rparr> (ClientCmd [] pub [0x68] False (Some [1, 2]) (Some 5)) =
      (Some c, Inr (ReplyPrinted (REPLY_PREFIX @ [0x68])))"
proof -
  define env where "env = \<lparr>en_random = replicate 32 5, en_client_random = replicate 32 1, en_connect = None,
      en_timer_fires = False, en_lines = [], en_port_free = True, en_local_addr = [], en_elapsed = (\<lambda>_. 0)\<rparr>"
  have env: "length (en_random env) = 32" "length (en_client_random env) = 32" "\<not> en_timer_fires env"
      "length (replicate 32 (2 :: u8)) = 32"
    by (simp_all add: env_def)
  have m: "utf8_valid [0x68]" "length [0x68 :: u8] \<le> 65496"
    by (rule utf8_valid_ascii) simp_all
  show ?thesis
    using printed_keys_interoperate [OF toy_session toy_hex env(1,2,4,3) m, of Debug "[]" "[]" "Some [1, 2]" None Debug "Some 5"]
    unfolding env_def environment.simps by blast
qed

text \<open>
  The interactive session ignores the configured timeout: with every timeout and with
  none it does the same, whereas sending a single message fails when the timer fires.
\<close>

theorem interactive_ignores_timeout:
  "start_interactive_session P prof (client_set_timeout t client) connect rnd lines =
     start_interactive_session P prof client connect rnd lines \<and>
   send_secure_message P prof (client_with_timeout d client) connect rnd True m = (None, Inl (Err TimedOut))"
proof
  have line: "interactive_line P prof (client_set_timeout t client) l = interactive_line P prof client l" for P prof client l
    by (simp add: interactive_line_def client_set_timeout_def Let_def)
  have sel: "tc_prologue (client_set_timeout t client) = tc_prologue client"
      "tc_server_pubkey (client_set_timeout t client) = tc_server_pubkey client"
    by (simp_all add: client_set_timeout_def)
  have loop: "interactive_loop P prof (client_set_timeout t client) ls r = interactive_loop P prof client ls r" for ls r
    by (induction P prof client ls r rule: interactive_loop.induct)
      (auto simp: line split: prod.split sum.split flow.split)
  show "start_interactive_session P prof (client_set_timeout t client) connect rnd lines =
     start_interactive_session P prof client connect rnd lines"
    unfolding start_interactive_session_def interactive_session_def sel loop ..
  show "send_secure_message P prof (client_with_timeout d client) connect rnd True m = (None, Inl (Err TimedOut))"
    by (simp add: send_secure_message_def client_with_timeout_def)
qed

end
