(* ===== verification/Isolation.thy ===== *)
theory Isolation
  imports End_To_End
begin

text \<open>
  Isolation of domains: a client and a server that do not agree on the prologue, or on the
  server's key, hash different transcripts, and the server refuses the client's first frame
  before it sends anything. What this rests on, beside the mismatch itself, is stated of the
  two transcripts and the one ciphertext in question: SHA-256 does not collide on the two,
  and the cipher does what it documents, it authenticates the associated data.
\<close>

definition sha256_separates :: "primitives \<Rightarrow> bytes \<Rightarrow> bytes \<Rightarrow> bool" where
  "sha256_separates P t t' \<longleftrightarrow> (p_sha256 P t = p_sha256 P t' \<longrightarrow> t = t')"

text \<open>The sealing of \<open>m\<close> with the associated data \<open>a\<close> does not open with different associated data.\<close>

definition aead_binds_ad :: "primitives \<Rightarrow> bytes \<Rightarrow> bytes \<Rightarrow> bytes \<Rightarrow> bytes \<Rightarrow> bytes \<Rightarrow> bytes \<Rightarrow> bool" where
  "aead_binds_ad P n m k a k' a' \<longleftrightarrow>
     (a \<noteq> a' \<longrightarrow> (\<forall>c. p_seal P k n a m = Some c \<longrightarrow> p_open P k' n a' c = None))"

text \<open>
  Both for the first message of a handshake: the client's transcript and key on one side,
  the server's on the other.
\<close>

definition first_message_bound ::
  "primitives \<Rightarrow> bytes \<Rightarrow> bytes \<Rightarrow> bytes \<Rightarrow> bytes \<Rightarrow> key_pair \<Rightarrow> bool" where
  "first_message_bound P prologue pubkey client_random prologue' keys \<longleftrightarrow>
     (let ce = p_x25519_base P client_random;
          t = transcript_bytes prologue ce pubkey None;
          t' = transcript_bytes prologue' ce (public_key keys) None
      in sha256_separates P t t' \<and>
         (\<forall>k k2 k' k2'.
           derive_session_keys P (p_x25519 P client_random pubkey) (p_sha256 P t) = Inr (k, k2) \<longrightarrow>
           derive_session_keys P (p_x25519 P (private_key keys) ce) (p_sha256 P t') = Inr (k', k2') \<longrightarrow>
           aead_binds_ad P (build_nonce 0) INIT_TEXT k (p_sha256 P t) k' (p_sha256 P t')))"

text \<open>Client and server are configured for different domains.\<close>

definition mismatched :: "bytes \<Rightarrow> bytes \<Rightarrow> bytes \<Rightarrow> key_pair \<Rightarrow> bool" where
  "mismatched prologue pubkey prologue' keys \<longleftrightarrow>
     length pubkey = 32 \<and> length (public_key keys) = 32 \<and>
     (prologue \<noteq> prologue' \<or> pubkey \<noteq> public_key keys)"

lemma mismatched_transcripts:
  assumes "mismatched prologue pubkey prologue' keys" "length ce = 32"
  shows "transcript_bytes prologue ce pubkey None \<noteq> transcript_bytes prologue' ce (public_key keys) None"
proof
  assume "transcript_bytes prologue ce pubkey None = transcript_bytes prologue' ce (public_key keys) None"
  then have "prologue @ ce = prologue' @ ce \<and> pubkey = public_key keys"
    using assms(1) append_eq_append_conv [of pubkey "public_key keys" "prologue @ ce" "prologue' @ ce"]
    by (simp add: transcript_bytes_def mismatched_def)
  then show False using assms(1) by (simp add: mismatched_def)
qed

text \<open>What the client sends first, and that nothing follows when the stream ends there.\<close>

lemma client_alone:
  assumes P: "session_primitives P"
  obtains init k k2 ict where
    "perform_handshake P prof prologue pubkey client_random (connection []) =
       ((connection [])\<lparr>outbox := serialize init\<rparr>, Inl (Err Io))"
    "init = new_frame HandshakeInit 0 (p_x25519_base P client_random @ ict)" "valid_frame init"
    "derive_session_keys P (p_x25519 P client_random pubkey)
       (hash_handshake_state P prologue (p_x25519_base P client_random) pubkey None) = Inr (k, k2)"
    "p_seal P k (build_nonce 0) (hash_handshake_state P prologue (p_x25519_base P client_random) pubkey None)
       INIT_TEXT = Some ict" "length ict = 37"
proof -
  define ce h where "ce = p_x25519_base P client_random" and "h = hash_handshake_state P prologue ce pubkey None"
  obtain k k2 where k: "derive_session_keys P (p_x25519 P client_random pubkey) h = Inr (k, k2)"
    by (rule derive_total [OF session_primitivesD(3) [OF P]])
  have zero: "unat (cs_nonce (cipher_new k)) + 1 < 2 ^ 64" by (simp add: cipher_new_def)
  have short: "length INIT_TEXT < aead_limit" by (simp add: length_texts aead_limit_def)
  obtain ict where ict: "encrypt P INIT_TEXT h (cipher_new k) = ((cipher_new k)\<lparr>cs_nonce := cs_nonce (cipher_new k) + 1\<rparr>, Inr ict)"
      "p_seal P (cs_key (cipher_new k)) (build_nonce (cs_nonce (cipher_new k))) h INIT_TEXT = Some ict"
      "length ict = length INIT_TEXT + 16"
    by (rule encrypt_ok [OF session_primitivesD(4,5) [OF P] short zero, of h]) (rule that; assumption)
  have eof: "read_from s = (s\<lparr>inbox := []\<rparr>, Inl (Err Io))" if "inbox s = []" for s
    using that by (simp add: read_from_def bindA_case read_exact_def)
  show thesis
  proof (rule that [of "new_frame HandshakeInit 0 (ce @ ict)" ict k k2])
    show "perform_handshake P prof prologue pubkey client_random (connection []) =
       ((connection [])\<lparr>outbox := serialize (new_frame HandshakeInit 0 (ce @ ict))\<rparr>, Inl (Err Io))"
      using ict(1) k
      by (simp add: perform_handshake_def ephemeral_generate_def ephemeral_diffie_hellman_def
          diffie_hellman_def ce_def [symmetric] h_def [symmetric] Let_def bindA_case liftA_def
          on_local_apply write_to_clean eof)
    show "valid_frame (new_frame HandshakeInit 0 (ce @ ict))"
      using ict(3) length_base [OF P, of client_random]
      by (simp add: valid_frame_le new_frame_def ce_def length_texts)
  qed (use ict k in \<open>simp_all add: ce_def h_def length_texts cipher_new_def\<close>)
qed

lemma first_frame_refused:
  assumes P: "session_primitives P" and differ: "mismatched prologue pubkey prologue' keys"
    and bound: "first_message_bound P prologue pubkey client_random prologue' keys"
  obtains init where
    "perform_handshake P prof prologue pubkey client_random (connection []) =
       ((connection [])\<lparr>outbox := serialize init\<rparr>, Inl (Err Io))"
    "\<And>rest. handle_client_with_prologue P prof' keys prologue' server_random (connection (serialize init @ rest)) =
       ((connection (serialize init @ rest))\<lparr>inbox := rest\<rparr>, Inl (Err AeadDecrypt))"
proof -
  define ce where "ce = p_x25519_base P client_random"
  define h h' where "h = hash_handshake_state P prologue ce pubkey None"
    and "h' = hash_handshake_state P prologue' ce (public_key keys) None"
  obtain init k k2 ict where c:
    "perform_handshake P prof prologue pubkey client_random (connection []) =
       ((connection [])\<lparr>outbox := serialize init\<rparr>, Inl (Err Io))"
    "init = new_frame HandshakeInit 0 (ce @ ict)" "valid_frame init"
    "derive_session_keys P (p_x25519 P client_random pubkey) h = Inr (k, k2)"
    "p_seal P k (build_nonce 0) h INIT_TEXT = Some ict"
    "length ict = 37"
    unfolding ce_def h_def by (rule client_alone [OF P])
  obtain k' k2' where k': "derive_session_keys P (p_x25519 P (private_key keys) ce) h' = Inr (k', k2')"
    by (rule derive_total [OF session_primitivesD(3) [OF P]])
  have len: "length ce = 32" by (simp add: ce_def length_base [OF P])
  then have lce: "length ce = KEY_LEN" by (simp add: KEY_LEN_def)
  have payload: "take KEY_LEN (wf_payload init) = ce" "drop KEY_LEN (wf_payload init) = ict"
      "wf_msg_type init = HandshakeInit" "\<not> length (wf_payload init) < KEY_LEN + 16"
    using c(6) lce by (simp_all add: c(2) new_frame_def)
  note bound = bound [unfolded first_message_bound_def Let_def ce_def [symmetric] hash_transcript [symmetric]
      h_def [symmetric] h'_def [symmetric]]
  have "h \<noteq> h'"
    using bound mismatched_transcripts [OF differ len] by (auto simp: sha256_separates_def h_def h'_def hash_transcript)
  then have "p_open P k' (build_nonce 0) h' ict = None"
    using bound c(4,5) k' unfolding aead_binds_ad_def by blast
  then have "snd (decrypt P prof' ict h' 0 (cipher_new k')) = Inl (Err AeadDecrypt)"
    by (simp add: decrypt_def cipher_new_def)
  moreover have "read_from (connection (serialize init @ rest)) =
      ((connection (serialize init @ rest))\<lparr>inbox := rest\<rparr>, Inr init)" for rest
    using read_from_serialize [OF c(3), of "connection (serialize init @ rest)" rest] by simp
  ultimately have "handle_client_with_prologue P prof' keys prologue' server_random (connection (serialize init @ rest)) =
      ((connection (serialize init @ rest))\<lparr>inbox := rest\<rparr>, Inl (Err AeadDecrypt))" for rest
    using payload k' lce
    by (simp add: handle_client_with_prologue_def server_handshake_def bindA_case liftA_def on_local_apply
        diffie_hellman_def Let_def h'_def [symmetric])
  from that [OF c(1) this] show thesis .
qed

lemma server_refuses:
  assumes "session_primitives P" "mismatched prologue pubkey prologue' keys"
    and "first_message_bound P prologue pubkey client_random prologue' keys"
  obtains init s where
    "perform_handshake P prof prologue pubkey client_random (connection []) =
       ((connection [])\<lparr>outbox := serialize init\<rparr>, Inl (Err Io))"
    "handle_client_with_prologue P prof' keys prologue' server_random (connection (serialize init)) =
       (s, Inl (Err AeadDecrypt))" "outbox s = []"
proof -
  obtain init where run:
    "perform_handshake P prof prologue pubkey client_random (connection []) =
       ((connection [])\<lparr>outbox := serialize init\<rparr>, Inl (Err Io))"
    "\<And>rest. handle_client_with_prologue P prof' keys prologue' server_random (connection (serialize init @ rest)) =
       ((connection (serialize init @ rest))\<lparr>inbox := rest\<rparr>, Inl (Err AeadDecrypt))"
    by (rule first_frame_refused [OF assms]) (rule that; assumption)
  have "handle_client_with_prologue P prof' keys prologue' server_random (connection (serialize init)) =
      ((connection (serialize init))\<lparr>inbox := []\<rparr>, Inl (Err AeadDecrypt))"
    using run(2) [of "[]"] by simp
  from that [OF run(1) this] show thesis by simp
qed

section \<open>Properties\<close>

text \<open>
  Domains are isolated: if client and server are configured with different prologues or
  server keys, then the joint run of the two ends with the server refusing the client's
  first frame, nothing sent back, and an error at the client; no byte of the message has
  left the client.
\<close>

theorem domains_are_isolated:
  assumes "session_primitives P"
    and "mismatched (tc_prologue client) (tc_server_pubkey client) prologue' keys"
    and "first_message_bound P (tc_prologue client) (tc_server_pubkey client) client_random prologue' keys"
  shows "\<exists>c2s c s.
    secure_exchange P prof client client_random message (connection []) = (c, Inl (Err Io)) \<and>
    handle_client_with_prologue P prof' keys prologue' server_random (connection c2s) = (s, Inl (Err AeadDecrypt)) \<and>
    outbox c = c2s \<and> outbox s = [] \<and>
    fst (secure_exchange P prof client client_random message' (connection [])) = c"
proof -
  obtain init s where run:
    "perform_handshake P prof (tc_prologue client) (tc_server_pubkey client) client_random (connection []) =
       ((connection [])\<lparr>outbox := serialize init\<rparr>, Inl (Err Io))"
    "handle_client_with_prologue P prof' keys prologue' server_random (connection (serialize init)) =
       (s, Inl (Err AeadDecrypt))" "outbox s = []"
    by (rule server_refuses [OF assms])
  have "secure_exchange P prof client client_random m (connection []) =
      ((connection [])\<lparr>outbox := serialize init\<rparr>, Inl (Err Io))" for m
    using run(1) by (simp add: secure_exchange_def bindA_case)
  with run(2,3) show ?thesis by simp
qed

text \<open>With the toy primitives the tag shows the first eight bytes of the transcript.\<close>

lemma le_val_append: "le_val (xs @ ys) = le_val xs + 256 ^ length xs * le_val ys"
  by (induction xs) (simp_all add: algebra_simps)

lemma toy_binds_ad:
  assumes "length a = 32" "length a' = 32" "take 8 a \<noteq> take 8 a'"
  shows "aead_binds_ad toy n m k a k' a'"
proof -
  have low: "unat (word_of_nat (le_val (a @ m)) :: u64) = le_val (take 8 a)" if "length a = 32" for a m
  proof -
    have "le_val (a @ m) = le_val (take 8 a @ (drop 8 a @ m))" by (simp add: append_assoc [symmetric])
    also have "\<dots> = le_val (take 8 a) + 256 ^ 8 * le_val (drop 8 a @ m)"
      using that by (subst le_val_append) simp
    finally have "le_val (a @ m) mod 2 ^ 64 = le_val (take 8 a) mod 2 ^ 64" by simp
    moreover have "le_val (take 8 a) < 2 ^ 64" using le_val_bound [of "take 8 a"] that by simp
    ultimately show ?thesis by (simp add: unat_of_nat)
  qed
  have "toy_tag k' n a' m' \<noteq> toy_tag k n a m" for m'
  proof
    assume "toy_tag k' n a' m' = toy_tag k n a m"
    then have "u64_to_le_bytes (word_of_nat (le_val (a' @ m'))) = u64_to_le_bytes (word_of_nat (le_val (a @ m)))"
      by (simp add: toy_tag_def)
    then have "le_val (take 8 a') = le_val (take 8 a)"
      using low [OF assms(2), of m'] low [OF assms(1), of m] by (simp only: u64_le_inj)
    then have "take 8 a' = take 8 a"
      using le_bytes_le_val [of "take 8 a'"] le_bytes_le_val [of "take 8 a"] assms(1,2) by (metis length_take)
    with assms(3) show False by simp
  qed
  from this [of m] show ?thesis
    by (auto simp: aead_binds_ad_def toy_def Let_def split: if_splits)
qed

lemma toy_bound:
  assumes "8 \<le> length prologue" "8 \<le> length prologue'" "take 8 prologue \<noteq> take 8 prologue'"
  shows "first_message_bound toy prologue pubkey r prologue' keys"
proof -
  have heads: "take 8 (p_sha256 toy (transcript_bytes pro ce sp se)) = take 8 pro"
      "length (p_sha256 toy (transcript_bytes pro ce sp se)) = 32" if "8 \<le> length pro" for pro ce sp se
    using that by (simp_all add: toy_def pad32_def transcript_bytes_def)
  have apart: "take 8 (p_sha256 toy (transcript_bytes prologue ce sp se)) \<noteq>
      take 8 (p_sha256 toy (transcript_bytes prologue' ce' sp' se'))" for ce sp se ce' sp' se'
    using heads(1) assms by simp
  then have "sha256_separates toy (transcript_bytes prologue ce sp se) (transcript_bytes prologue' ce' sp' se')"
    for ce sp se ce' sp' se'
    unfolding sha256_separates_def by metis
  with apart show ?thesis
    unfolding first_message_bound_def Let_def
    by (intro conjI allI impI toy_binds_ad heads(2) assms) simp_all
qed

theorem domains_are_isolated_witness:
  "\<exists>c2s c s.
    secure_exchange toy Debug (client_with_prologue_str (bytes_of ''AnnenTjeneste_v1'') (client_new (replicate 32 5) []))
      (replicate 32 1) [0x68] (connection []) = (c, Inl (Err Io)) \<and>
    handle_client_with_prologue toy Debug (from_private_bytes toy (replicate 32 5))
      (bytes_of ''FinansTjeneste_v2'') (replicate 32 2) (connection c2s) = (s, Inl (Err AeadDecrypt)) \<and>
    outbox c = c2s \<and> outbox s = []"
proof -
  let ?c = "client_with_prologue_str (bytes_of ''AnnenTjeneste_v1'') (client_new (replicate 32 5) [])"
  let ?pro = "bytes_of ''FinansTjeneste_v2''" and ?keys = "from_private_bytes toy (replicate 32 5)"
  have differ: "mismatched (tc_prologue ?c) (tc_server_pubkey ?c) ?pro ?keys"
    by (simp add: mismatched_def client_with_prologue_str_def client_with_prologue_def client_new_def bytes_of_def
        from_private_bytes_def toy_def)
  have "first_message_bound toy (tc_prologue ?c) (tc_server_pubkey ?c) (replicate 32 1) ?pro ?keys"
    by (rule toy_bound)
      (simp_all add: client_with_prologue_str_def client_with_prologue_def client_new_def bytes_of_def)
  from domains_are_isolated [OF toy_session differ this, of Debug "[0x68]" Debug "replicate 32 2"]
  show ?thesis by blast
qed

end
