(* ===== verification/Examples.thy ===== *)
theory Examples
  imports Cli Isolation
begin

text \<open>
  The example programs (src/examples): the demonstration of prologue separation, the chat and
  the echo server. Banner lines and sleeps are left out; the free port, the random bytes and
  the connections of the clients are arguments.
\<close>

section \<open>custom_prologue.rs\<close>

definition SERVER_PROLOGUE :: bytes where
  "SERVER_PROLOGUE = bytes_of ''FinansTjeneste_v2''"

definition INVALID_PROLOGUE :: bytes where
  "INVALID_PROLOGUE = bytes_of ''AnnenTjeneste_v1''"

definition custom_prologue_server :: "primitives \<Rightarrow> bytes \<Rightarrow> bytes \<Rightarrow> tunnel_server" where
  "custom_prologue_server P server_addr server_random =
     server_with_prologue_str SERVER_PROLOGUE (server_new (keypair_generate P server_random) server_addr)"

text \<open>
  The result is the reply that the first client prints; the connections of the two clients
  come first, as the clients leave them.
\<close>

definition custom_prologue_main ::
  "primitives \<Rightarrow> profile \<Rightarrow> bool \<Rightarrow> bytes \<Rightarrow> bytes \<Rightarrow> net option \<Rightarrow> bytes \<Rightarrow> net option \<Rightarrow> bytes \<Rightarrow>
   net option \<times> net option \<times> bytes result" where
  "custom_prologue_main P prof port_free server_addr server_random connect1 random1 connect2 random2 =
     (if \<not> port_free then (None, None, Inl (Err Io))
      else
        let server_pubkey = public_key (keypair_generate P server_random);
            valid_client = client_with_prologue_str SERVER_PROLOGUE (client_new server_pubkey server_addr)
        in case send_secure_message P prof valid_client connect1 random1 False
                 (bytes_of ''Autentisert transaksjonsordre'') of
             (stream1, Inl e) \<Rightarrow> (stream1, None, Inl e)
           | (stream1, Inr reply) \<Rightarrow>
               (let invalid_client = client_with_prologue_str INVALID_PROLOGUE (client_new server_pubkey server_addr)
                in case send_secure_message P prof invalid_client connect2 random2 False
                         (bytes_of ''Ugyldig kontekstforsok'') of
                     (stream2, Inr _) \<Rightarrow> (stream1, stream2, Inl (Panic ExplicitPanic))
                   | (stream2, Inl (Panic p)) \<Rightarrow> (stream1, stream2, Inl (Panic p))
                   | (stream2, Inl (Err _)) \<Rightarrow> (stream1, stream2, Inr reply)))"

section \<open>secure_chat.rs\<close>

definition CHAT_PROLOGUE :: bytes where
  "CHAT_PROLOGUE = bytes_of ''NoiseChat_Secure_v1''"

definition chat_server :: "primitives \<Rightarrow> bytes \<Rightarrow> bytes \<Rightarrow> tunnel_server" where
  "chat_server P server_addr server_random =
     server_with_prologue_str CHAT_PROLOGUE (server_new (keypair_generate P server_random) server_addr)"

definition chat_messages :: "bytes list" where
  "chat_messages =
     [bytes_of ''Hei fra Alice! Er denne kanalen fullstendig kryptert?'',
      bytes_of ''Ja, vi bruker ChaCha20-Poly1305 med Perfect Forward Secrecy.'',
      bytes_of ''Fantastisk! All data er beskyttet mot avlytting og replay-angrep.'']"

text \<open>
  The loop over the messages; the \<open>i\<close>-th one gets its own connection, random bytes and timer.
  The connections come back as the client leaves them.
\<close>

fun chat_loop ::
  "primitives \<Rightarrow> profile \<Rightarrow> tunnel_client \<Rightarrow> (nat \<Rightarrow> net option) \<Rightarrow> (nat \<Rightarrow> bytes) \<Rightarrow> (nat \<Rightarrow> bool) \<Rightarrow>
   nat \<Rightarrow> bytes list \<Rightarrow> net option list \<times> bytes list result" where
  "chat_loop P prof client connect os_random timer_fires i [] = ([], Inr [])"
| "chat_loop P prof client connect os_random timer_fires i (msg # msgs) =
     (case send_secure_message P prof client (connect i) (os_random i) (timer_fires i) msg of
        (stream, Inl e) \<Rightarrow> ([stream], Inl e)
      | (stream, Inr reply) \<Rightarrow>
          (case chat_loop P prof client connect os_random timer_fires (i + 1) msgs of
             (streams, Inl e) \<Rightarrow> (stream # streams, Inl e)
           | (streams, Inr replies) \<Rightarrow> (stream # streams, Inr (reply # replies))))"

definition secure_chat_main ::
  "primitives \<Rightarrow> profile \<Rightarrow> bool \<Rightarrow> bytes \<Rightarrow> bytes \<Rightarrow> (nat \<Rightarrow> net option) \<Rightarrow> (nat \<Rightarrow> bytes) \<Rightarrow> (nat \<Rightarrow> bool) \<Rightarrow>
   net option list \<times> bytes list result" where
  "secure_chat_main P prof port_free server_addr server_random connect os_random timer_fires =
     (if \<not> port_free then ([], Inl (Err Io))
      else
        let server_pubkey = public_key (keypair_generate P server_random);
            client = client_with_timeout (5 * 1000000000)
                       (client_with_prologue_str CHAT_PROLOGUE (client_new server_pubkey server_addr))
        in chat_loop P prof client connect os_random timer_fires 0 chat_messages)"

section \<open>echo_server.rs\<close>

text \<open>The program prints the key and the command that clients are told to connect with.\<close>

definition echo_server_main :: "primitives \<Rightarrow> bytes \<Rightarrow> commands \<times> tunnel_server" where
  "echo_server_main P os_random =
     (let server_keypair = keypair_generate P os_random;
          bind_addr = bytes_of ''127.0.0.1:8080'';
          printed_command = ClientCmd bind_addr (public_key_hex P server_keypair)
            (bytes_of ''Hei fra sikker Rust-klient!'') True None None;
          server = server_with_max_connections 50
                     (server_with_prologue_str (bytes_of ''Noise_Echo_Demo_v1'')
                       (server_new server_keypair bind_addr))
      in (printed_command, server))"

section \<open>Properties\<close>

lemma generated_keys:
  "keypair_generate P r = from_private_bytes P r" "private_key (keypair_generate P r) = r"
  by (simp_all add: keypair_generate_def from_private_bytes_def)

text \<open>One successful exchange with a server of the same prologue.\<close>

lemma example_exchange:
  assumes "session_primitives P" "length r = 32" "length e = 32" "length server_random = 32"
    and "tc_server_pubkey client = public_key (keypair_generate P server_random)"
    and "utf8_valid m" "length m \<le> 65496" "tc_timeout client = None \<or> \<not> timer"
  shows "\<exists>c s.
    send_secure_message P prof client (Some (connection (outbox s))) r timer m = (Some c, Inr (REPLY_PREFIX @ m)) \<and>
    handle_client_with_prologue P prof' (keypair_generate P server_random) (tc_prologue client) e
      (connection (outbox c)) = (s, Inr ())"
proof -
  obtain c s where run:
    "secure_exchange P prof client r m (connection (outbox s)) = (c, Inr (REPLY_PREFIX @ m))"
    "handle_client_with_prologue P prof' (keypair_generate P server_random) (tc_prologue client) e
      (connection (outbox c)) = (s, Inr ())"
    using echo_joint [OF assms(1-3) generated_keys(1) assms(4,5,6,7), of prof prof'] by auto
  from send_secure_message_ok [OF run(1) assms(8)] run(2) show ?thesis by blast
qed

text \<open>
  The demonstration of prologue separation succeeds: there is a network exchange with its
  server in which the first client gets its echo, while the second one, with the other
  prologue, is refused by the server without an answer, and the program ends without
  reaching its panic.
\<close>

theorem custom_prologue_runs:
  assumes "session_primitives P"
    and "length server_random = 32" "length random1 = 32" "length e1 = 32"
    and bound: "first_message_bound P INVALID_PROLOGUE (p_x25519_base P server_random) random2 SERVER_PROLOGUE
           (keypair_generate P server_random)"
    and server: "server = custom_prologue_server P addr server_random"
  shows "\<exists>c s c' s'.
    custom_prologue_main P prof True addr server_random (Some (connection (outbox s))) random1
        (Some (connection (outbox s'))) random2 =
      (Some c, Some c', Inr (REPLY_PREFIX @ bytes_of ''Autentisert transaksjonsordre'')) \<and>
    handle_client_with_prologue P prof' (ts_keypair server) (ts_prologue server) e1 (connection (outbox c)) = (s, Inr ()) \<and>
    handle_client_with_prologue P prof' (ts_keypair server) (ts_prologue server) e2 (connection (outbox c')) =
      (s', Inl (Err AeadDecrypt)) \<and> outbox s' = []"
proof -
  let ?keys = "keypair_generate P server_random"
  let ?good = "client_with_prologue_str SERVER_PROLOGUE (client_new (public_key ?keys) addr)"
  let ?bad = "client_with_prologue_str INVALID_PROLOGUE (client_new (public_key ?keys) addr)"
  have config: "tc_server_pubkey ?good = public_key ?keys" "tc_timeout ?good = None"
      "tc_prologue ?good = SERVER_PROLOGUE" "tc_server_pubkey ?bad = p_x25519_base P server_random"
      "tc_timeout ?bad = None" "tc_prologue ?bad = INVALID_PROLOGUE"
      "ts_keypair server = ?keys" "ts_prologue server = SERVER_PROLOGUE"
    by (simp_all add: server client_with_prologue_str_def client_with_prologue_def client_new_def
        custom_prologue_server_def server_with_prologue_str_def server_with_prologue_def server_new_def
        keypair_generate_def)
  have msg: "utf8_valid (bytes_of ''Autentisert transaksjonsordre'')"
    by (rule utf8_valid_ascii) (simp add: bytes_of_def)
  obtain c s where good:
    "send_secure_message P prof ?good (Some (connection (outbox s))) random1 False (bytes_of ''Autentisert transaksjonsordre'') =
       (Some c, Inr (REPLY_PREFIX @ bytes_of ''Autentisert transaksjonsordre''))"
    "handle_client_with_prologue P prof' ?keys SERVER_PROLOGUE e1 (connection (outbox c)) = (s, Inr ())"
    using example_exchange [OF assms(1,3,4,2) config(1) msg, of False prof prof'] unfolding config(2,3) by auto
  have differ: "mismatched INVALID_PROLOGUE (p_x25519_base P server_random) SERVER_PROLOGUE ?keys"
    by (simp add: mismatched_def length_base [OF assms(1)] generated_keys from_private_bytes_def
        INVALID_PROLOGUE_def SERVER_PROLOGUE_def bytes_of_def)
  obtain init s' where bad:
    "perform_handshake P prof INVALID_PROLOGUE (p_x25519_base P server_random) random2 (connection []) =
       ((connection [])\<lparr>outbox := serialize init\<rparr>, Inl (Err Io))"
    "handle_client_with_prologue P prof' ?keys SERVER_PROLOGUE e2 (connection (serialize init)) =
       (s', Inl (Err AeadDecrypt))" "outbox s' = []"
    by (rule server_refuses [OF assms(1) differ bound])
  define c' where "c' = (connection [])\<lparr>outbox := serialize init\<rparr>"
  have "secure_exchange P prof ?bad random2 (bytes_of ''Ugyldig kontekstforsok'') (connection (outbox s')) =
      (c', Inl (Err Io))"
    using bad(1,3) config(4,6) by (simp add: secure_exchange_def bindA_case c'_def)
  from send_secure_message_ok [OF this, of False] config(5) good(1)
  have "custom_prologue_main P prof True addr server_random (Some (connection (outbox s))) random1
      (Some (connection (outbox s'))) random2 =
      (Some c, Some c', Inr (REPLY_PREFIX @ bytes_of ''Autentisert transaksjonsordre''))"
    by (simp add: custom_prologue_main_def Let_def)
  moreover have "outbox c' = serialize init" by (simp add: c'_def)
  ultimately show ?thesis using good(2) bad(2,3) unfolding config(7,8) by metis
qed

theorem custom_prologue_runs_witness:
  "\<exists>c (s :: net) c' s'. custom_prologue_main toy Debug True [] (replicate 32 5) (Some (connection (outbox s))) (replicate 32 1)
     (Some (connection (outbox s'))) (replicate 32 3) =
      (Some c, Some c', Inr (REPLY_PREFIX @ bytes_of ''Autentisert transaksjonsordre'')) \<and> outbox (s' :: net) = []"
proof -
  have bound: "first_message_bound toy INVALID_PROLOGUE (p_x25519_base toy (replicate 32 5)) (replicate 32 3) SERVER_PROLOGUE
      (keypair_generate toy (replicate 32 5))"
    by (rule toy_bound) (simp_all add: INVALID_PROLOGUE_def SERVER_PROLOGUE_def bytes_of_def)
  from custom_prologue_runs [OF toy_session length_replicate length_replicate length_replicate bound refl,
      where addr = "[]" and prof = Debug]
  show ?thesis by blast
qed

text \<open>
  C33. The echo server tells its users the wrong command: it runs with a prologue of its own,
  but the command it prints has no \<open>--prologue\<close>, so the client runs with the default one. In
  the joint run of the two the server refuses the client's first frame and sends nothing, and
  the printed command ends with an error. Assumed is, beside the primitives' behaviour, that
  SHA-256 does not collide on the two transcripts and that the client's first ciphertext
  does not open with associated data other than its own.
\<close>

theorem echo_server_hint_fails:
  assumes "session_primitives P" "hex_inverts P"
    and bound: "first_message_bound P PROTOCOL_NAME (p_x25519_base P os_random) (en_client_random env)
           (bytes_of ''Noise_Echo_Demo_v1'') (keypair_generate P os_random)"
    and main: "echo_server_main P os_random = (cmd, server)"
  shows "\<exists>c s.
    run_command P prof (env\<lparr>en_connect := Some (connection (outbox s))\<rparr>) cmd = (Some c, Inl (Err Io)) \<and>
    handle_client_with_prologue P prof' (ts_keypair server) (ts_prologue server) e (connection (outbox c)) =
      (s, Inl (Err AeadDecrypt)) \<and> outbox s = []"
proof -
  have differ: "mismatched PROTOCOL_NAME (p_x25519_base P os_random) (bytes_of ''Noise_Echo_Demo_v1'')
      (keypair_generate P os_random)"
    by (simp add: mismatched_def length_base [OF assms(1)] generated_keys from_private_bytes_def
        PROTOCOL_NAME_def bytes_of_def)
  obtain init s where run:
    "perform_handshake P prof PROTOCOL_NAME (p_x25519_base P os_random) (en_client_random env) (connection []) =
       ((connection [])\<lparr>outbox := serialize init\<rparr>, Inl (Err Io))"
    "handle_client_with_prologue P prof' (keypair_generate P os_random) (bytes_of ''Noise_Echo_Demo_v1'') e
       (connection (serialize init)) = (s, Inl (Err AeadDecrypt))" "outbox s = []"
    by (rule server_refuses [OF assms(1) differ bound])
  have server: "ts_keypair server = keypair_generate P os_random" "ts_prologue server = bytes_of ''Noise_Echo_Demo_v1''"
    using main by (auto simp: echo_server_main_def Let_def server_with_max_connections_def
        server_with_prologue_str_def server_with_prologue_def server_new_def)
  have "length (public_key (keypair_generate P os_random)) = 32"
    by (simp add: keypair_generate_def length_base [OF assms(1)])
  then have "parse_public_key_hex P (public_key_hex P (keypair_generate P os_random)) = Inr (p_x25519_base P os_random)"
    unfolding public_key_hex_def by (subst read_public_hex [OF assms(2)]) (simp_all add: keypair_generate_def)
  then have "run_command P prof (env\<lparr>en_connect := Some (connection (outbox s))\<rparr>) cmd =
      (Some ((connection [])\<lparr>outbox := serialize init\<rparr>), Inl (Err Io))"
    using main run(1,3)
    by (auto simp: echo_server_main_def Let_def run_command_def client_command_def client_new_def
        start_interactive_session_def interactive_session_def)
  with run(2,3) server show ?thesis by fastforce
qed

theorem echo_server_hint_fails_witness:
  "\<exists>c s. run_command toy Debug \<lparr>en_random = [], en_client_random = replicate 32 1, en_connect = Some (connection (outbox s)),
      en_timer_fires = False, en_lines = [], en_port_free = True, en_local_addr = [], en_elapsed = (\<lambda>_. 0)\<rparr>
     (fst (echo_server_main toy (replicate 32 5))) = (Some c, Inl (Err Io)) \<and> outbox (s :: net) = []"
proof -
  let ?env = "\<lparr>en_random = [], en_client_random = replicate 32 1, en_connect = None,
      en_timer_fires = False, en_lines = [], en_port_free = True, en_local_addr = [], en_elapsed = (\<lambda>_. 0)\<rparr>"
  have bound: "first_message_bound toy PROTOCOL_NAME (p_x25519_base toy (replicate 32 5)) (en_client_random ?env)
      (bytes_of ''Noise_Echo_Demo_v1'') (keypair_generate toy (replicate 32 5))"
    by (rule toy_bound) (simp_all add: PROTOCOL_NAME_def bytes_of_def)
  from echo_server_hint_fails [OF toy_session toy_hex bound, where prof = Debug,
      of "fst (echo_server_main toy (replicate 32 5))" "snd (echo_server_main toy (replicate 32 5))"]
  show ?thesis by (simp only: prod.collapse environment.simps simp_thms) blast
qed

text \<open>
  The chat runs: as long as no timer fires there are connections to its server on which
  every message comes back with the server's prefix, each in a session of its own that the
  server ends without error.
\<close>

theorem secure_chat_runs:
  assumes "session_primitives P" "length server_random = 32"
    and "\<forall>i. length (os_random i) = 32 \<and> length (e i) = 32 \<and> \<not> fires i"
    and server: "server = chat_server P addr server_random"
  shows "\<exists>c s.
    secure_chat_main P prof True addr server_random (\<lambda>i. Some (connection (outbox (s i)))) os_random fires =
      (map (Some \<circ> c) [0..<3], Inr (map (\<lambda>m. REPLY_PREFIX @ m) chat_messages)) \<and>
    (\<forall>i<3. handle_client_with_prologue P prof' (ts_keypair server) (ts_prologue server) (e i)
       (connection (outbox (c i))) = (s i, Inr ()))"
proof -
  let ?keys = "keypair_generate P server_random"
  let ?client = "client_with_timeout (5 * 1000000000)
    (client_with_prologue_str CHAT_PROLOGUE (client_new (public_key ?keys) addr))"
  have config: "tc_server_pubkey ?client = public_key ?keys" "tc_prologue ?client = CHAT_PROLOGUE"
      "ts_keypair server = ?keys" "ts_prologue server = CHAT_PROLOGUE"
    by (simp_all add: server chat_server_def server_with_prologue_str_def server_with_prologue_def server_new_def
        client_with_timeout_def client_with_prologue_str_def client_with_prologue_def client_new_def)
  have msgs: "utf8_valid m \<and> length m \<le> 65496" if "m \<in> set chat_messages" for m
    using that by (auto simp: chat_messages_def bytes_of_def intro!: utf8_valid_ascii)
  have one: "\<exists>c s.
      send_secure_message P prof ?client (Some (connection (outbox s))) (os_random i) (fires i) (chat_messages ! i) =
        (Some c, Inr (REPLY_PREFIX @ chat_messages ! i)) \<and>
      handle_client_with_prologue P prof' ?keys CHAT_PROLOGUE (e i) (connection (outbox c)) = (s, Inr ())"
    if "i < 3" for i
  proof -
    have "length chat_messages = 3" by (simp add: chat_messages_def)
    then have "chat_messages ! i \<in> set chat_messages" using that by (intro nth_mem) simp
    from msgs [OF this] show ?thesis
      using example_exchange [OF assms(1) _ _ assms(2) config(1), of "os_random i" "e i" "chat_messages ! i" "fires i" prof prof']
        assms(3) unfolding config(2) by auto
  qed
  then obtain c s where run: "\<And>i. i < 3 \<Longrightarrow>
      send_secure_message P prof ?client (Some (connection (outbox (s i)))) (os_random i) (fires i) (chat_messages ! i) =
        (Some (c i), Inr (REPLY_PREFIX @ chat_messages ! i)) \<and>
      handle_client_with_prologue P prof' ?keys CHAT_PROLOGUE (e i) (connection (outbox (c i))) = (s i, Inr ())"
    by metis
  have three: "[0..<3] = [0, 1, 2 :: nat]" by (simp add: upt_rec)
  have "chat_loop P prof ?client (\<lambda>i. Some (connection (outbox (s i)))) os_random fires 0 chat_messages =
      (map (Some \<circ> c) [0..<3], Inr (map (\<lambda>m. REPLY_PREFIX @ m) chat_messages))"
    using run [of 0] run [of 1] run [of 2] by (simp add: chat_messages_def numeral_2_eq_2 three)
  then show ?thesis
    using run unfolding config(3,4) secure_chat_main_def
    by (intro exI [of _ c] exI [of _ s]) (simp add: Let_def)
qed

theorem secure_chat_runs_witness:
  "\<exists>c (s :: nat \<Rightarrow> net). secure_chat_main toy Debug True [] (replicate 32 5) (\<lambda>i. Some (connection (outbox (s i))))
     (\<lambda>_. replicate 32 1) (\<lambda>_. False) = (map (Some \<circ> c) [0..<3], Inr (map (\<lambda>m. REPLY_PREFIX @ m) chat_messages))"
  using secure_chat_runs [OF toy_session, of "replicate 32 5" "\<lambda>_. replicate 32 1" "\<lambda>_. replicate 32 2" "\<lambda>_. False"
      "chat_server toy [] (replicate 32 5)" "[]" Debug]
  by (simp only: length_replicate) blast

end
