(* ===== verification/Replayed.thy ===== *)
theory Replayed
  imports End_To_End
begin

text \<open>
  Packets replayed on the network: the requests of an honest client up to some point,
  followed by one of them once more. The replay filter of the session knows the number of
  every frame it has accepted.
\<close>

section \<open>A number the filter knows ends the session\<close>

text \<open>The frames of a sealed list carry consecutive numbers.\<close>

lemma nth_sealed_transports:
  "sealed P c xs fs \<Longrightarrow> i < length fs \<Longrightarrow>
     seals P (c\<lparr>cs_nonce := cs_nonce c + word_of_nat i\<rparr>) (xs ! i) (fs ! i)"
proof (induction xs arbitrary: c fs i)
  case (Cons x xs)
  then obtain g gs where gs: "fs = g # gs" "seals P c x g" "sealed P (next_nonce c) xs gs" by (cases fs) auto
  show ?case
  proof (cases i)
    case 0
    then show ?thesis using gs by simp
  next
    case (Suc j)
    then show ?thesis
      using Cons.IH [OF gs(3), of j] Cons.prems(2) gs(1) by (simp add: next_nonce_def ac_simps)
  qed
qed simp

lemma length_sealed: "sealed P c xs fs \<Longrightarrow> length fs = length xs"
proof (induction xs arbitrary: c fs)
  case (Cons x xs)
  then show ?case by (cases fs) auto
qed simp

text \<open>The error is the verdict of the filter, and nothing is answered.\<close>

lemma known_number_ends_loop:
  assumes "room (Suc 0) s" "inbox (s_net s) = serialize f @ rest" "valid_frame f"
    and "is_data f \<or> is_heartbeat f" "verdict (s_replay s) (wf_nonce f) = Some e"
  shows "\<exists>s'. transport_loop P prof s = (s', Inl (Err e)) \<and> outbox (s_net s') = outbox (s_net s)"
proof -
  note room = assms(1) [unfolded room_def]
  have size: "payload_len f + 13 \<le> 2 ^ 18" using assms(3) by (simp add: valid_frame_le payload_len_def)
  obtain s1 where s1: "count_rx prof (payload_len f + 13) (s\<lparr>s_net := (s_net s)\<lparr>inbox := rest\<rparr>\<rparr>) = (s1, Inr ())"
      "outbox (s_net s1) = outbox (s_net s)" "s_replay s1 = s_replay s"
    by (rule count_rx_ok [of 1 "s\<lparr>s_net := (s_net s)\<lparr>inbox := rest\<rparr>\<rparr>" _ prof, OF _ size])
      (use room in auto)
  have "validate_and_record prof (wf_nonce f) (s_replay s) = (after_call (s_replay s) (wf_nonce f), Inl (Err e))"
    using validate_no_overflow [of "s_replay s" prof "wf_nonce f"] room assms(5) by (simp add: in_step_def)
  then have "serve_frame P prof f s1 = (s1\<lparr>s_replay := after_call (s_replay s) (wf_nonce f)\<rparr>, Inl (Err e))"
    using assms(4) s1(3)
    by (auto simp: serve_frame_def bindA_case onA_def is_data_def is_heartbeat_def mt_is_data_def mt_is_heartbeat_def)
  then have "transport_step P prof s = (s1\<lparr>s_replay := after_call (s_replay s) (wf_nonce f)\<rparr>, Inl (Err e))"
    using read_from_serialize [OF assms(3,2)] s1(1)
    by (simp add: transport_step_def onA_def bindA_case)
  then show ?thesis using s1(2) by (subst transport_loop.simps) simp
qed

text \<open>
  What the filter of a session answers to a number it has accepted: it is a duplicate as long
  as it is in the window of 128 numbers, and too old after that.
\<close>

lemma known_verdict:
  assumes "in_step s" "covered s" "window_size (s_replay s) = 128"
    and "cs_nonce (s_rx s) = word_of_nat k" "i < k" "k < 2 ^ 40"
  shows "verdict (s_replay s) (word_of_nat i) =
    Some (if k \<le> i + 128 then ReplayDuplicate (word_of_nat i) else ReplayTooOld (word_of_nat i) 128)"
proof -
  have small: "unat (word_of_nat j :: u64) = j" if "j \<le> k" for j
    using that assms(6) by (simp add: unat_of_nat)
  have "(word_of_nat i :: u64) < word_of_nat k" using assms(5) by (simp add: word_less_nat_alt small)
  then have seen: "verdict (s_replay s) (word_of_nat i) \<noteq> None"
    using assms(2,4) by (auto simp: covered_def seen_set_def)
  then have init: "initialized (s_replay s)" by (auto simp: verdict_def split: if_splits)
  have "word_of_nat k = (word_of_nat (k - 1) :: u64) + 1"
    using assms(5) by (metis Suc_pred' add.commute of_nat_Suc less_nat_zero_code neq0_conv)
  then have last: "last_seq (s_replay s) = word_of_nat (k - 1)"
    using assms(1,4) init by (simp add: in_step_def)
  have "unat (last_seq (s_replay s) - word_of_nat i) = k - 1 - i"
    using assms(5) small [of i] small [of "k - 1"] by (simp add: last unat_minus_u64 word_le_nat_alt)
  then have "window_size (s_replay s) \<le> last_seq (s_replay s) - word_of_nat i \<longleftrightarrow> \<not> k \<le> i + 128"
    using assms(3,5) by (auto simp: word_le_nat_alt)
  then show ?thesis using seen assms(3) by (auto simp: verdict_def split: if_splits)
qed

lemma replay_refused:
  assumes P: "session_primitives P" and rs: "length rs + 1 < 2 ^ 40"
      "list_all (\<lambda>e. length (event_text e) \<le> 65511) rs"
    and fs: "sealed P (cipher_new rk) (map request_item rs) fs"
    and gs: "sealed P (cipher_new tk) (map answer_item rs) gs"
    and n: "write_faults n = []" "inbox n = concat (map serialize fs) @ serialize (fs ! i) @ rest" "i < length fs"
  shows "\<exists>s. transport_loop P prof (start_session n (cipher_new rk) (cipher_new tk) now) =
      (s, Inl (Err (if length rs \<le> i + 128 then ReplayDuplicate (word_of_nat i)
                    else ReplayTooOld (word_of_nat i) 128))) \<and>
    outbox (s_net s) = outbox n @ concat (map serialize gs)"
proof -
  let ?s = "start_session n (cipher_new rk) (cipher_new tk) now" and ?f = "fs ! i"
  have len: "length fs = length rs" using length_sealed [OF fs] by simp
  have room: "room (length rs + 1) ?s" by (rule room_start [OF n(1) rs(1)])
  have fs': "sealed P (s_rx ?s) (map request_item rs) fs"
    and io: "inbox (s_net ?s) = concat (map serialize fs) @ serialize ?f @ rest"
    using fs n(2) by simp_all
  have fresh: "covered ?s" "window_size (s_replay ?s) = 128"
    by (auto simp: covered_def cipher_new_def start_session_def new_filter_def with_window_size_def
        clamp_window_def REPLAY_WINDOW_SIZE_def)
  obtain s1 gs' where s1: "transport_loop P prof ?s = transport_loop P prof s1" "room 1 s1"
      "sealed P (cipher_new tk) (map answer_item rs) gs'" "inbox (s_net s1) = serialize ?f @ rest"
      "outbox (s_net s1) = outbox n @ concat (map serialize gs')"
      "cs_nonce (s_rx s1) = word_of_nat (length rs)" "covered s1" "window_size (s_replay s1) = 128"
    using honest_turns_room [OF P room fs' rs(2) io, where prof = prof] fresh
    by (auto simp: cipher_new_def)
  have "gs' = gs" by (rule sealed_unique [OF gs s1(3)])
  have f: "seals P ((cipher_new rk)\<lparr>cs_nonce := word_of_nat i\<rparr>) (request_item (rs ! i)) ?f"
    using nth_sealed_transports [OF fs n(3)] n(3) len by (simp add: cipher_new_def)
  have "length (event_text (rs ! i)) \<le> 65511" using rs(2) n(3) len by (simp add: list_all_length)
  then have valid: "valid_frame ?f" by (rule seals_carries(2) [OF P f])
  have kind: "is_data ?f \<or> is_heartbeat ?f" and num: "wf_nonce ?f = word_of_nat i"
    using f by (cases "rs ! i"; auto simp: seals_def new_frame_def is_data_def is_heartbeat_def
        mt_is_data_def mt_is_heartbeat_def)+
  have step: "in_step s1" using s1(2) by (simp add: room_def)
  have "verdict (s_replay s1) (wf_nonce ?f) = Some (if length rs \<le> i + 128
      then ReplayDuplicate (word_of_nat i) else ReplayTooOld (word_of_nat i) 128)"
    unfolding num by (rule known_verdict [OF step s1(7,8,6)]) (use n(3) rs(1) len in simp_all)
  then obtain s where "transport_loop P prof s1 = (s, Inl (Err (if length rs \<le> i + 128
      then ReplayDuplicate (word_of_nat i) else ReplayTooOld (word_of_nat i) 128)))"
      "outbox (s_net s) = outbox (s_net s1)"
    using known_number_ends_loop [of s1 ?f rest _ P prof] s1(2,4) valid kind by auto
  with s1(1,5) \<open>gs' = gs\<close> show ?thesis by auto
qed

section \<open>Properties\<close>

text \<open>
  C12. A replayed packet ends the session: if an attacker sends any frame of an honest
  client's session once more, however long ago it was sent, the server answers the honest
  requests as before, refuses the replayed frame with the verdict of its replay filter, a
  duplicate within the last 128 frames and too old before that, and the session ends with
  that error and without a further answer.
\<close>

theorem replayed_frame_ends_session:
  assumes "session_primitives P" "length rs + 1 < 2 ^ 40"
    and "list_all (\<lambda>e. length (event_text e) \<le> 65511) rs"
    and "sealed P (cipher_new rk) (map request_item rs) fs" "sealed P (cipher_new tk) (map answer_item rs) gs"
    and "write_faults n = []" "inbox n = concat (map serialize fs) @ serialize (fs ! i) @ rest" "i < length fs"
  shows "\<exists>s. transport_loop P prof (start_session n (cipher_new rk) (cipher_new tk) now) =
      (s, Inl (Err (if length rs \<le> i + 128 then ReplayDuplicate (word_of_nat i)
                    else ReplayTooOld (word_of_nat i) 128))) \<and>
    outbox (s_net s) = outbox n @ concat (map serialize gs)"
  by (rule replay_refused [OF assms])

theorem replayed_frame_ends_session_witness:
  "\<exists>fs s. sealed toy (cipher_new [1]) [request_item (Said [0x68])] fs \<and>
    transport_loop toy Debug (start_session (connection (concat (map serialize fs) @ serialize (fs ! 0)))
      (cipher_new [1]) (cipher_new [2]) 0) = (s, Inl (Err (ReplayDuplicate 0)))"
proof -
  let ?rs = "[Said [0x68]]"
  have short: "list_all (\<lambda>x. length (snd (snd x)) < aead_limit) (map request_item ?rs)"
      "list_all (\<lambda>x. length (snd (snd x)) < aead_limit) (map answer_item ?rs)"
    using length_lossy [of "[0x68]"] by (simp_all add: aead_limit_def REPLY_PREFIX_def)
  have few: "unat (cs_nonce (cipher_new k)) + length (map f ?rs) < 2 ^ 64" for k and f :: "event \<Rightarrow> item"
    by (simp add: cipher_new_def)
  obtain fs gs where fs: "sealed toy (cipher_new [1]) (map request_item ?rs) fs"
    and gs: "sealed toy (cipher_new [2]) (map answer_item ?rs) gs"
    using sealed_exists [OF toy_session short(1) few] sealed_exists [OF toy_session short(2) few] by blast
  have "0 < length fs" using length_sealed [OF fs] by simp
  moreover have "length ?rs + 1 < 2 ^ 40" "list_all (\<lambda>e. length (event_text e) \<le> 65511) ?rs" by simp_all
  ultimately obtain s where "transport_loop toy Debug
      (start_session (connection (concat (map serialize fs) @ serialize (fs ! 0))) (cipher_new [1]) (cipher_new [2]) 0) =
      (s, Inl (Err (ReplayDuplicate 0)))"
    using replayed_frame_ends_session [OF toy_session _ _ fs gs, of
        "connection (concat (map serialize fs) @ serialize (fs ! 0))" 0 "[]" Debug 0] by auto
  with fs show ?thesis by auto
qed

end
