(* ===== verification/Refusal.thy ===== *)
theory Refusal
  imports Isolation Determinacy
begin

text \<open>
  Every joint run of a client and a server that do not agree on the prologue or on the
  server's key: not only is there a run in which the server refuses (theory \<open>Isolation\<close>),
  there is no other one.
\<close>

section \<open>The one outcome\<close>

lemma mismatch_determined:
  assumes P: "session_primitives P"
    and differ: "mismatched (tc_prologue client) (tc_server_pubkey client) prologue' keys"
    and bound: "first_message_bound P (tc_prologue client) (tc_server_pubkey client) client_random prologue' keys"
    and c: "secure_exchange P prof client client_random m (connection (outbox s)) = (c, x)"
    and s: "handle_client_with_prologue P prof' keys prologue' server_random (connection (outbox c)) = (s, y)"
  shows "x = Inl (Err Io) \<and> y = Inl (Err AeadDecrypt) \<and> outbox s = [] \<and>
    c = fst (perform_handshake P prof (tc_prologue client) (tc_server_pubkey client) client_random (connection []))"
proof -
  let ?hand = "perform_handshake P prof (tc_prologue client) (tc_server_pubkey client) client_random"
  obtain init where init: "?hand (connection []) = ((connection [])\<lparr>outbox := serialize init\<rparr>, Inl (Err Io))"
    and refuse: "\<And>rest. handle_client_with_prologue P prof' keys prologue' server_random (connection (serialize init @ rest)) =
       ((connection (serialize init @ rest))\<lparr>inbox := rest\<rparr>, Inl (Err AeadDecrypt))"
    by (rule first_frame_refused [OF P differ bound]) (rule that; assumption)
  have "outbox (fst (?hand (connection (outbox s)))) = serialize init"
    using handshake_output [of "connection (outbox s)" "connection []" P prof "tc_prologue client" "tc_server_pubkey client"
        client_random] init by auto
  then obtain b where "outbox c = serialize init @ b"
    using exchange_extends [of P prof client client_random m "connection (outbox s)"] c by auto
  then have y: "y = Inl (Err AeadDecrypt)" "outbox s = []" using refuse [of b] s by auto
  have "secure_exchange P prof client client_random m (connection []) = ((connection [])\<lparr>outbox := serialize init\<rparr>, Inl (Err Io))"
    using init by (simp add: secure_exchange_def bindA_case)
  with c y init show ?thesis by simp
qed

section \<open>Properties\<close>

text \<open>
  C20. Domains are isolated: whenever client and server are configured with different
  prologues or different server keys, every joint run ends with the server refusing the
  client's first frame and sending nothing, and the client failing without a reply; what the
  client has sent is its handshake frame and nothing of the message. Assumed is that SHA-256
  does not collide on the two transcripts of the run, and that its first ciphertext does not
  open with associated data other than its own.
\<close>

theorem every_mismatch_is_refused:
  assumes "session_primitives P"
    and "mismatched (tc_prologue client) (tc_server_pubkey client) prologue' keys"
    and "first_message_bound P (tc_prologue client) (tc_server_pubkey client) client_random prologue' keys"
    and "secure_exchange P prof client client_random m (connection (outbox s)) = (c, x)"
    and "handle_client_with_prologue P prof' keys prologue' server_random (connection (outbox c)) = (s, y)"
  shows "x = Inl (Err Io) \<and> y = Inl (Err AeadDecrypt) \<and> outbox s = [] \<and>
    c = fst (perform_handshake P prof (tc_prologue client) (tc_server_pubkey client) client_random (connection []))"
  by (rule mismatch_determined [OF assms])

theorem every_mismatch_is_refused_witness:
  "\<exists>c s x y.
    secure_exchange toy Debug (client_with_prologue_str (bytes_of ''AnnenTjeneste_v1'') (client_new (replicate 32 5) []))
      (replicate 32 1) [0x68] (connection (outbox s)) = (c, x) \<and>
    handle_client_with_prologue toy Debug (from_private_bytes toy (replicate 32 5))
      (bytes_of ''FinansTjeneste_v2'') (replicate 32 2) (connection (outbox c)) = (s, y) \<and>
    x = Inl (Err Io) \<and> y = Inl (Err AeadDecrypt) \<and> outbox s = []"
proof -
  let ?c = "client_with_prologue_str (bytes_of ''AnnenTjeneste_v1'') (client_new (replicate 32 5) [])"
  let ?keys = "from_private_bytes toy (replicate 32 5)" and ?pro = "bytes_of ''FinansTjeneste_v2''"
  have differ: "mismatched (tc_prologue ?c) (tc_server_pubkey ?c) ?pro ?keys"
    by (simp add: mismatched_def client_with_prologue_str_def client_with_prologue_def client_new_def bytes_of_def
        from_private_bytes_def toy_def)
  have bound: "first_message_bound toy (tc_prologue ?c) (tc_server_pubkey ?c) (replicate 32 1) ?pro ?keys"
    by (rule toy_bound)
      (simp_all add: client_with_prologue_str_def client_with_prologue_def client_new_def bytes_of_def)
  obtain c s where run: "secure_exchange toy Debug ?c (replicate 32 1) [0x68] (connection (outbox s)) = (c, Inl (Err Io))"
      "handle_client_with_prologue toy Debug ?keys ?pro (replicate 32 2) (connection (outbox c)) = (s, Inl (Err AeadDecrypt))"
    using domains_are_isolated [OF toy_session differ bound, of Debug "[0x68]" Debug "replicate 32 2"] by metis
  from every_mismatch_is_refused [OF toy_session differ bound run] run show ?thesis by blast
qed

end
