(* ===== verification/Testing.thy ===== *)
theory Testing
  imports Rates Texts
begin

text \<open>
  The vocabulary of the repository's unit tests. A test is a sequence of statements over its
  mutable value, each of which asserts something; its result is \<open>Inr ()\<close> when no assertion
  fails and no call panics.
\<close>

fun steps :: "('s, unit) act list \<Rightarrow> ('s, unit) act" where
  "steps [] = ret ()"
| "steps (m # ms) = bindA m (\<lambda>_. steps ms)"

definition expect :: "('s \<Rightarrow> bool) \<Rightarrow> ('s, unit) act" where
  "expect g = bindA (getsA g) assertA"

definition expect_ok :: "('s, 'a) act \<Rightarrow> ('s, unit) act" where
  "expect_ok m = bindA (is_okA m) assertA"

definition expect_err :: "('s, 'a) act \<Rightarrow> ('s, unit) act" where
  "expect_err m = bindA (is_okA m) (\<lambda>ok. assertA (\<not> ok))"

text \<open>A test whose assertions are all on immutable values.\<close>

definition asserts :: "bool list \<Rightarrow> unit result" where
  "asserts bs = snd (steps (map assertA bs) ())"

definition is_err :: "'a result \<Rightarrow> bool" where
  "is_err r = (case r of Inl _ \<Rightarrow> True | Inr _ \<Rightarrow> False)"

definition unwrap :: "'a result \<Rightarrow> 'a result" where
  "unwrap r = snd (unwrapA (liftA r) ())"

lemma expect_ok_eq:
  "expect_ok m s = (case m s of
     (s', Inr _) \<Rightarrow> (s', Inr ())
   | (s', Inl (Err _)) \<Rightarrow> (s', Inl (Panic AssertionFailed))
   | (s', Inl (Panic p)) \<Rightarrow> (s', Inl (Panic p)))"
  by (auto simp: expect_ok_def is_okA_def bindA_def assertA_def ret_def throw_def
      split: prod.split sum.split fault.split)

lemma expect_err_eq:
  "expect_err m s = (case m s of
     (s', Inr _) \<Rightarrow> (s', Inl (Panic AssertionFailed))
   | (s', Inl (Err _)) \<Rightarrow> (s', Inr ())
   | (s', Inl (Panic p)) \<Rightarrow> (s', Inl (Panic p)))"
  by (auto simp: expect_err_def is_okA_def bindA_def assertA_def ret_def throw_def
      split: prod.split sum.split fault.split)

lemma expect_eq: "expect g s = (if g s then (s, Inr ()) else (s, Inl (Panic AssertionFailed)))"
  by (simp add: expect_def bindA_def getsA_def assertA_def ret_def throw_def)

lemma asserts_pass: "asserts bs = Inr () \<longleftrightarrow> list_all id bs"
  unfolding asserts_def
  by (induction bs) (auto simp: bindA_def assertA_def ret_def throw_def)

lemma unwrap_simps:
  "unwrap (Inr x) = Inr x"
  "unwrap (Inl (Err e)) = Inl (Panic UnwrapFailed)"
  by (simp_all add: unwrap_def unwrapA_def liftA_def)

text \<open>The equations that run a test on concrete values.\<close>

lemmas run_tests =
  expect_ok_eq expect_err_eq expect_eq asserts_pass unwrap_simps is_err_def bindA_case ret_def
  getsA_def modifyA_def arithA_def throw_def add_assign_eq u64_add_def u64_sub_def u128_shl_def

lemmas run_filter =
  validate_and_record_def new_filter_def with_window_size_def clamp_window_def
  REPLAY_WINDOW_SIZE_def highest_seen_def is_initialized_def filter_is_empty_def capacity_def
  reset_def min_valid_seq_def has_seen_def u64_saturating_sub_def

lemmas run_frame =
  new_frame_def handshake_init_frame_def handshake_resp_frame_def data_frame_def
  data_from_slice_def heartbeat_frame_def heartbeat_from_slice_def close_frame_def
  is_handshake_def is_handshake_init_def is_handshake_resp_def is_heartbeat_def is_data_def
  is_close_def payload_len_def frame_is_empty_def into_payload_def into_parts_def
  is_valid_payload_size_def max_payload_size_def MAX_FRAME_SIZE_def
  mt_is_handshake_def mt_is_handshake_init_def mt_is_handshake_resp_def mt_is_data_def
  mt_is_heartbeat_def mt_is_close_def message_type_name_def message_type_try_from_def
  header_bytes_def payload_utf8_lossy_def

end
