(* ===== verification/Protocol_Tests.thy ===== *)
theory Protocol_Tests
  imports Testing Handshake
begin

text \<open>
  The unit tests of src/src/protocol/mod.rs (lines 559-912) on the model, each a definition with
  the source's name and statements. That they pass in both build profiles ties the model to
  the program's own expectations.
\<close>

section \<open>Frames and message types\<close>

definition test_wireframe_serialization_roundtrip :: "unit result" where
  "test_wireframe_serialization_roundtrip =
     (let frame = new_frame DataPayload 42 (bytes_of ''Hemmelig Payload'');
          serialized = serialize frame
      in snd (bindA (unwrapA read_from) (\<lambda>parsed.
           steps
             [assert_eq (wf_msg_type parsed) DataPayload,
              assert_eq (wf_nonce parsed) 42,
              assert_eq (wf_payload parsed) (bytes_of ''Hemmelig Payload'')])
           (connection serialized)))"

definition test_wireframe_helpers_and_display :: "unit result" where
  "test_wireframe_helpers_and_display =
     (let frm = data_frame 1 [1, 2, 3];
          hs_frame = handshake_init_frame 0 [];
          hs_resp_frame = handshake_resp_frame 0 [10, 20];
          hb_frame = heartbeat_frame 2 [];
          close_frm = close_frame 3;
          header = header_bytes frm;
          summary = frame_summary frm
      in asserts
        [is_data frm, \<not> is_handshake frm, \<not> is_heartbeat frm, \<not> is_close frm,
         payload_len frm = 3, \<not> frame_is_empty frm,
         message_type_name DataPayload = bytes_of ''DataPayload'',
         is_handshake hs_frame, frame_is_empty hs_frame,
         message_type_name HandshakeInit = bytes_of ''HandshakeInit'',
         is_handshake hs_resp_frame,
         message_type_name HandshakeResp = bytes_of ''HandshakeResp'',
         is_heartbeat hb_frame, frame_is_empty hb_frame,
         message_type_name Heartbeat = bytes_of ''Heartbeat'',
         is_close close_frm, frame_is_empty close_frm,
         message_type_name Close = bytes_of ''Close'',
         header ! 0 = as_u8 DataPayload,
         take 8 (drop 1 header) = u64_to_be_bytes 1,
         contains summary (bytes_of ''DataPayload''),
         contains summary (bytes_of ''nonce=1''),
         contains summary (bytes_of ''payload_len=3B'')])"

definition test_invalid_message_type_rejection :: "unit result" where
  "test_invalid_message_type_rejection =
     asserts
       [is_err (message_type_try_from 0x00), is_err (message_type_try_from 0x99),
        is_err (message_type_try_from 0xFF)]"

definition test_oversized_frame_rejection :: "unit result" where
  "test_oversized_frame_rejection =
     (let raw = [];
          too_large = word_of_nat (MAX_FRAME_SIZE + 10);
          raw = raw @ u32_to_be_bytes too_large;
          raw = raw @ replicate 16 0
      in snd (expect_err read_from (connection raw)))"

definition test_wireframe_from_bytes_roundtrip_and_errors :: "unit result" where
  "test_wireframe_from_bytes_roundtrip_and_errors =
     (let frame = data_frame 100 (bytes_of ''Buffer Data'');
          serialized = serialize frame;
          corrupted_len = u32_to_be_bytes 500 @ drop 4 serialized;
          corrupted_type = serialized[4 := 0xFE]
      in asserts
        [unwrap (from_bytes serialized) = Inr frame,
         is_err (from_bytes (replicate 10 0)),
         is_err (from_bytes corrupted_len),
         is_err (from_bytes corrupted_type)])"

definition test_wireframe_serialize_into_buffer_reuse :: "unit result" where
  "test_wireframe_serialize_into_buffer_reuse =
     (let frame1 = data_frame 1 (bytes_of ''first'');
          frame2 = data_frame 2 (bytes_of ''second'');
          buffer = serialize_into frame1 [];
          len1 = length buffer;
          parsed1 = unwrap (from_bytes (take len1 buffer));
          buffer = [];
          buffer = serialize_into frame2 buffer;
          parsed2 = unwrap (from_bytes buffer)
      in asserts [parsed1 = Inr frame1, parsed2 = Inr frame2])"

definition test_message_type_predicates_and_byte_conversion :: "unit result" where
  "test_message_type_predicates_and_byte_conversion =
     asserts
       [as_u8 HandshakeInit = 0x01, mt_is_handshake HandshakeInit, \<not> mt_is_data HandshakeInit,
        \<not> mt_is_heartbeat HandshakeInit, \<not> mt_is_close HandshakeInit,
        as_u8 HandshakeResp = 0x02, mt_is_handshake HandshakeResp,
        as_u8 DataPayload = 0x03, mt_is_data DataPayload, \<not> mt_is_handshake DataPayload,
        as_u8 Heartbeat = 0x04, mt_is_heartbeat Heartbeat,
        as_u8 Close = 0x05, mt_is_close Close]"

definition test_wireframe_payload_size_limits :: "unit result" where
  "test_wireframe_payload_size_limits =
     (let max_len = max_payload_size
      in asserts
        [max_len = MAX_FRAME_SIZE - 9, is_valid_payload_size 0, is_valid_payload_size 1024,
         is_valid_payload_size max_len, \<not> is_valid_payload_size (max_len + 1)])"

definition test_wireframe_data_from_slice :: "unit result" where
  "test_wireframe_data_from_slice =
     (let slice_data = bytes_of ''slice constructor payload'';
          frame = data_from_slice 55 slice_data
      in asserts
        [wf_nonce frame = 55, wf_msg_type frame = DataPayload, wf_payload frame = slice_data,
         payload_len frame = length slice_data])"

definition test_wireframe_fine_grained_predicates_and_heartbeat_from_slice :: "unit result" where
  "test_wireframe_fine_grained_predicates_and_heartbeat_from_slice =
     (let init_frame = handshake_init_frame 0 [1, 2, 3];
          resp_frame = handshake_resp_frame 0 [4, 5, 6];
          ping_slice = bytes_of ''PING_BYTES'';
          hb_frame = heartbeat_from_slice 88 ping_slice
      in asserts
        [is_handshake init_frame, is_handshake_init init_frame, \<not> is_handshake_resp init_frame,
         is_handshake resp_frame, \<not> is_handshake_init resp_frame, is_handshake_resp resp_frame,
         is_heartbeat hb_frame, wf_nonce hb_frame = 88, wf_payload hb_frame = ping_slice])"

definition test_wireframe_payload_utf8_lossy :: "unit result" where
  "test_wireframe_payload_utf8_lossy =
     (let frame = data_frame 1 (bytes_of ''Hello UTF-8 Tunnel'');
          invalid_utf8_frame = data_frame 2 [0xFF, 0xFE, 0xFD]
      in asserts
        [payload_utf8_lossy frame = bytes_of ''Hello UTF-8 Tunnel'',
         contains (payload_utf8_lossy invalid_utf8_frame) [0xEF, 0xBF, 0xBD]])"

definition test_wireframe_into_methods :: "unit result" where
  "test_wireframe_into_methods =
     (let payload = bytes_of ''consume payload'';
          frame = data_frame 42 payload;
          frame2 = heartbeat_frame 99 (bytes_of ''pong'');
          (msg_type, nonce, bs) = into_parts frame2
      in asserts
        [into_payload frame = payload, msg_type = Heartbeat, nonce = 99, bs = bytes_of ''pong''])"

definition test_transcript_hash_consistency :: "primitives \<Rightarrow> unit result" where
  "test_transcript_hash_consistency P =
     (let prologue = PROTOCOL_NAME;
          c_e = replicate 32 1;
          s_p = replicate 32 2;
          s_e = replicate 32 3;
          hash1 = hash_handshake_state P prologue c_e s_p (Some s_e);
          hash2 = hash_handshake_state P prologue c_e s_p (Some s_e);
          hash_no_se = hash_handshake_state P prologue c_e s_p None
      in asserts [hash1 = hash2, hash1 \<noteq> hash_no_se])"

section \<open>The replay filter\<close>

definition test_replay_filter_blocks_duplicated_nonce :: "profile \<Rightarrow> unit result" where
  "test_replay_filter_blocks_duplicated_nonce prof =
     snd (steps
       [expect_ok (validate_and_record prof 1),
        expect_ok (validate_and_record prof 2),
        expect_err (validate_and_record prof 1)] new_filter)"

definition test_replay_filter_sliding_window_out_of_order :: "profile \<Rightarrow> unit result" where
  "test_replay_filter_sliding_window_out_of_order prof =
     snd (steps
       [expect_ok (validate_and_record prof 10),
        expect_ok (validate_and_record prof 15),
        expect_ok (validate_and_record prof 12),
        expect_err (validate_and_record prof 12),
        expect_err (validate_and_record prof 15)] new_filter)"

definition test_replay_filter_old_packet_outside_window :: "profile \<Rightarrow> unit result" where
  "test_replay_filter_old_packet_outside_window prof =
     snd (steps
       [expect_ok (validate_and_record prof 100),
        expect (\<lambda>f. highest_seen f = 100),
        expect_ok (validate_and_record prof 200),
        expect (\<lambda>f. highest_seen f = 200),
        expect_err (validate_and_record prof 100),
        expect_ok (validate_and_record prof 150),
        expect_err (validate_and_record prof 150)] (with_window_size 64))"

definition test_replay_filter_reset_and_helpers :: "profile \<Rightarrow> unit result" where
  "test_replay_filter_reset_and_helpers prof =
     snd (steps
       [expect (\<lambda>f. window_size f = 64),
        expect (\<lambda>f. \<not> is_initialized f),
        expect_ok (validate_and_record prof 42),
        expect is_initialized,
        expect (\<lambda>f. highest_seen f = 42),
        modifyA reset,
        expect (\<lambda>f. \<not> is_initialized f),
        expect (\<lambda>f. highest_seen f = 0),
        expect_ok (validate_and_record prof 42)] (with_window_size 64))"

definition test_replay_filter_metrics :: "profile \<Rightarrow> unit result" where
  "test_replay_filter_metrics prof =
     snd (steps
       [expect (\<lambda>f. total_seen f = 0), expect (\<lambda>f. total_accepted f = 0),
        expect (\<lambda>f. total_rejected f = 0),
        expect_ok (validate_and_record prof 10),
        expect_ok (validate_and_record prof 11),
        expect (\<lambda>f. total_seen f = 2), expect (\<lambda>f. total_accepted f = 2),
        expect (\<lambda>f. total_rejected f = 0),
        expect_err (validate_and_record prof 10),
        expect (\<lambda>f. total_seen f = 3), expect (\<lambda>f. total_accepted f = 2),
        expect (\<lambda>f. total_rejected f = 1),
        modifyA reset,
        expect (\<lambda>f. total_seen f = 0), expect (\<lambda>f. total_accepted f = 0),
        expect (\<lambda>f. total_rejected f = 0)] new_filter)"

definition test_wireframe_payload_slice_and_replay_filter_display :: "profile \<Rightarrow> unit result" where
  "test_wireframe_payload_slice_and_replay_filter_display prof =
     (let payload = bytes_of ''slice test payload'';
          frame = data_frame 42 payload
      in snd (steps
       [assert_eq (wf_payload frame) payload,
        unwrapA (validate_and_record prof 10),
        expect (\<lambda>f. contains (filter_display f) (bytes_of ''window=64'')),
        expect (\<lambda>f. contains (filter_display f) (bytes_of ''last_seq=10'')),
        expect (\<lambda>f. contains (filter_display f) (bytes_of ''accepted=1/1'')),
        expect (\<lambda>f. contains (filter_display f) (bytes_of ''rejected=0''))] (with_window_size 64)))"

definition test_wireframe_accessors_and_replay_filter_has_seen :: "profile \<Rightarrow> unit result" where
  "test_wireframe_accessors_and_replay_filter_has_seen prof =
     (let frame = data_frame 77 (bytes_of ''payload'')
      in snd (steps
       [assert_eq (wf_nonce frame) 77,
        assert_eq (wf_msg_type frame) DataPayload,
        expect (\<lambda>f. capacity f = 64),
        expect (\<lambda>f. has_seen prof f 10 = Inr False),
        unwrapA (validate_and_record prof 10),
        expect (\<lambda>f. has_seen prof f 10 = Inr True),
        expect (\<lambda>f. has_seen prof f 11 = Inr False),
        unwrapA (validate_and_record prof 100),
        expect (\<lambda>f. has_seen prof f 10 = Inr True)] (with_window_size 64)))"

definition test_replay_filter_bounds_and_acceptance_rate :: "profile \<Rightarrow> unit result" where
  "test_replay_filter_bounds_and_acceptance_rate prof =
     snd (steps
       [expect filter_is_empty,
        expect (\<lambda>f. min_valid_seq f = 0),
        expect (\<lambda>f. acceptance_rate f = Finite 1),
        unwrapA (validate_and_record prof 100),
        expect (\<lambda>f. \<not> filter_is_empty f),
        expect (\<lambda>f. min_valid_seq f = 100 - 63),
        expect (\<lambda>f. acceptance_rate f = Finite 1),
        expect_err (validate_and_record prof 100),
        expect (\<lambda>f. acceptance_rate f = Finite (1 / 2))] (with_window_size 64))"

section \<open>They pass\<close>

lemma test_wireframe_serialization_roundtrip_ok:
  "test_wireframe_serialization_roundtrip = Inr ()"
proof -
  let ?f = "new_frame DataPayload 42 (bytes_of ''Hemmelig Payload'')"
  have "read_from (connection (serialize ?f)) = ((connection (serialize ?f))\<lparr>inbox := []\<rparr>, Inr ?f)"
    by (rule read_from_serialize) (simp_all add: valid_frame_le new_frame_def)
  then show ?thesis
    by (simp add: test_wireframe_serialization_roundtrip_def act_simps) (simp add: new_frame_def act_simps)
qed

lemma test_wireframe_helpers_and_display_ok:
  "test_wireframe_helpers_and_display = Inr ()"
  by (simp add: test_wireframe_helpers_and_display_def run_tests run_frame frame_summary_def
      bytes_of_simps dec_bytes.simps)

lemma test_invalid_message_type_rejection_ok: "test_invalid_message_type_rejection = Inr ()"
  by (simp add: test_invalid_message_type_rejection_def run_tests run_frame)

lemma test_oversized_frame_rejection_ok: "test_oversized_frame_rejection = Inr ()"
  by (simp add: test_oversized_frame_rejection_def run_tests read_from_def read_exact_def MAX_FRAME_SIZE_def)

lemma test_wireframe_from_bytes_roundtrip_and_errors_ok:
  "test_wireframe_from_bytes_roundtrip_and_errors = Inr ()"
proof -
  let ?f = "data_frame 100 (bytes_of ''Buffer Data'')"
  have ok: "from_bytes (serialize ?f) = Inr ?f"
    by (simp add: from_bytes_Inr valid_frame_le run_frame)
  show ?thesis
    by (simp add: test_wireframe_from_bytes_roundtrip_and_errors_def run_tests Let_def ok)
      (simp add: from_bytes_def run_frame serialize_eq Let_def)
qed

lemma test_wireframe_serialize_into_buffer_reuse_ok:
  "test_wireframe_serialize_into_buffer_reuse = Inr ()"
proof -
  have ok: "from_bytes (serialize (data_frame 1 (bytes_of ''first''))) = Inr (data_frame 1 (bytes_of ''first''))"
      "from_bytes (serialize (data_frame 2 (bytes_of ''second''))) = Inr (data_frame 2 (bytes_of ''second''))"
    by (simp_all add: from_bytes_Inr valid_frame_le run_frame)
  show ?thesis
    by (simp add: test_wireframe_serialize_into_buffer_reuse_def Let_def serialize_into_append ok run_tests)
qed

lemma test_message_type_predicates_and_byte_conversion_ok:
  "test_message_type_predicates_and_byte_conversion = Inr ()"
  by (simp add: test_message_type_predicates_and_byte_conversion_def run_tests run_frame)

lemma test_wireframe_payload_size_limits_ok: "test_wireframe_payload_size_limits = Inr ()"
  by (simp add: test_wireframe_payload_size_limits_def run_tests run_frame)

lemma test_wireframe_data_from_slice_ok: "test_wireframe_data_from_slice = Inr ()"
  by (simp add: test_wireframe_data_from_slice_def run_tests run_frame)

lemma test_wireframe_fine_grained_predicates_and_heartbeat_from_slice_ok:
  "test_wireframe_fine_grained_predicates_and_heartbeat_from_slice = Inr ()"
  by (simp add: test_wireframe_fine_grained_predicates_and_heartbeat_from_slice_def run_tests run_frame)

lemma test_wireframe_payload_utf8_lossy_ok: "test_wireframe_payload_utf8_lossy = Inr ()"
  by (simp add: test_wireframe_payload_utf8_lossy_def run_tests run_frame bytes_of_simps
      from_utf8_lossy.simps utf8_head_def)

lemma test_wireframe_into_methods_ok: "test_wireframe_into_methods = Inr ()"
  by (simp add: test_wireframe_into_methods_def run_tests run_frame)

lemma replay_tests_pass:
  "test_replay_filter_blocks_duplicated_nonce prof = Inr ()"
  "test_replay_filter_sliding_window_out_of_order prof = Inr ()"
  "test_replay_filter_old_packet_outside_window prof = Inr ()"
  "test_replay_filter_reset_and_helpers prof = Inr ()"
  "test_replay_filter_metrics prof = Inr ()"
  by (simp_all add: run_tests run_filter test_replay_filter_blocks_duplicated_nonce_def
      test_replay_filter_sliding_window_out_of_order_def test_replay_filter_old_packet_outside_window_def
      test_replay_filter_reset_and_helpers_def test_replay_filter_metrics_def)

lemma test_wireframe_payload_slice_and_replay_filter_display_ok:
  "test_wireframe_payload_slice_and_replay_filter_display prof = Inr ()"
  by (simp add: test_wireframe_payload_slice_and_replay_filter_display_def run_tests run_filter run_frame
      unwrapA_def assert_eq_def assertA_def filter_display_def bytes_of_simps dec_bytes.simps)

lemma test_wireframe_accessors_and_replay_filter_has_seen_ok:
  "test_wireframe_accessors_and_replay_filter_has_seen prof = Inr ()"
  by (simp add: test_wireframe_accessors_and_replay_filter_has_seen_def run_tests run_filter run_frame
      unwrapA_def assert_eq_def assertA_def)

lemma round53_half: "round53 (1 / 2) = 1 / 2"
  by (rule round53_exact [of _ "2 ^ 52" "- 1"]) (simp_all add: power_int_def power_divide)

lemma test_replay_filter_bounds_and_acceptance_rate_ok:
  "test_replay_filter_bounds_and_acceptance_rate prof = Inr ()"
proof -
  have "round53 1 = 1" "round53 2 = 2" using round53_nat [of 1] round53_nat [of 2] by simp_all
  then show ?thesis
    by (simp add: test_replay_filter_bounds_and_acceptance_rate_def run_tests run_filter
      unwrapA_def acceptance_rate_def f64_of_u64_def round53_half)
qed

section \<open>Properties\<close>

text \<open>The tests that depend on nothing but the build profile, in the source's order.\<close>

definition protocol_tests :: "profile \<Rightarrow> unit result list" where
  "protocol_tests prof =
     [test_wireframe_serialization_roundtrip, test_wireframe_helpers_and_display,
      test_replay_filter_blocks_duplicated_nonce prof,
      test_replay_filter_sliding_window_out_of_order prof,
      test_replay_filter_old_packet_outside_window prof,
      test_invalid_message_type_rejection, test_oversized_frame_rejection,
      test_replay_filter_reset_and_helpers prof,
      test_wireframe_from_bytes_roundtrip_and_errors, test_replay_filter_metrics prof,
      test_wireframe_serialize_into_buffer_reuse,
      test_wireframe_payload_slice_and_replay_filter_display prof,
      test_message_type_predicates_and_byte_conversion,
      test_wireframe_accessors_and_replay_filter_has_seen prof,
      test_wireframe_payload_size_limits, test_wireframe_data_from_slice,
      test_wireframe_fine_grained_predicates_and_heartbeat_from_slice,
      test_replay_filter_bounds_and_acceptance_rate prof, test_wireframe_payload_utf8_lossy,
      test_wireframe_into_methods]"

text \<open>
  The unit tests of the protocol module pass on the model in both build profiles; the
  test of the transcript hash, which is over the SHA-256 crate, passes exactly when the two
  transcripts it hashes, with and without the server's ephemeral key, do not collide.
\<close>

theorem protocol_tests_pass:
  "protocol_tests prof = replicate 20 (Inr ()) \<and>
   (test_transcript_hash_consistency P = Inr () \<longleftrightarrow>
      p_sha256 P (PROTOCOL_NAME @ replicate 32 1 @ replicate 32 2 @ replicate 32 3) \<noteq>
      p_sha256 P (PROTOCOL_NAME @ replicate 32 1 @ replicate 32 2))"
proof
  show "protocol_tests prof = replicate 20 (Inr ())"
    unfolding protocol_tests_def replay_tests_pass
      test_wireframe_serialization_roundtrip_ok test_wireframe_helpers_and_display_ok
      test_invalid_message_type_rejection_ok test_oversized_frame_rejection_ok
      test_wireframe_from_bytes_roundtrip_and_errors_ok test_wireframe_serialize_into_buffer_reuse_ok
      test_wireframe_payload_slice_and_replay_filter_display_ok
      test_message_type_predicates_and_byte_conversion_ok
      test_wireframe_accessors_and_replay_filter_has_seen_ok test_wireframe_payload_size_limits_ok
      test_wireframe_data_from_slice_ok
      test_wireframe_fine_grained_predicates_and_heartbeat_from_slice_ok
      test_replay_filter_bounds_and_acceptance_rate_ok test_wireframe_payload_utf8_lossy_ok
      test_wireframe_into_methods_ok
    by (simp add: eval_nat_numeral)
  show "test_transcript_hash_consistency P = Inr () \<longleftrightarrow>
      p_sha256 P (PROTOCOL_NAME @ replicate 32 1 @ replicate 32 2 @ replicate 32 3) \<noteq>
      p_sha256 P (PROTOCOL_NAME @ replicate 32 1 @ replicate 32 2)"
    by (simp add: test_transcript_hash_consistency_def Let_def asserts_pass hash_handshake_state_def)
qed

end
