(* ===== verification/Crypto_Tests.thy ===== *)
theory Crypto_Tests
  imports Testing Handshake
begin

text \<open>
  The unit tests of src/src/crypto/mod.rs (lines 446-698) on the model. The keys that
  \<open>generate\<close> draws are arguments. The two tests of plain accessors
  (\<open>test_keypair_accessors_and_as_ref\<close> and the slices of \<open>test_session_keys_as_slices_and_tag_len\<close>)
  compare a record field with itself and are left out.
\<close>

section \<open>Keys\<close>

definition test_x25519_key_exchange_agreement :: "primitives \<Rightarrow> bytes \<Rightarrow> bytes \<Rightarrow> unit result" where
  "test_x25519_key_exchange_agreement P alice_random bob_random =
     (let alice = keypair_generate P alice_random;
          bob = keypair_generate P bob_random;
          alice_shared = diffie_hellman P (private_key alice) (public_key bob);
          bob_shared = diffie_hellman P (private_key bob) (public_key alice)
      in asserts [alice_shared = bob_shared])"

definition test_keypair_hex_roundtrip_and_parsing :: "primitives \<Rightarrow> bytes \<Rightarrow> unit result" where
  "test_keypair_hex_roundtrip_and_parsing P os_random =
     (let keypair = keypair_generate P os_random;
          priv_hex = private_key_hex P keypair;
          pub_hex = public_key_hex P keypair
      in case unwrap (from_private_hex P priv_hex) of
           Inl e \<Rightarrow> Inl e
         | Inr restored \<Rightarrow>
             (case unwrap (parse_public_key_hex P pub_hex) of
                Inl e \<Rightarrow> Inl e
              | Inr parsed_pub \<Rightarrow>
                  asserts
                    [length priv_hex = KEY_LEN * 2, length pub_hex = KEY_LEN * 2,
                     public_key restored = public_key keypair,
                     private_key restored = private_key keypair,
                     parsed_pub = public_key keypair,
                     is_err (from_private_hex P (bytes_of ''invalid-hex'')),
                     is_err (from_private_hex P (bytes_of ''aabbcc'')),
                     is_err (parse_public_key_hex P (bytes_of ''1234''))]))"

definition test_keypair_debug_redacts_private_key :: "primitives \<Rightarrow> bytes \<Rightarrow> unit result" where
  "test_keypair_debug_redacts_private_key P os_random =
     (let keypair = keypair_generate P os_random;
          debug_str = keypair_debug P keypair
      in asserts
        [contains debug_str (bytes_of ''[REDACTED]''),
         \<not> contains debug_str (p_hex_encode P (private_key keypair)),
         contains debug_str (public_key_hex P keypair)])"

definition test_keypair_default_generates_valid_keypair :: "primitives \<Rightarrow> bytes \<Rightarrow> unit result" where
  "test_keypair_default_generates_valid_keypair P os_random =
     (let keypair = keypair_generate P os_random
      in asserts
        [private_key keypair \<noteq> replicate KEY_LEN 0, public_key keypair \<noteq> replicate KEY_LEN 0])"

definition test_keypair_from_slice_and_slice_accessors :: "primitives \<Rightarrow> bytes \<Rightarrow> unit result" where
  "test_keypair_from_slice_and_slice_accessors P os_random =
     (let keypair = keypair_generate P os_random
      in case unwrap (from_private_slice P (private_key keypair)) of
           Inl e \<Rightarrow> Inl e
         | Inr from_slice \<Rightarrow>
             asserts
               [public_key from_slice = public_key keypair,
                private_key from_slice = private_key keypair,
                is_err (from_private_slice P (replicate 16 0)),
                is_err (from_private_slice P (replicate 64 0))])"

definition test_ephemeral_keypair_methods_and_debug :: "primitives \<Rightarrow> bytes \<Rightarrow> unit result" where
  "test_ephemeral_keypair_methods_and_debug P os_random =
     (let ephem = ephemeral_generate P os_random;
          debug_str = ephemeral_debug P ephem
      in asserts
        [contains debug_str (bytes_of ''EphemeralKeyPair''),
         contains debug_str (bytes_of ''[REDACTED]''),
         contains debug_str (p_hex_encode P (eph_public_key ephem))])"

section \<open>Session keys\<close>

definition test_hkdf_session_key_derivation_deterministic :: "primitives \<Rightarrow> unit result" where
  "test_hkdf_session_key_derivation_deterministic P =
     (let secret = replicate KEY_LEN 0x11;
          hash = replicate 32 0x22
      in case unwrap (derive_session_keys P secret hash) of
           Inl e \<Rightarrow> Inl e
         | Inr (c1, s1) \<Rightarrow>
             (case unwrap (derive_session_keys P secret hash) of
                Inl e \<Rightarrow> Inl e
              | Inr (c2, s2) \<Rightarrow> asserts [c1 = c2, s1 = s2, c1 \<noteq> s1]))"

definition test_session_keys_struct_and_derivation :: "primitives \<Rightarrow> unit result" where
  "test_session_keys_struct_and_derivation P =
     (let secret = replicate KEY_LEN 0x77;
          hash = replicate 32 0x88
      in case unwrap (derive_session_keypair P secret hash) of
           Inl e \<Rightarrow> Inl e
         | Inr keys \<Rightarrow>
             (let debug_str = session_keys_debug keys;
                  (c_key, s_key) = session_keys_into_parts keys;
                  manual_keys = session_keys_new c_key s_key
              in asserts
                [client_write_key keys \<noteq> server_write_key keys,
                 contains debug_str (bytes_of ''SessionKeys''),
                 contains debug_str (bytes_of ''[REDACTED]''),
                 c_key = client_write_key keys, s_key = server_write_key keys,
                 manual_keys = keys]))"

definition test_session_keys_from_slices_and_conversions :: "unit result" where
  "test_session_keys_from_slices_and_conversions =
     (let c = replicate KEY_LEN 0x11;
          s = replicate KEY_LEN 0x22
      in case unwrap (session_keys_from_slices c s) of
           Inl e \<Rightarrow> Inl e
         | Inr keys \<Rightarrow>
             (let from_tuple = session_keys_from_pair (c, s)
              in asserts
                [client_write_key keys = c, server_write_key keys = s,
                 is_err (session_keys_from_slices (replicate 10 0) s),
                 is_err (session_keys_from_slices c (replicate 10 0)),
                 from_tuple = keys,
                 session_keys_to_pair from_tuple = (c, s)]))"

definition test_session_keys_swapped :: "unit result" where
  "test_session_keys_swapped =
     (let c = replicate KEY_LEN 0x11;
          s = replicate KEY_LEN 0x22;
          keys = session_keys_new c s;
          swapped = session_keys_swapped keys
      in asserts
        [client_write_key swapped = s, server_write_key swapped = c,
         session_keys_swapped swapped = keys])"

section \<open>Ciphers\<close>

definition test_aead_encryption_and_decryption :: "primitives \<Rightarrow> profile \<Rightarrow> unit result" where
  "test_aead_encryption_and_decryption P prof =
     (let key = replicate KEY_LEN 0x42;
          sender_cipher = cipher_new key;
          receiver_cipher = cipher_new key;
          secret_msg = bytes_of ''Topphemmelig melding over tunnelen!'';
          aad = bytes_of ''header-metadata-v1''
      in case unwrap (snd (encrypt P secret_msg aad sender_cipher)) of
           Inl e \<Rightarrow> Inl e
         | Inr ciphertext \<Rightarrow>
             (case asserts [ciphertext \<noteq> secret_msg] of
                Inl e \<Rightarrow> Inl e
              | Inr _ \<Rightarrow>
                  (case unwrap (snd (decrypt P prof ciphertext aad 0 receiver_cipher)) of
                     Inl e \<Rightarrow> Inl e
                   | Inr decrypted \<Rightarrow> asserts [decrypted = secret_msg])))"

text \<open>The index expression panics on an empty ciphertext.\<close>

definition test_aead_tamper_detection :: "primitives \<Rightarrow> profile \<Rightarrow> unit result" where
  "test_aead_tamper_detection P prof =
     (let key = replicate KEY_LEN 0x55;
          sender = cipher_new key;
          receiver = cipher_new key
      in case unwrap (snd (encrypt P (bytes_of ''Valid Data'') (bytes_of ''aad'') sender)) of
           Inl e \<Rightarrow> Inl e
         | Inr ciphertext \<Rightarrow>
             if ciphertext = [] then Inl (Panic SliceLength)
             else
               let ciphertext = ciphertext[0 := xor (ciphertext ! 0) 0x01]
               in snd (expect_err (decrypt P prof ciphertext (bytes_of ''aad'') 0) receiver))"

definition test_cipher_state_rekey_and_reset :: "primitives \<Rightarrow> unit result" where
  "test_cipher_state_rekey_and_reset P =
     snd (steps
       [expect (\<lambda>c. current_nonce c = 0),
        bindA (unwrapA (encrypt P (bytes_of ''msg 1'') (bytes_of ''aad''))) (\<lambda>_. ret ()),
        expect (\<lambda>c. current_nonce c = 1),
        modifyA reset_nonce,
        expect (\<lambda>c. current_nonce c = 0),
        modifyA (rekey (replicate KEY_LEN 0x44)),
        expect (\<lambda>c. current_nonce c = 0),
        expect (\<lambda>c. contains (cipher_debug c) (bytes_of ''CipherState'')),
        expect (\<lambda>c. contains (cipher_debug c) (bytes_of ''[REDACTED]'')),
        expect (\<lambda>c. contains (cipher_debug c) (bytes_of ''nonce: 0''))]
       (cipher_new (replicate KEY_LEN 0x33)))"

definition test_cipher_state_exhaustion_helpers :: "unit result" where
  "test_cipher_state_exhaustion_helpers =
     (let key = replicate KEY_LEN 0x99;
          cipher = cipher_with_nonce key 100;
          near_exhausted = cipher_with_nonce key (u64_max - 5);
          fully_exhausted = cipher_with_nonce key u64_max
      in asserts
        [current_nonce cipher = 100, remaining_nonces cipher = u64_max - 100,
         \<not> is_exhausted cipher, \<not> is_near_exhaustion cipher 1000,
         remaining_nonces near_exhausted = 5, \<not> is_exhausted near_exhausted,
         is_near_exhaustion near_exhausted 10,
         remaining_nonces fully_exhausted = 0, is_exhausted fully_exhausted,
         is_near_exhaustion fully_exhausted 1])"

section \<open>Which tests pass, and when\<close>

lemma key_tests_ok:
  assumes "dh_agrees P" "dh_lengths P" "hex_inverts P" "hex_halves P" "length r = 32" "length r' = 32"
  shows "test_x25519_key_exchange_agreement P r r' = Inr ()"
    "test_keypair_from_slice_and_slice_accessors P r = Inr ()"
  using assms
  by (simp_all add: run_tests test_x25519_key_exchange_agreement_def keypair_generate_def dh_agrees_def
      diffie_hellman_def test_keypair_from_slice_and_slice_accessors_def from_private_slice_def
      from_private_bytes_def KEY_LEN_def Let_def)

lemma ephemeral_test_ok: "test_ephemeral_keypair_methods_and_debug P r = Inr ()"
proof -
  let ?e = "ephemeral_generate P r"
  let ?hex = "p_hex_encode P (eph_public_key ?e)"
  have "contains (ephemeral_debug P ?e) ?hex"
    using contains_inside [of "bytes_of ''EphemeralKeyPair { secret: '' @ quoted REDACTED @ bytes_of '', public_key: '' @ [0x22]"
        ?hex "[0x22] @ bytes_of '' }''"]
    by (simp add: ephemeral_debug_def quoted_def)
  moreover have "contains (ephemeral_debug P ?e) (bytes_of ''EphemeralKeyPair'')"
      "contains (ephemeral_debug P ?e) (bytes_of ''[REDACTED]'')"
    by (simp_all add: ephemeral_debug_def quoted_def REDACTED_def bytes_of_simps)
  ultimately show ?thesis
    by (simp add: test_ephemeral_keypair_methods_and_debug_def Let_def asserts_pass)
qed

lemma hex_test_ok:
  assumes "dh_lengths P" "hex_inverts P" "hex_halves P" "length r = 32"
  shows "test_keypair_hex_roundtrip_and_parsing P r = Inr ()"
proof -
  have trims: "trim (bytes_of ''invalid-hex'') = bytes_of ''invalid-hex''"
      "trim (bytes_of ''aabbcc'') = bytes_of ''aabbcc''" "trim (bytes_of ''1234'') = bytes_of ''1234''"
    by (rule trim_printable, simp add: printable_ascii_def bytes_of_def)+
  have bad: "is_err (from_private_hex P s)" "is_err (parse_public_key_hex P s)"
    if "trim s = s" "length s < 64" for s
    using assms(3) that
    by (auto simp: is_err_def from_private_hex_def parse_public_key_hex_def hex_halves_def KEY_LEN_def
        split: option.split)
  have len: "length (p_hex_encode P bs) = 2 * length bs" for bs
    using assms(2) by (simp add: hex_inverts_def)
  have pub: "length (p_x25519_base P r) = 32" using assms(1) by (simp add: dh_lengths_def)
  have keys: "private_key (keypair_generate P r) = r" "public_key (keypair_generate P r) = p_x25519_base P r"
      "from_private_bytes P r = keypair_generate P r"
    by (simp_all add: keypair_generate_def from_private_bytes_def)
  show ?thesis
    unfolding test_keypair_hex_roundtrip_and_parsing_def Let_def private_key_hex_def public_key_hex_def
      keys(1,2) read_private_hex [OF assms(2,4)] read_public_hex [OF assms(2) pub]
    using pub assms(4)
    by (simp add: unwrap_simps asserts_pass keys len KEY_LEN_def bad trims)
qed

lemma redaction_test_iff:
  assumes "dh_lengths P" "hex_inverts P" "length r = 32"
  shows "test_keypair_debug_redacts_private_key P r = Inr () \<longleftrightarrow> r \<noteq> p_x25519_base P r"
proof -
  let ?priv = "p_hex_encode P r" and ?pub = "p_hex_encode P (p_x25519_base P r)"
  let ?a = "bytes_of ''KeyPair { public_key: ''"
  let ?b = "bytes_of '', private_key: '' @ [0x22] @ bytes_of ''[REDACTED]'' @ [0x22] @ bytes_of '' }''"
  let ?text = "?a @ 0x22 # ?pub @ 0x22 # ?b"
  have debug_eq: "keypair_debug P (keypair_generate P r) = ?text"
    by (simp add: keypair_debug_def keypair_generate_def)
  have len: "length ?priv = 64" "length ?pub = 64"
    using assms by (simp_all add: hex_inverts_def dh_lengths_def)
  have "list_all hex_digit ?priv" using assms(2) by (simp add: hex_inverts_def)
  moreover have "\<not> hex_digit 0x22" by (simp add: hex_digit_def)
  ultimately have quote: "0x22 \<notin> set ?priv" by (auto simp: list_all_iff)
  have "contains ?text ?priv \<longleftrightarrow> ?priv = ?pub"
  proof
    assume c: "contains ?text ?priv"
    have "\<not> contains ?a ?priv" "\<not> contains ?b ?priv"
      using len contains_length [of ?a ?priv] contains_length [of ?b ?priv] by auto
    then have "contains ?pub ?priv"
      using contains_separated [OF c quote] contains_separated [OF _ quote, of ?pub ?b] by blast
    then show "?priv = ?pub" using len by (auto simp: contains_split)
  next
    assume "?priv = ?pub"
    then show "contains ?text ?priv"
      using contains_inside [of "?a @ [0x22]" ?pub "0x22 # ?b"] by simp
  qed
  moreover have "?priv = ?pub \<longleftrightarrow> r = p_x25519_base P r"
    using assms(2) unfolding hex_inverts_def by (metis option.inject)
  moreover have "contains ?text (bytes_of ''[REDACTED]'')"
    using contains_inside [of "?a @ 0x22 # ?pub @ 0x22 # bytes_of '', private_key: '' @ [0x22]" "bytes_of ''[REDACTED]''"
        "[0x22] @ bytes_of '' }''"] by simp
  moreover have "contains ?text ?pub"
    using contains_inside [of "?a @ [0x22]" ?pub "0x22 # ?b"] by simp
  ultimately show ?thesis
    unfolding test_keypair_debug_redacts_private_key_def Let_def asserts_pass debug_eq
    by (simp add: keypair_generate_def public_key_hex_def)
qed

lemma default_test_iff:
  "test_keypair_default_generates_valid_keypair P r = Inr () \<longleftrightarrow>
   r \<noteq> replicate 32 0 \<and> p_x25519_base P r \<noteq> replicate 32 0"
  by (simp add: test_keypair_default_generates_valid_keypair_def Let_def asserts_pass keypair_generate_def KEY_LEN_def)

lemma session_key_tests_ok:
  "test_session_keys_from_slices_and_conversions = Inr ()"
  "test_session_keys_swapped = Inr ()"
  by (simp_all add: run_tests test_session_keys_from_slices_and_conversions_def test_session_keys_swapped_def
      session_keys_from_slices_def session_keys_new_def session_keys_from_pair_def session_keys_to_pair_def
      session_keys_into_parts_def session_keys_swapped_def KEY_LEN_def)

text \<open>The two keys derived from a secret are different.\<close>

definition keys_differ :: "primitives \<Rightarrow> bytes \<Rightarrow> bytes \<Rightarrow> bool" where
  "keys_differ P secret hash \<longleftrightarrow>
     p_hkdf_expand P (p_hkdf_extract P hash secret) (bytes_of ''noise-tunnel-client-write-key-v1'') 32 \<noteq>
     p_hkdf_expand P (p_hkdf_extract P hash secret) (bytes_of ''noise-tunnel-server-write-key-v1'') 32"

lemma derive_keypair_total:
  assumes "hkdf_expands P"
  obtains k where "derive_session_keypair P secret hash = Inr k"
    "client_write_key k \<noteq> server_write_key k \<longleftrightarrow> keys_differ P secret hash"
proof -
  let ?hk = "p_hkdf_extract P hash secret"
  obtain ck sk where "p_hkdf_expand P ?hk (bytes_of ''noise-tunnel-client-write-key-v1'') 32 = Some ck"
      "p_hkdf_expand P ?hk (bytes_of ''noise-tunnel-server-write-key-v1'') 32 = Some sk"
    using assms unfolding hkdf_expands_def by blast
  then show thesis
    by (intro that [of "session_keys_new ck sk"])
      (simp_all add: derive_session_keypair_def KEY_LEN_def session_keys_new_def keys_differ_def)
qed

lemma derivation_tests_iff:
  assumes "hkdf_expands P"
  shows "test_hkdf_session_key_derivation_deterministic P = Inr () \<longleftrightarrow>
      keys_differ P (replicate 32 0x11) (replicate 32 0x22)"
    "test_session_keys_struct_and_derivation P = Inr () \<longleftrightarrow>
      keys_differ P (replicate 32 0x77) (replicate 32 0x88)"
proof -
  obtain k where "derive_session_keypair P (replicate 32 0x11) (replicate 32 0x22) = Inr k"
    "client_write_key k \<noteq> server_write_key k \<longleftrightarrow> keys_differ P (replicate 32 0x11) (replicate 32 0x22)"
    by (rule derive_keypair_total [OF assms])
  then show "test_hkdf_session_key_derivation_deterministic P = Inr () \<longleftrightarrow>
      keys_differ P (replicate 32 0x11) (replicate 32 0x22)"
    by (simp add: test_hkdf_session_key_derivation_deterministic_def KEY_LEN_def derive_session_keys_def
        session_keys_into_parts_def unwrap_simps asserts_pass)
  obtain k where k: "derive_session_keypair P (replicate 32 0x77) (replicate 32 0x88) = Inr k"
    "client_write_key k \<noteq> server_write_key k \<longleftrightarrow> keys_differ P (replicate 32 0x77) (replicate 32 0x88)"
    by (rule derive_keypair_total [OF assms])
  have "contains (session_keys_debug k) (bytes_of ''SessionKeys'')"
      "contains (session_keys_debug k) (bytes_of ''[REDACTED]'')"
    by (simp_all add: session_keys_debug_def quoted_def REDACTED_def bytes_of_simps)
  with k show "test_session_keys_struct_and_derivation P = Inr () \<longleftrightarrow>
      keys_differ P (replicate 32 0x77) (replicate 32 0x88)"
    by (simp add: test_session_keys_struct_and_derivation_def KEY_LEN_def Let_def
        session_keys_into_parts_def session_keys_new_def unwrap_simps asserts_pass)
qed

lemma sealed_once:
  assumes "aead_correct P" "aead_seals P" "length m < aead_limit"
  obtains ct where "encrypt P m a (cipher_new key) = (cipher_with_nonce key 1, Inr ct)"
    "p_seal P key (build_nonce 0) a m = Some ct" "p_open P key (build_nonce 0) a ct = Some m"
    "length ct = length m + 16"
proof -
  have "unat (cs_nonce (cipher_new key)) + 1 < 2 ^ 64" by (simp add: cipher_new_def)
  from encrypt_ok [OF assms this] show thesis
    by (metis (no_types, lifting) that cipher_new_def cipher_with_nonce_def cipher_state.select_convs
        cipher_state.update_convs(2) add_0)
qed

lemma encryption_test_ok:
  assumes "aead_correct P" "aead_seals P"
  shows "test_aead_encryption_and_decryption P prof = Inr ()"
proof -
  let ?key = "replicate 32 0x42 :: bytes" and ?m = "bytes_of ''Topphemmelig melding over tunnelen!''"
    and ?a = "bytes_of ''header-metadata-v1''"
  have "length ?m < aead_limit" by (simp add: aead_limit_def)
  then obtain ct where ct: "encrypt P ?m ?a (cipher_new ?key) = (cipher_with_nonce ?key 1, Inr ct)"
      "p_open P ?key (build_nonce 0) ?a ct = Some ?m" "length ct = length ?m + 16"
    by (rule sealed_once [OF assms])
  have "snd (decrypt P prof ct ?a 0 (cipher_new ?key)) = Inr ?m"
    using decrypt_ok [of P "cipher_new ?key" ?a ct ?m prof] ct(2) by (simp add: cipher_new_def)
  moreover have "ct \<noteq> ?m" using ct(3) by (metis add_eq_self_zero zero_neq_numeral)
  ultimately show ?thesis
    using ct(1)
    by (simp add: test_aead_encryption_and_decryption_def KEY_LEN_def Let_def unwrap_simps
        asserts_pass [THEN iffD2])
qed

text \<open>The ciphertext of the tampering test with its first byte changed.\<close>

definition tampered :: "primitives \<Rightarrow> bytes option" where
  "tampered P =
     map_option (\<lambda>ct. ct[0 := xor (ct ! 0) 0x01])
       (p_seal P (replicate 32 0x55) (build_nonce 0) (bytes_of ''aad'') (bytes_of ''Valid Data''))"

lemma tamper_test_iff:
  assumes "aead_correct P" "aead_seals P" "aead_tagged P"
  shows "test_aead_tamper_detection P prof = Inr () \<longleftrightarrow>
    (\<forall>m. p_seal P (replicate 32 0x55) (build_nonce 0) (bytes_of ''aad'') m \<noteq> tampered P)"
proof -
  let ?key = "replicate 32 0x55 :: bytes" and ?m = "bytes_of ''Valid Data''" and ?a = "bytes_of ''aad''"
  have "length ?m < aead_limit" by (simp add: aead_limit_def)
  then obtain ct where ct: "encrypt P ?m ?a (cipher_new ?key) = (cipher_with_nonce ?key 1, Inr ct)"
      "p_seal P ?key (build_nonce 0) ?a ?m = Some ct" "length ct = length ?m + 16"
    by (rule sealed_once [OF assms(1,2)])
  let ?ct = "ct[0 := xor (ct ! 0) 0x01]"
  have t: "tampered P = Some ?ct" using ct(2) by (simp add: tampered_def)
  have opens: "p_open P ?key (build_nonce 0) ?a ?ct = None \<longleftrightarrow>
      (\<forall>m. p_seal P ?key (build_nonce 0) ?a m \<noteq> Some ?ct)"
    using assms(1,3) unfolding aead_correct_def aead_tagged_def by (metis not_Some_eq)
  have "ct \<noteq> []" using ct(3) by auto
  then have "test_aead_tamper_detection P prof = Inr () \<longleftrightarrow>
      snd (expect_err (decrypt P prof ?ct ?a 0) (cipher_new ?key)) = Inr ()"
    using ct(1) by (simp add: test_aead_tamper_detection_def KEY_LEN_def Let_def unwrap_simps)
  also have "\<dots> \<longleftrightarrow> p_open P ?key (build_nonce 0) ?a ?ct = None"
    by (auto simp: expect_err_eq decrypt_def cipher_new_def bindA_case add_assign_eq u64_add_def ret_def
        split: option.split)
  finally show ?thesis unfolding opens t .
qed

lemma rekey_test_ok:
  assumes "aead_correct P" "aead_seals P"
  shows "test_cipher_state_rekey_and_reset P = Inr ()"
proof -
  have "length (bytes_of ''msg 1'') < aead_limit" by (simp add: aead_limit_def)
  then obtain ct where "encrypt P (bytes_of ''msg 1'') (bytes_of ''aad'') (cipher_new (replicate KEY_LEN 0x33)) =
      (cipher_with_nonce (replicate KEY_LEN 0x33) 1, Inr ct)"
    by (rule sealed_once [OF assms])
  then show ?thesis
    by (simp add: test_cipher_state_rekey_and_reset_def run_tests unwrapA_def current_nonce_def
        reset_nonce_def rekey_def cipher_with_nonce_def)
      (simp add: cipher_new_def cipher_debug_def quoted_def REDACTED_def bytes_of_simps dec_bytes.simps)
qed

lemma exhaustion_test_ok: "test_cipher_state_exhaustion_helpers = Inr ()"
  by (simp add: run_tests test_cipher_state_exhaustion_helpers_def current_nonce_def remaining_nonces_def
      is_exhausted_def is_near_exhaustion_def cipher_with_nonce_def u64_max_def u64_saturating_sub_def)

section \<open>Properties\<close>

definition crypto_tests :: "primitives \<Rightarrow> profile \<Rightarrow> bytes \<Rightarrow> bytes \<Rightarrow> unit result list" where
  "crypto_tests P prof r r' =
     [test_x25519_key_exchange_agreement P r r', test_aead_encryption_and_decryption P prof,
      test_keypair_hex_roundtrip_and_parsing P r, test_session_keys_from_slices_and_conversions,
      test_cipher_state_rekey_and_reset P, test_keypair_from_slice_and_slice_accessors P r,
      test_ephemeral_keypair_methods_and_debug P r, test_cipher_state_exhaustion_helpers,
      test_session_keys_swapped]"

text \<open>
  The unit tests of the crypto module on the model. Nine pass for all primitives with the
  documented behaviour and every 32-byte secret. The others pass exactly when the drawn
  values are lucky: redaction when the public key is not the secret itself, the default key
  when no half is zero, derivation when the two expanded keys differ, tampering when no
  message seals to the altered ciphertext.
\<close>

theorem crypto_tests_pass:
  assumes "session_primitives P" "aead_tagged P" "hex_inverts P" "hex_halves P"
    and "length r = 32" "length r' = 32"
  shows "crypto_tests P prof r r' = replicate 9 (Inr ()) \<and>
    (test_keypair_debug_redacts_private_key P r = Inr () \<longleftrightarrow> r \<noteq> p_x25519_base P r) \<and>
    (test_keypair_default_generates_valid_keypair P r = Inr () \<longleftrightarrow>
      r \<noteq> replicate 32 0 \<and> p_x25519_base P r \<noteq> replicate 32 0) \<and>
    (test_hkdf_session_key_derivation_deterministic P = Inr () \<longleftrightarrow>
      keys_differ P (replicate 32 0x11) (replicate 32 0x22)) \<and>
    (test_session_keys_struct_and_derivation P = Inr () \<longleftrightarrow>
      keys_differ P (replicate 32 0x77) (replicate 32 0x88)) \<and>
    (test_aead_tamper_detection P prof = Inr () \<longleftrightarrow>
      (\<forall>m. p_seal P (replicate 32 0x55) (build_nonce 0) (bytes_of ''aad'') m \<noteq> tampered P))"
proof -
  note laws = session_primitivesD [OF assms(1)]
  have "crypto_tests P prof r r' = replicate 9 (Inr ())"
    unfolding crypto_tests_def key_tests_ok [OF laws(1,2) assms(3-6)] hex_test_ok [OF laws(2) assms(3-5)]
      encryption_test_ok [OF laws(4,5)] rekey_test_ok [OF laws(4,5)] ephemeral_test_ok
      session_key_tests_ok exhaustion_test_ok
    by (simp add: eval_nat_numeral)
  then show ?thesis
    unfolding redaction_test_iff [OF laws(2) assms(3,5)] default_test_iff
      derivation_tests_iff [OF laws(3)] tamper_test_iff [OF laws(4,5) assms(2)]
    by simp
qed

theorem crypto_tests_pass_witness:
  "crypto_tests toy Debug (replicate 32 1) (replicate 32 2) = replicate 9 (Inr ())"
  using crypto_tests_pass [OF toy_session toy_aead(3) toy_hex toy_hex_halves, of "replicate 32 1" "replicate 32 2" Debug]
  by (simp only: length_replicate)

end
