(* ===== verification/Object_Tests.thy ===== *)
theory Object_Tests
  imports Testing Server
begin

text \<open>
  The unit tests of the session metrics (src/src/stats.rs 138-182), the server object
  (src/src/server.rs 310-355) and the error type (src/src/error.rs 51-82) on the model. Clock
  readings and the printed duration are arguments.
\<close>

definition test_session_metrics_recording_and_reset ::
  "profile \<Rightarrow> (nat \<Rightarrow> nat) \<Rightarrow> bytes \<Rightarrow> unit result" where
  "test_session_metrics_recording_and_reset prof now elapsed_text =
     snd (steps
       [expect (\<lambda>m. total_bytes prof m = Some 0), expect (\<lambda>m. total_frames prof m = Some 0),
        record_tx prof 100 (now 1),
        record_tx prof 250 (now 2),
        expect (\<lambda>m. bytes_sent m = 350), expect (\<lambda>m. frames_sent m = 2),
        record_rx prof 500 (now 3),
        expect (\<lambda>m. bytes_received m = 500), expect (\<lambda>m. frames_received m = 1),
        expect (\<lambda>m. total_bytes prof m = Some 850), expect (\<lambda>m. total_frames prof m = Some 3),
        bindA (bindA (getsA (metrics_display prof elapsed_text)) arithA) (\<lambda>display_str.
          steps
            [assertA (contains display_str (bytes_of ''TX: 2 frames (350 B)'')),
             assertA (contains display_str (bytes_of ''RX: 1 frames (500 B)'')),
             assertA (contains display_str (bytes_of ''Total: 850 B''))]),
        modifyA (metrics_reset (now 4)),
        expect (\<lambda>m. total_bytes prof m = Some 0), expect (\<lambda>m. total_frames prof m = Some 0),
        expect (\<lambda>m. bytes_sent m = 0), expect (\<lambda>m. bytes_received m = 0)]
       (metrics_new (now 0)))"

text \<open>\<open>rate >= 0.0\<close>\<close>

fun f64_nonneg :: "f64 \<Rightarrow> bool" where
  "f64_nonneg (Finite a) = (0 \<le> a)"
| "f64_nonneg PosInf = True"
| "f64_nonneg NaN = False"

definition test_session_metrics_rates :: "profile \<Rightarrow> (nat \<Rightarrow> nat) \<Rightarrow> unit result" where
  "test_session_metrics_rates prof now =
     snd (steps
       [record_tx prof 1024 (now 1),
        record_rx prof 2048 (now 2),
        bindA (bindA (getsA (\<lambda>m. bytes_per_sec prof m (now 3))) arithA) (\<lambda>r. assertA (f64_nonneg r)),
        bindA (bindA (getsA (\<lambda>m. frames_per_sec prof m (now 4))) arithA) (\<lambda>r. assertA (f64_nonneg r)),
        expect (\<lambda>m. total_bytes prof m = Some 3072), expect (\<lambda>m. total_frames prof m = Some 2)]
       (metrics_new (now 0)))"

definition test_server_capacity_and_reset :: "primitives \<Rightarrow> bytes \<Rightarrow> unit result" where
  "test_server_capacity_and_reset P os_random =
     (let keypair = keypair_generate P os_random;
          addr = bytes_of ''127.0.0.1:9090''
      in snd (steps
       [expect (\<lambda>s. ts_max_connections s = Some 5), expect (\<lambda>s. available_capacity s = Some 5),
        expect (\<lambda>s. \<not> is_at_capacity s), expect (\<lambda>s. \<not> has_active_connections s), expect is_idle,
        modifyA (\<lambda>s. s\<lparr>ts_active := 3\<rparr>),
        expect (\<lambda>s. active_connections s = 3), expect (\<lambda>s. available_capacity s = Some 2),
        expect has_active_connections, expect (\<lambda>s. \<not> is_idle s), expect (\<lambda>s. \<not> is_at_capacity s),
        modifyA (\<lambda>s. s\<lparr>ts_active := 5\<rparr>),
        expect (\<lambda>s. available_capacity s = Some 0), expect is_at_capacity, expect (\<lambda>s. \<not> is_idle s),
        modifyA reset_connections,
        expect (\<lambda>s. active_connections s = 0), expect (\<lambda>s. available_capacity s = Some 5),
        expect is_idle]
       (server_with_max_connections 5 (server_new keypair addr))))"

definition test_server_unlimited_capacity :: "primitives \<Rightarrow> bytes \<Rightarrow> unit result" where
  "test_server_unlimited_capacity P os_random =
     (let keypair = keypair_generate P os_random;
          addr = bytes_of ''127.0.0.1:9090'';
          server = server_new keypair addr
      in asserts
        [ts_max_connections server = None, available_capacity server = None,
         \<not> is_at_capacity server, is_idle server])"

definition test_error_display_formatting :: "unit result" where
  "test_error_display_formatting =
     (let crypto_err = TE_Crypto (bytes_of ''Ugyldig MAC'');
          replay_err = TE_Replay 42 (bytes_of ''Duplikat'');
          len_err = TE_InvalidLength 32 16;
          cap_err = TE_CapacityExceeded 100
      in asserts
        [tunnel_error_display crypto_err = bytes_of ''Kryptografisk feil: Ugyldig MAC'',
         contains (tunnel_error_display replay_err) (bytes_of ''sekvensnummer 42''),
         contains (tunnel_error_display replay_err) (bytes_of ''Duplikat''),
         tunnel_error_display len_err =
           bytes_of ''Ugyldig datalengde: forventet 32 bytes, mottok 16 bytes'',
         tunnel_error_display cap_err =
           bytes_of ''Maksimal serverkapasitet n'' @ [0xC3, 0xA5] @ bytes_of ''dd (100 forbindelser)''])"

section \<open>They pass\<close>

lemma metrics_test_ok: "test_session_metrics_recording_and_reset prof now elapsed_text = Inr ()"
  by (simp add: test_session_metrics_recording_and_reset_def run_tests assertA_def metrics_new_def
      record_tx_def record_rx_def total_bytes_def total_frames_def metrics_reset_def
      metrics_display_def bytes_of_simps dec_bytes.simps)

lemma server_tests_ok:
  "test_server_capacity_and_reset P r = Inr ()"
  "test_server_unlimited_capacity P r = Inr ()"
  by (simp_all add: test_server_capacity_and_reset_def test_server_unlimited_capacity_def run_tests
      server_new_def server_with_max_connections_def available_capacity_def is_at_capacity_def
      has_active_connections_def is_idle_def active_connections_def reset_connections_def
      u64_saturating_sub_def)

lemma error_test_ok: "test_error_display_formatting = Inr ()"
  by (simp add: test_error_display_formatting_def run_tests bytes_of_simps dec_bytes.simps)

lemma rates_test_ok: "test_session_metrics_rates prof now = Inr ()"
proof -
  let ?m = "(metrics_new (now 0))\<lparr>bytes_sent := 1024, frames_sent := 1,
    bytes_received := 2048, frames_received := 1, last_activity := now 2\<rparr>"
  have totals: "total_bytes prof ?m = Some 3072" "total_frames prof ?m = Some 2"
    by (simp_all add: total_bytes_def total_frames_def u64_add_def metrics_new_def)
  obtain a b where rates: "bytes_per_sec prof ?m (now 3) = Some (Finite a)" "0 \<le> a"
      "frames_per_sec prof ?m (now 4) = Some (Finite b)" "0 \<le> b"
    using rates_defined(1) [OF totals(1)] rates_defined(2) [OF totals(2)] by meson
  have run: "record_tx prof 1024 (now 1) (metrics_new (now 0)) =
      ((metrics_new (now 0))\<lparr>bytes_sent := 1024, frames_sent := 1, last_activity := now 1\<rparr>, Inr ())"
    "record_rx prof 2048 (now 2)
      ((metrics_new (now 0))\<lparr>bytes_sent := 1024, frames_sent := 1, last_activity := now 1\<rparr>) = (?m, Inr ())"
    by (simp_all add: record_tx_def record_rx_def run_tests metrics_new_def)
  show ?thesis
    by (simp add: test_session_metrics_rates_def bindA_case run getsA_def arithA_def rates totals
        assertA_def expect_eq ret_def del: One_nat_def)
qed

section \<open>Properties\<close>

text \<open>
  The unit tests of the session metrics, the server object and the error type pass on the
  model: in both build profiles, for every reading of the clock, every text of the elapsed
  time and every server key.
\<close>

theorem object_tests_pass:
  "[test_session_metrics_recording_and_reset prof now elapsed_text, test_session_metrics_rates prof now,
    test_server_capacity_and_reset P r, test_server_unlimited_capacity P r,
    test_error_display_formatting] = replicate 5 (Inr ())"
  unfolding metrics_test_ok rates_test_ok server_tests_ok error_test_ok
  by (simp add: eval_nat_numeral)

end
