(* ===== verification/Session_Tests.thy ===== *)
theory Session_Tests
  imports Testing Dialogue Replayed
begin

text \<open>
  The integration tests that open a connection to the server themselves and speak the
  protocol by hand (src/tests/integration_tunnel.rs): handshake, heartbeats, a replayed
  packet, a malformed first frame, and a longer session over a reused buffer. A test is an
  action on its connection; an assertion that fails is a panic.
\<close>

section \<open>The tests\<close>

text \<open>
  The four tests with a handshake write it out in the same way. They differ in how the first
  frame is sent, in whether the type of the response is asserted, and in whether the
  acknowledgement is opened and compared.
\<close>

definition handshake_by_hand ::
  "primitives \<Rightarrow> profile \<Rightarrow> (wire_frame \<Rightarrow> (net, unit) act) \<Rightarrow> bool \<Rightarrow> bool \<Rightarrow> bytes \<Rightarrow> bytes \<Rightarrow>
   (net, cipher_state \<times> cipher_state) act" where
  "handshake_by_hand P prof send check_type check_ack server_public os_random =
     (let client_ephem = ephemeral_generate P os_random;
          dh_static = ephemeral_diffie_hellman P client_ephem server_public;
          h1 = hash_handshake_state P PROTOCOL_NAME (eph_public_key client_ephem) server_public None
      in
      bindA (liftA (derive_session_keys P dh_static h1)) (\<lambda>(k_init_c, _).
      bindA (on_local (cipher_new k_init_c) (encrypt P INIT_TEXT h1)) (\<lambda>init_ciphertext.
      bindA (send (handshake_init_frame 0 (eph_public_key client_ephem @ init_ciphertext))) (\<lambda>_.
      bindA read_from (\<lambda>resp_frame.
      bindA (assertA (check_type \<longrightarrow> wf_msg_type resp_frame = HandshakeResp)) (\<lambda>_.
      if length (wf_payload resp_frame) < KEY_LEN then throw (Panic SliceLength)
      else
        let server_ephem_pub = take KEY_LEN (wf_payload resp_frame);
            resp_ciphertext = drop KEY_LEN (wf_payload resp_frame);
            dh_ephem = ephemeral_diffie_hellman P client_ephem server_ephem_pub;
            h2 = hash_handshake_state P PROTOCOL_NAME (eph_public_key client_ephem) server_public
                   (Some server_ephem_pub)
        in
        bindA (if check_ack then
                 bindA (liftA (derive_session_keys P dh_ephem h2)) (\<lambda>(_, k_resp_s).
                 bindA (on_local (cipher_new k_resp_s) (decrypt P prof resp_ciphertext h2 0)) (\<lambda>ack.
                 assert_eq ack ACK_TEXT))
               else ret ()) (\<lambda>_.
        bindA (liftA (derive_session_keys P (dh_static @ dh_ephem) h2)) (\<lambda>(client_write_key, server_write_key).
        ret (cipher_new client_write_key, cipher_new server_write_key)))))))))"

text \<open>After the handshake a test holds the connection, its two ciphers and a replay filter.\<close>

record peer =
  t_net :: net
  t_tx :: cipher_state
  t_rx :: cipher_state
  t_filter :: replay_filter

definition with_ciphers :: "(peer, unit) act \<Rightarrow> cipher_state \<times> cipher_state \<Rightarrow> (net, unit) act" where
  "with_ciphers body = (\<lambda>(tx, rx) stream.
     case body \<lparr>t_net = stream, t_tx = tx, t_rx = rx, t_filter = new_filter\<rparr> of (t, r) \<Rightarrow> (t_net t, r))"

definition send_frame :: "wire_frame \<Rightarrow> (peer, unit) act" where
  "send_frame f = onA t_net t_net_update (write_to f)"

definition receive_frame :: "(peer, wire_frame) act" where
  "receive_frame = onA t_net t_net_update read_from"

definition seal_next :: "primitives \<Rightarrow> bytes \<Rightarrow> bytes \<Rightarrow> (peer, bytes) act" where
  "seal_next P m aad = onA t_tx t_tx_update (encrypt P m aad)"

definition open_frame :: "primitives \<Rightarrow> profile \<Rightarrow> wire_frame \<Rightarrow> bytes \<Rightarrow> (peer, bytes) act" where
  "open_frame P prof f aad = onA t_rx t_rx_update (decrypt P prof (wf_payload f) aad (wf_nonce f))"

definition next_number :: "(peer, u64) act" where
  "next_number = getsA (\<lambda>t. current_nonce (t_tx t))"

definition test_heartbeat_and_session_lifecycle ::
  "primitives \<Rightarrow> profile \<Rightarrow> bytes \<Rightarrow> bytes \<Rightarrow> (net, unit) act" where
  "test_heartbeat_and_session_lifecycle P prof server_public os_random =
     bindA (handshake_by_hand P prof write_to True True server_public os_random) (with_ciphers (
     bindA (seal_next P (bytes_of ''PING'') HEARTBEAT_AAD) (\<lambda>ping_ciphertext.
     bindA (send_frame (new_frame Heartbeat 0 ping_ciphertext)) (\<lambda>_.
     bindA receive_frame (\<lambda>pong_frame.
     bindA (assert_eq (wf_msg_type pong_frame) Heartbeat) (\<lambda>_.
     bindA (open_frame P prof pong_frame HEARTBEAT_AAD) (\<lambda>decrypted_pong.
     bindA (assert_eq decrypted_pong (bytes_of ''PONG'')) (\<lambda>_.
     bindA next_number (\<lambda>n.
     send_frame (new_frame Close n []))))))))))"

definition test_malformed_handshake_payload_rejected :: "(net, unit) act" where
  "test_malformed_handshake_payload_rejected =
     bindA (write_to (new_frame HandshakeInit 0 (replicate 10 0x42))) (\<lambda>_. expect_err read_from)"

definition test_network_replay_packet_rejected ::
  "primitives \<Rightarrow> profile \<Rightarrow> bytes \<Rightarrow> bytes \<Rightarrow> (net, unit) act" where
  "test_network_replay_packet_rejected P prof server_public os_random =
     bindA (handshake_by_hand P prof write_to False False server_public os_random) (with_ciphers (
     bindA (seal_next P (bytes_of ''Original packet'') DATA_AAD) (\<lambda>original_ciphertext.
     let data_frame = new_frame DataPayload 0 original_ciphertext in
     bindA (send_frame data_frame) (\<lambda>_.
     bindA receive_frame (\<lambda>reply.
     bindA (assert_eq (wf_msg_type reply) DataPayload) (\<lambda>_.
     bindA (send_frame data_frame) (\<lambda>_.
     expect_err receive_frame)))))))"

definition heartbeat_round :: "primitives \<Rightarrow> profile \<Rightarrow> u64 \<Rightarrow> (peer, unit) act" where
  "heartbeat_round P prof seq =
     bindA next_number (\<lambda>n.
     bindA (assert_eq n seq) (\<lambda>_.
     bindA (seal_next P (bytes_of ''PING'') HEARTBEAT_AAD) (\<lambda>ping_ciphertext.
     bindA (send_frame (heartbeat_frame n ping_ciphertext)) (\<lambda>_.
     bindA receive_frame (\<lambda>pong_frame.
     bindA (assertA (is_heartbeat pong_frame)) (\<lambda>_.
     bindA (assert_eq (wf_nonce pong_frame) seq) (\<lambda>_.
     bindA (open_frame P prof pong_frame HEARTBEAT_AAD) (\<lambda>decrypted_pong.
     assert_eq decrypted_pong (bytes_of ''PONG'')))))))))"

definition test_multiple_rapid_heartbeats_in_session ::
  "primitives \<Rightarrow> profile \<Rightarrow> bytes \<Rightarrow> bytes \<Rightarrow> (net, unit) act" where
  "test_multiple_rapid_heartbeats_in_session P prof server_public os_random =
     bindA (handshake_by_hand P prof write_to False True server_public os_random) (with_ciphers (
     bindA (for_range 5 0 (heartbeat_round P prof)) (\<lambda>_.
     bindA next_number (\<lambda>tx_nonce.
     bindA (seal_next P (bytes_of ''Data etter heartbeats'') DATA_AAD) (\<lambda>data_cipher.
     bindA (send_frame (data_frame tx_nonce data_cipher)) (\<lambda>_.
     bindA receive_frame (\<lambda>reply_frame.
     bindA (assertA (is_data reply_frame)) (\<lambda>_.
     bindA (open_frame P prof reply_frame DATA_AAD) (\<lambda>decrypted_reply.
     bindA (assert_eq (from_utf8_lossy decrypted_reply) (bytes_of ''Server mottok: Data etter heartbeats'')) (\<lambda>_.
     bindA next_number (\<lambda>n.
     send_frame (close_frame n))))))))))))"

text \<open>Sending through a buffer: \<open>serialize_into\<close> on the emptied buffer, then write and flush.\<close>

definition write_buffered :: "wire_frame \<Rightarrow> (net, unit) act" where
  "write_buffered f =
     (let write_buf = serialize_into f [] in bindA (write_all write_buf) (\<lambda>_. flush))"

definition buffered_round :: "primitives \<Rightarrow> profile \<Rightarrow> u64 \<Rightarrow> (peer, unit) act" where
  "buffered_round P prof i =
     bindA next_number (\<lambda>n.
     let msg = bytes_of ''Buffer gjenbruk melding #'' @ dec_bytes (unat i) in
     bindA (seal_next P msg DATA_AAD) (\<lambda>ct.
     bindA (onA t_net t_net_update (write_buffered (data_frame n ct))) (\<lambda>_.
     bindA receive_frame (\<lambda>reply.
     bindA (assertA (is_data reply)) (\<lambda>_.
     bindA (onA t_filter t_filter_update (validate_and_record prof (wf_nonce reply))) (\<lambda>_.
     bindA (open_frame P prof reply DATA_AAD) (\<lambda>decrypted.
     assert_eq (from_utf8_lossy decrypted) (bytes_of ''Server mottok: '' @ msg))))))))"

definition test_full_duplex_session_with_serialize_into_and_replay_stats ::
  "primitives \<Rightarrow> profile \<Rightarrow> bytes \<Rightarrow> bytes \<Rightarrow> (net, unit) act" where
  "test_full_duplex_session_with_serialize_into_and_replay_stats P prof server_public os_random =
     bindA (handshake_by_hand P prof write_buffered False True server_public os_random) (with_ciphers (
     bindA (for_range 3 0 (buffered_round P prof)) (\<lambda>_.
     bindA (expect (\<lambda>t. total_seen (t_filter t) = 3)) (\<lambda>_.
     bindA (expect (\<lambda>t. total_accepted (t_filter t) = 3)) (\<lambda>_.
     bindA (expect (\<lambda>t. total_rejected (t_filter t) = 0)) (\<lambda>_.
     bindA next_number (\<lambda>n.
     onA t_net t_net_update (write_buffered (close_frame n)))))))))"

text \<open>
  A test and the server task on its connection: there is a joint run, in which each side
  reads exactly what the other has written, the test passes, and the server's session ends
  with the given outcome.
\<close>

definition passes_against ::
  "(net, unit) act \<Rightarrow> (net, unit) act \<Rightarrow> unit result \<Rightarrow> bool" where
  "passes_against test server outcome \<longleftrightarrow>
     (\<exists>c s. test (connection (outbox s)) = (c, Inr ()) \<and> server (connection (outbox c)) = (s, outcome))"

section \<open>The handshake by hand\<close>

lemma write_buffered_eq: "write_buffered f = write_to f"
  by (simp add: write_buffered_def write_to_def serialize_def)

text \<open>It checks no more than the client does, so it succeeds where the client's succeeds.\<close>

lemma by_hand_follows:
  assumes "perform_handshake P prof PROTOCOL_NAME pub rnd c = (c', Inr x)"
  shows "handshake_by_hand P prof write_to t a pub rnd c = (c', Inr x)"
proof -
  obtain ki ki' ict c1 resp where steps:
    "derive_session_keys P (ephemeral_diffie_hellman P (ephemeral_generate P rnd) pub)
       (hash_handshake_state P PROTOCOL_NAME (eph_public_key (ephemeral_generate P rnd)) pub None) = Inr (ki, ki')"
    "snd (encrypt P INIT_TEXT
       (hash_handshake_state P PROTOCOL_NAME (eph_public_key (ephemeral_generate P rnd)) pub None) (cipher_new ki)) = Inr ict"
    "write_to (new_frame HandshakeInit 0 (eph_public_key (ephemeral_generate P rnd) @ ict)) c = (c1, Inr ())"
    "read_from c1 = (c', Inr resp)"
    using assms
    by (auto simp: perform_handshake_def Let_def bindA_eq_Inr liftA_def on_local_apply ret_def throw_def
        split: if_splits prod.splits)
  then show ?thesis
    using assms
    by (auto simp: perform_handshake_def handshake_by_hand_def handshake_init_frame_def Let_def bindA_case liftA_def
        on_local_apply ret_def throw_def assertA_def assert_eq_def split: if_splits prod.splits sum.splits)
qed

section \<open>One turn of a test\<close>

text \<open>
  The peer is ready for a list of events: \<open>fs\<close> are the frames it will send for them and
  \<open>gs\<close> the answers that are on their way.
\<close>

definition ready :: "primitives \<Rightarrow> event list \<Rightarrow> wire_frame list \<Rightarrow> wire_frame list \<Rightarrow> peer \<Rightarrow> bool" where
  "ready P es fs gs t \<longleftrightarrow>
     sealed P (t_tx t) (map request_item es) fs \<and> sealed P (t_rx t) (map answer_item es) gs \<and>
     inbox (t_net t) = concat (map serialize gs) \<and> write_faults (t_net t) = []"

definition fits :: "event \<Rightarrow> bool" where
  "fits e \<longleftrightarrow> length (event_text e) \<le> 65496 \<and> utf8_valid (event_text e)"

text \<open>
  One request and its answer: \<open>t1\<close> is the state in which the test goes on with the answer
  \<open>g\<close>, and opening it gives \<open>m'\<close> and makes the peer ready for the rest.
\<close>

definition turned ::
  "primitives \<Rightarrow> item \<Rightarrow> bytes \<Rightarrow> event list \<Rightarrow> peer \<Rightarrow> wire_frame \<Rightarrow> wire_frame list \<Rightarrow>
   wire_frame \<Rightarrow> wire_frame list \<Rightarrow> peer \<Rightarrow> bool" where
  "turned P x m' es t f fs g gs t1 \<longleftrightarrow>
     (case x of (ty, a, m) \<Rightarrow>
        (\<forall>k :: bytes \<Rightarrow> wire_frame \<Rightarrow> (peer, unit) act.
           bindA (seal_next P m a) (\<lambda>ct. bindA (send_frame (new_frame ty (cs_nonce (t_tx t)) ct)) (\<lambda>_.
           bindA receive_frame (k ct))) t = k (wf_payload f) g t1) \<and>
        f = new_frame ty (cs_nonce (t_tx t)) (wf_payload f) \<and> wf_msg_type g = ty \<and>
        (\<forall>prof h. open_frame P prof g a (t1\<lparr>t_filter := h\<rparr>) =
           (t1\<lparr>t_rx := next_nonce (t_rx t), t_filter := h\<rparr>, Inr m'))) \<and>
     wf_nonce g = cs_nonce (t_rx t) \<and>
     (\<forall>h. ready P es fs gs (t1\<lparr>t_rx := next_nonce (t_rx t), t_filter := h\<rparr>)) \<and>
     write_faults (t_net t1) = [] \<and> outbox (t_net t1) = outbox (t_net t) @ serialize f \<and>
     inbox (t_net t1) = concat (map serialize gs) \<and>
     t_tx t1 = next_nonce (t_tx t) \<and> t_rx t1 = t_rx t \<and> t_filter t1 = t_filter t"

lemma turned_run:
  assumes "turned P (ty, a, m) m' es t f fs g gs t1"
  shows "bindA (seal_next P m a) (\<lambda>ct. bindA (send_frame (new_frame ty (cs_nonce (t_tx t)) ct)) (\<lambda>_.
      bindA receive_frame (k ct))) t = (k (wf_payload f) g t1 :: peer \<times> unit result)"
    and "open_frame P prof g a (t1\<lparr>t_filter := h\<rparr>) = (t1\<lparr>t_rx := next_nonce (t_rx t), t_filter := h\<rparr>, Inr m')"
    and "open_frame P prof g a t1 = (t1\<lparr>t_rx := next_nonce (t_rx t)\<rparr>, Inr m')"
    and "ready P es fs gs (t1\<lparr>t_rx := next_nonce (t_rx t), t_filter := h\<rparr>)"
    and "ready P es fs gs (t1\<lparr>t_rx := next_nonce (t_rx t)\<rparr>)"
proof -
  have all: "open_frame P prof g a (t1\<lparr>t_filter := h\<rparr>) =
        (t1\<lparr>t_rx := next_nonce (t_rx t), t_filter := h\<rparr>, Inr m')"
      "ready P es fs gs (t1\<lparr>t_rx := next_nonce (t_rx t), t_filter := h\<rparr>)" for h prof
    using assms unfolding turned_def by blast+
  show "open_frame P prof g a (t1\<lparr>t_filter := h\<rparr>) = (t1\<lparr>t_rx := next_nonce (t_rx t), t_filter := h\<rparr>, Inr m')"
    "open_frame P prof g a t1 = (t1\<lparr>t_rx := next_nonce (t_rx t)\<rparr>, Inr m')"
    "ready P es fs gs (t1\<lparr>t_rx := next_nonce (t_rx t), t_filter := h\<rparr>)"
    "ready P es fs gs (t1\<lparr>t_rx := next_nonce (t_rx t)\<rparr>)"
    using all(1) [where h = h] all(1) [where h = "t_filter t1"] all(2) [where h = h] all(2) [where h = "t_filter t1"]
    by simp_all
qed (use assms in \<open>simp add: turned_def\<close>)

lemma turnedD:
  assumes "turned P (ty, a, m) m' es t f fs g gs t1"
  shows "f = new_frame ty (cs_nonce (t_tx t)) (wf_payload f)"
    "wf_msg_type g = ty" "wf_nonce g = cs_nonce (t_rx t)" "write_faults (t_net t1) = []"
    "outbox (t_net t1) = outbox (t_net t) @ serialize f" "inbox (t_net t1) = concat (map serialize gs)"
    "t_tx t1 = next_nonce (t_tx t)" "t_rx t1 = t_rx t" "t_filter t1 = t_filter t"
  using assms by (auto simp: turned_def)

lemma ready_turn:
  assumes P: "session_primitives P" and t: "ready P (e # es) fs gs t" and "fits e"
    and req: "request_item e = (ty, a, m)" and ans: "answer_item e = (ty, a, m')"
  obtains f fs' g gs' t1 where "fs = f # fs'" "gs = g # gs'" "turned P (ty, a, m) m' es t f fs' g gs' t1"
proof -
  obtain f fs' where fs: "fs = f # fs'" "seals P (t_tx t) (ty, a, m) f"
      "sealed P (next_nonce (t_tx t)) (map request_item es) fs'"
    using t req unfolding ready_def by (cases fs) auto
  obtain g gs' where gs: "gs = g # gs'" "seals P (t_rx t) (ty, a, m') g"
      "sealed P (next_nonce (t_rx t)) (map answer_item es) gs'"
    using t ans unfolding ready_def by (cases gs) auto
  have io: "inbox (t_net t) = serialize g @ concat (map serialize gs')" "write_faults (t_net t) = []"
    using t gs(1) by (simp_all add: ready_def)
  obtain ct where ct: "encrypt P m a (t_tx t) = (next_nonce (t_tx t), Inr ct)" "f = new_frame ty (cs_nonce (t_tx t)) ct"
    using fs(2) by (auto simp: seals_encrypt)
  have "seals P (t_rx t) (answer_item e) g" using gs(2) ans by simp
  then have g: "valid_frame g" using answer_fits(1) [OF P] assms(3) by (auto simp: fits_def)
  let ?n = "(t_net t)\<lparr>outbox := outbox (t_net t) @ serialize f\<rparr>"
  define n1 where "n1 = ?n\<lparr>inbox := concat (map serialize gs')\<rparr>"
  define t1 where "t1 = t\<lparr>t_tx := next_nonce (t_tx t), t_net := n1\<rparr>"
  have wr: "write_to f (t_net t) = (?n, Inr ())" by (rule write_to_clean [OF io(2)])
  have rd: "read_from ?n = (n1, Inr g)"
    using read_from_serialize [OF g, of ?n] io(1) by (simp add: n1_def)
  have "turned P (ty, a, m) m' es t f fs' g gs' t1"
    unfolding turned_def prod.case
  proof (intro conjI allI)
    show "bindA (seal_next P m a) (\<lambda>ct. bindA (send_frame (new_frame ty (cs_nonce (t_tx t)) ct)) (\<lambda>_.
       bindA receive_frame (k ct))) t = k (wf_payload f) g t1" for k :: "bytes \<Rightarrow> wire_frame \<Rightarrow> (peer, unit) act"
      by (simp add: bindA_case seal_next_def send_frame_def receive_frame_def onA_def ct(1) wr rd t1_def
          flip: ct(2)) (simp add: ct(2) new_frame_def)
    show "open_frame P prof g a (t1\<lparr>t_filter := h\<rparr>) =
       (t1\<lparr>t_rx := next_nonce (t_rx t), t_filter := h\<rparr>, Inr m')" for prof h
      using seals_decrypt [OF session_primitivesD(4) [OF P] gs(2)] by (simp add: open_frame_def onA_def t1_def)
    show "ready P es fs' gs' (t1\<lparr>t_rx := next_nonce (t_rx t), t_filter := h\<rparr>)" for h
      using fs(3) gs(3) io(2) by (simp add: ready_def t1_def n1_def)
  qed (use gs(2) io(2) ct(2) in \<open>auto simp: t1_def n1_def seals_def new_frame_def\<close>)
  with fs(1) gs(1) show thesis using that by blast
qed

section \<open>A test and the server\<close>

definition peer_start :: "bytes \<Rightarrow> bytes \<Rightarrow> bytes \<Rightarrow> bytes \<Rightarrow> peer" where
  "peer_start incoming sent ck sk =
     \<lparr>t_net = (connection incoming)\<lparr>outbox := sent\<rparr>, t_tx = cipher_new ck, t_rx = cipher_new sk,
      t_filter = new_filter\<rparr>"

lemma peer_start_simps [simp]:
  "inbox (t_net (peer_start i b ck sk)) = i" "outbox (t_net (peer_start i b ck sk)) = b"
  "write_faults (t_net (peer_start i b ck sk)) = []" "t_tx (peer_start i b ck sk) = cipher_new ck"
  "t_rx (peer_start i b ck sk) = cipher_new sk" "t_filter (peer_start i b ck sk) = new_filter"
  by (simp_all add: peer_start_def)

text \<open>
  After the handshake it is enough that what the test sends makes the transport loop answer
  what the test has read.
\<close>

lemma passes_when:
  assumes P: "session_primitives P" and "length client_random = 32" "length server_random = 32"
    and keys: "keys = from_private_bytes P secret" "length secret = 32"
    and play: "\<And>ck sk sent. \<exists>t c2s s2c. body (peer_start s2c sent ck sk) = (t, Inr ()) \<and>
      outbox (t_net t) = sent @ c2s \<and>
      (\<forall>n now. write_faults n = [] \<longrightarrow> inbox n = c2s \<longrightarrow>
        (\<exists>s. transport_loop P prof' (start_session n (cipher_new ck) (cipher_new sk) now) = (s, outcome) \<and>
          outbox (s_net s) = outbox n @ s2c \<and> (outcome = Inr () \<longrightarrow> totals_fit (s_metrics s))))"
  shows "passes_against
    (bindA (handshake_by_hand P prof write_to ct ca (public_key keys) client_random) (with_ciphers body))
    (handle_client P prof' keys server_random) outcome"
proof -
  obtain init resp ck sk where
    hc: "\<And>c rest. write_faults c = [] \<Longrightarrow> inbox c = serialize resp @ rest \<Longrightarrow>
       perform_handshake P prof PROTOCOL_NAME (public_key keys) client_random c =
         (c\<lparr>inbox := rest, outbox := outbox c @ serialize init\<rparr>, Inr (cipher_new ck, cipher_new sk))"
    and hs: "\<And>s rest. write_faults s = [] \<Longrightarrow> inbox s = serialize init @ rest \<Longrightarrow>
       server_handshake P prof' PROTOCOL_NAME keys server_random s =
         (s\<lparr>inbox := rest, outbox := outbox s @ serialize resp\<rparr>, Inr (cipher_new ck, cipher_new sk))"
    by (rule handshake_runs [OF assms(1-5), where prof = prof and prof' = prof'
        and prologue = PROTOCOL_NAME]) blast
  obtain t c2s s2c where t: "body (peer_start s2c (serialize init) ck sk) = (t, Inr ())"
      "outbox (t_net t) = serialize init @ c2s"
    and serve: "\<And>n now. write_faults n = [] \<Longrightarrow> inbox n = c2s \<Longrightarrow>
        \<exists>s. transport_loop P prof' (start_session n (cipher_new ck) (cipher_new sk) now) = (s, outcome) \<and>
          outbox (s_net s) = outbox n @ s2c \<and> (outcome = Inr () \<longrightarrow> totals_fit (s_metrics s))"
    using play [of "serialize init" ck sk] by blast
  have "handshake_by_hand P prof write_to ct ca (public_key keys) client_random (connection (serialize resp @ s2c)) =
      ((connection s2c)\<lparr>outbox := serialize init\<rparr>, Inr (cipher_new ck, cipher_new sk))"
    using by_hand_follows [OF hc, of "connection (serialize resp @ s2c)" s2c] by (simp add: connection_def)
  then have test: "bindA (handshake_by_hand P prof write_to ct ca (public_key keys) client_random) (with_ciphers body)
      (connection (serialize resp @ s2c)) = (t_net t, Inr ())"
    using t(1) by (simp add: bindA_case with_ciphers_def peer_start_def)
  let ?n = "(connection (serialize init @ c2s))\<lparr>inbox := c2s, outbox := serialize resp\<rparr>"
  have hand: "server_handshake P prof' PROTOCOL_NAME keys server_random (connection (serialize init @ c2s)) =
      (?n, Inr (cipher_new ck, cipher_new sk))"
    using hs [of "connection (serialize init @ c2s)" c2s] by simp
  obtain n' now where n': "instant_now ?n = (n', Inr now)" "inbox n' = c2s" "outbox n' = serialize resp"
      "write_faults n' = []"
    using instant_now_total [of ?n] by auto
  obtain z where z: "transport_loop P prof' (start_session n' (cipher_new ck) (cipher_new sk) now) = (z, outcome)"
      "outbox (s_net z) = serialize resp @ s2c" "outcome = Inr () \<longrightarrow> totals_fit (s_metrics z)"
    using serve [OF n'(4,2)] n'(3) by auto
  obtain s where "handle_client P prof' keys server_random (connection (serialize init @ c2s)) = (s, outcome)"
      "outbox s = serialize resp @ s2c"
  proof (cases outcome)
    case (Inl e)
    then show thesis
      using that [of "s_net z"] hand n'(1) z by (simp add: handle_client_def handle_client_with_prologue_def bindA_case)
  next
    case (Inr u)
    then have o: "outcome = Inr ()" by simp
    show thesis
      by (rule handle_client_end [OF hand n'(1) z(1) [unfolded o]])
        (use z o that in \<open>simp_all add: handle_client_def\<close>)
  qed
  with test t(2) show ?thesis
    unfolding passes_against_def by (intro exI [of _ "t_net t"] exI [of _ s]) simp
qed

text \<open>A test that sends the frames of some events and then \<open>Close\<close>.\<close>

lemma honest_passes:
  assumes P: "session_primitives P" and "length client_random = 32" "length server_random = 32"
    and keys: "keys = from_private_bytes P secret" "length secret = 32"
    and es: "list_all fits es" "length es < 2 ^ 40"
    and play: "\<And>ck sk fs gs sent. ready P es fs gs (peer_start (concat (map serialize gs)) sent ck sk) \<Longrightarrow>
      \<exists>t k. body (peer_start (concat (map serialize gs)) sent ck sk) = (t, Inr ()) \<and>
        outbox (t_net t) = sent @ concat (map serialize fs) @ serialize (close_frame k)"
  shows "passes_against
    (bindA (handshake_by_hand P prof write_to ct ca (public_key keys) client_random) (with_ciphers body))
    (handle_client P prof' keys server_random) (Inr ())"
proof (rule passes_when [OF assms(1-5)])
  fix ck sk sent
  have fit: "list_all (\<lambda>e. length (event_text e) \<le> 65496 \<and> utf8_valid (event_text e)) es"
    using es(1) by (simp add: fits_def list_all_iff)
  obtain fs where fs: "sealed P (cipher_new ck) (map request_item es) fs"
    using sealed_exists [OF P dialogue_fits(1) [OF fit], of "cipher_new ck"] es(2) by (auto simp: cipher_new_def)
  obtain gs where gs: "sealed P (cipher_new sk) (map answer_item es) gs"
    using sealed_exists [OF P dialogue_fits(2) [OF fit], of "cipher_new sk"] es(2) by (auto simp: cipher_new_def)
  have "ready P es fs gs (peer_start (concat (map serialize gs)) sent ck sk)" using fs gs by (simp add: ready_def)
  from play [OF this] obtain t k where t: "body (peer_start (concat (map serialize gs)) sent ck sk) = (t, Inr ())"
      "outbox (t_net t) = sent @ concat (map serialize fs) @ serialize (close_frame k)"
    by blast
  have "\<exists>s. transport_loop P prof' (start_session n (cipher_new ck) (cipher_new sk) now) = (s, Inr ()) \<and>
      outbox (s_net s) = outbox n @ concat (map serialize gs) \<and> (Inr () = (Inr () :: unit result) \<longrightarrow> totals_fit (s_metrics s))"
    if "write_faults n = []" "inbox n = concat (map serialize fs) @ serialize (close_frame k)" for n now
    using honest_session [OF P that(1) es(2) dialogue_fits(3) [OF fit] fs gs that(2), where prof = prof' and t = now and k = k]
    by blast
  with t show "\<exists>t c2s s2c. body (peer_start s2c sent ck sk) = (t, Inr ()) \<and> outbox (t_net t) = sent @ c2s \<and>
      (\<forall>n now. write_faults n = [] \<longrightarrow> inbox n = c2s \<longrightarrow>
        (\<exists>s. transport_loop P prof' (start_session n (cipher_new ck) (cipher_new sk) now) = (s, Inr ()) \<and>
          outbox (s_net s) = outbox n @ s2c \<and> (Inr () = (Inr () :: unit result) \<longrightarrow> totals_fit (s_metrics s))))"
    by (intro exI [of _ t] exI [of _ "concat (map serialize fs) @ serialize (close_frame k)"]
        exI [of _ "concat (map serialize gs)"]) simp
qed

section \<open>The tests pass\<close>

lemma next_number_reads: "bindA next_number k t = k (cs_nonce (t_tx t)) t"
  by (simp add: next_number_def bindA_case getsA_def current_nonce_def)

lemma run_open: "open_frame P prof g a t = (t', Inr x) \<Longrightarrow> bindA (open_frame P prof g a) k t = k x t'"
  by (simp add: bindA_case)

lemma run_assert: "bindA (assertA True) k t = k () t" "bindA (assert_eq x x) k t = k () t"
  by (simp_all add: bindA_case assert_eq_def assertA_def ret_def)

lemma run_send:
  "write_faults (t_net t) = [] \<Longrightarrow>
     send_frame f t = (t\<lparr>t_net := (t_net t)\<lparr>outbox := outbox (t_net t) @ serialize f\<rparr>\<rparr>, Inr ())"
  by (simp add: send_frame_def onA_def write_to_clean)

lemma receive_eof: "inbox (t_net t) = [] \<Longrightarrow> receive_frame t = (t, Inl (Err Io))"
  by (simp add: receive_frame_def onA_def read_from_eof)

lemmas run_peer = next_number_reads run_open run_assert run_send

lemma fits_ascii:
  assumes "list_all (\<lambda>b. b \<le> 127) m" "length m \<le> 65496"
  shows "fits (Said m)" "fits (Pinged m)"
  using assms utf8_valid_ascii [of m] by (simp_all add: fits_def)

lemma fits_ping: "fits (Pinged (bytes_of ''PING''))"
  by (rule fits_ascii) (simp_all add: bytes_of_def)

lemma ready_ping:
  assumes "session_primitives P" "ready P (Pinged (bytes_of ''PING'') # es) fs gs t"
  obtains f fs' g gs' t1 where "fs = f # fs'" "gs = g # gs'"
    "turned P (Heartbeat, HEARTBEAT_AAD, bytes_of ''PING'') (bytes_of ''PONG'') es t f fs' g gs' t1"
  by (rule ready_turn [OF assms fits_ping, of Heartbeat HEARTBEAT_AAD "bytes_of ''PING''" "bytes_of ''PONG''"])
    (simp_all add: PONG_def that)

lemma ready_said:
  assumes "session_primitives P" "ready P (Said m # es) fs gs t" "fits (Said m)"
  obtains f fs' g gs' t1 where "fs = f # fs'" "gs = g # gs'"
    "turned P (DataPayload, DATA_AAD, m) (REPLY_PREFIX @ m) es t f fs' g gs' t1"
  by (rule ready_turn [OF assms, of DataPayload DATA_AAD m "REPLY_PREFIX @ m"])
    (use assms(3) in \<open>simp_all add: that fits_def lossy_valid\<close>)

lemma heartbeat_lifecycle_passes:
  assumes P: "session_primitives P" and "length client_random = 32" "length server_random = 32"
    and keys: "keys = from_private_bytes P secret" "length secret = 32"
  shows "passes_against (test_heartbeat_and_session_lifecycle P prof (public_key keys) client_random)
    (handle_client P prof' keys server_random) (Inr ())"
  unfolding test_heartbeat_and_session_lifecycle_def
proof (rule honest_passes [OF assms, where es = "[Pinged (bytes_of ''PING'')]"])
  fix ck sk fs gs sent
  let ?t = "peer_start (concat (map serialize gs)) sent ck sk"
  assume "ready P [Pinged (bytes_of ''PING'')] fs gs ?t"
  then obtain f fs' g gs' t1 where fs: "fs = f # fs'"
    and t1: "turned P (Heartbeat, HEARTBEAT_AAD, bytes_of ''PING'') (bytes_of ''PONG'') [] ?t f fs' g gs' t1"
    by (rule ready_ping [OF P]) 
  have zero: "cs_nonce (t_tx ?t) = 0" by (simp add: cipher_new_def)
  have "fs' = []" using turned_run(5) [OF t1] by (simp add: ready_def)
  then show "\<exists>t k. bindA (seal_next P (bytes_of ''PING'') HEARTBEAT_AAD) (\<lambda>ping_ciphertext.
      bindA (send_frame (new_frame Heartbeat 0 ping_ciphertext)) (\<lambda>_. bindA receive_frame (\<lambda>pong_frame.
      bindA (assert_eq (wf_msg_type pong_frame) Heartbeat) (\<lambda>_.
      bindA (open_frame P prof pong_frame HEARTBEAT_AAD) (\<lambda>decrypted_pong.
      bindA (assert_eq decrypted_pong (bytes_of ''PONG'')) (\<lambda>_.
      bindA next_number (\<lambda>n. send_frame (new_frame Close n [])))))))) ?t = (t, Inr ()) \<and>
      outbox (t_net t) = sent @ concat (map serialize fs) @ serialize (close_frame k)"
    using fs turnedD [OF t1]
    by (simp add: turned_run(1) [OF t1, unfolded zero] run_peer(1,3-5) run_open [OF turned_run(3) [OF t1]] close_frame_def)
      blast
qed (simp_all add: fits_ping)

lemma malformed_handshake_passes:
  "passes_against test_malformed_handshake_payload_rejected (handle_client P prof keys server_random)
    (Inl (Err InitPayloadSize))"
proof -
  let ?f = "new_frame HandshakeInit 0 (replicate 10 0x42)"
  have "valid_frame ?f" by (simp add: valid_frame_le new_frame_def)
  then have rd: "read_from (connection (serialize ?f)) = ((connection (serialize ?f))\<lparr>inbox := []\<rparr>, Inr ?f)"
    by (rule read_from_serialize) simp
  have "handle_client P prof keys server_random (connection (serialize ?f)) =
      ((connection (serialize ?f))\<lparr>inbox := []\<rparr>, Inl (Err InitPayloadSize))"
    by (simp add: handle_client_def handle_client_with_prologue_def server_handshake_def bindA_case rd)
      (simp add: new_frame_def KEY_LEN_def throw_def)
  moreover have "test_malformed_handshake_payload_rejected (connection []) =
      ((connection [])\<lparr>outbox := serialize ?f\<rparr>, Inr ())"
    by (simp add: test_malformed_handshake_payload_rejected_def bindA_case write_to_clean expect_err_eq read_from_eof)
  ultimately show ?thesis
    unfolding passes_against_def
    by (intro exI [of _ "(connection [])\<lparr>outbox := serialize ?f\<rparr>"] exI [of _ "(connection (serialize ?f))\<lparr>inbox := []\<rparr>"]) simp
qed

lemma network_replay_passes:
  assumes P: "session_primitives P" and "length client_random = 32" "length server_random = 32"
    and keys: "keys = from_private_bytes P secret" "length secret = 32"
  shows "passes_against (test_network_replay_packet_rejected P prof (public_key keys) client_random)
    (handle_client P prof' keys server_random) (Inl (Err (ReplayDuplicate 0)))"
  unfolding test_network_replay_packet_rejected_def
proof (rule passes_when [OF assms])
  fix ck sk sent
  let ?m = "bytes_of ''Original packet''"
  have m: "fits (Said ?m)" by (rule fits_ascii) (simp_all add: bytes_of_def)
  have fit: "list_all (\<lambda>e. length (event_text e) \<le> 65496 \<and> utf8_valid (event_text e)) [Said ?m]"
    using m by (simp add: fits_def)
  obtain fs where fs: "sealed P (cipher_new ck) (map request_item [Said ?m]) fs"
    using sealed_exists [OF P dialogue_fits(1) [OF fit], of "cipher_new ck"] by (auto simp: cipher_new_def)
  obtain gs where gs: "sealed P (cipher_new sk) (map answer_item [Said ?m]) gs"
    using sealed_exists [OF P dialogue_fits(2) [OF fit], of "cipher_new sk"] by (auto simp: cipher_new_def)
  let ?t = "peer_start (concat (map serialize gs)) sent ck sk"
  have "ready P [Said ?m] fs gs ?t" using fs gs by (simp add: ready_def)
  then obtain f fs' g gs' t1 where eqs: "fs = f # fs'" "gs = g # gs'"
    and t1: "turned P (DataPayload, DATA_AAD, ?m) (REPLY_PREFIX @ ?m) [] ?t f fs' g gs' t1"
    by (rule ready_said [OF P _ m])
  have nil: "fs' = []" "gs' = []" using turned_run(5) [OF t1] by (simp_all add: ready_def)
  have zero: "cs_nonce (t_tx ?t) = 0" by (simp add: cipher_new_def)
  have again: "f = new_frame DataPayload 0 (wf_payload f)" using turnedD(1) [OF t1] zero by simp
  have inb: "concat (map serialize gs) = serialize g" using eqs nil by simp
  have "\<exists>t. bindA (seal_next P ?m DATA_AAD) (\<lambda>original_ciphertext.
      let data_frame = new_frame DataPayload 0 original_ciphertext in
      bindA (send_frame data_frame) (\<lambda>_. bindA receive_frame (\<lambda>reply.
      bindA (assert_eq (wf_msg_type reply) DataPayload) (\<lambda>_. bindA (send_frame data_frame) (\<lambda>_.
      expect_err receive_frame))))) ?t = (t, Inr ()) \<and> outbox (t_net t) = sent @ serialize f @ serialize f"
    using turnedD [OF t1] nil
    by (simp add: Let_def turned_run(1) [OF t1, unfolded zero] run_peer bindA_case [of "send_frame _"]
        expect_err_eq receive_eof flip: again)
  moreover have "\<exists>s. transport_loop P prof' (start_session n (cipher_new ck) (cipher_new sk) now) =
      (s, Inl (Err (ReplayDuplicate 0))) \<and> outbox (s_net s) = outbox n @ serialize g"
    if "write_faults n = []" "inbox n = serialize f @ serialize f" for n now
    using replay_refused [OF P _ _ fs gs that(1), of 0 "[]" prof' now] that(2) m eqs nil by (simp add: fits_def)
  ultimately show "\<exists>t c2s s2c. bindA (seal_next P ?m DATA_AAD) (\<lambda>original_ciphertext.
      let data_frame = new_frame DataPayload 0 original_ciphertext in
      bindA (send_frame data_frame) (\<lambda>_. bindA receive_frame (\<lambda>reply.
      bindA (assert_eq (wf_msg_type reply) DataPayload) (\<lambda>_. bindA (send_frame data_frame) (\<lambda>_.
      expect_err receive_frame))))) (peer_start s2c sent ck sk) = (t, Inr ()) \<and> outbox (t_net t) = sent @ c2s \<and>
      (\<forall>n now. write_faults n = [] \<longrightarrow> inbox n = c2s \<longrightarrow>
        (\<exists>s. transport_loop P prof' (start_session n (cipher_new ck) (cipher_new sk) now) =
          (s, Inl (Err (ReplayDuplicate 0))) \<and> outbox (s_net s) = outbox n @ s2c \<and>
          (Inl (Err (ReplayDuplicate 0)) = Inr () \<longrightarrow> totals_fit (s_metrics s))))"
    unfolding inb by blast
qed

text \<open>A loop whose rounds each send one request and read its answer.\<close>

lemma rounds:
  assumes round: "\<And>j t es fs gs. I j t \<Longrightarrow> ready P (ev j # es) fs gs t \<Longrightarrow> j < m \<Longrightarrow>
      \<exists>t' f fs' g gs'. body (word_of_nat j) t = (t', Inr ()) \<and> fs = f # fs' \<and> gs = g # gs' \<and> ready P es fs' gs' t' \<and>
        outbox (t_net t') = outbox (t_net t) @ serialize f \<and> I (Suc j) t'"
  shows "I k t \<Longrightarrow> ready P (map ev [k..<k + n] @ es) fs gs t \<Longrightarrow> k + n \<le> m \<Longrightarrow>
    \<exists>t' fs1 fs2 gs2. for_range n (word_of_nat k) body t = (t', Inr ()) \<and> fs = fs1 @ fs2 \<and>
      ready P es fs2 gs2 t' \<and> outbox (t_net t') = outbox (t_net t) @ concat (map serialize fs1) \<and> I (k + n) t'"
proof (induction n arbitrary: k t fs gs)
  case 0
  then show ?case by (intro exI [of _ t] exI [of _ "[]"] exI [of _ fs] exI [of _ gs]) (simp add: ret_def)
next
  case (Suc n)
  have "map ev [k..<k + Suc n] = ev k # map ev [Suc k..<Suc k + n]" by (simp add: upt_conv_Cons del: upt_Suc)
  then have "ready P (ev k # map ev [Suc k..<Suc k + n] @ es) fs gs t" using Suc.prems(2) by simp
  from round [OF Suc.prems(1) this] Suc.prems(3) obtain t1 f fs' gs' where
    t1: "body (word_of_nat k) t = (t1, Inr ())" "fs = f # fs'" "ready P (map ev [Suc k..<Suc k + n] @ es) fs' gs' t1"
      "outbox (t_net t1) = outbox (t_net t) @ serialize f" "I (Suc k) t1"
    by auto
  obtain t' fs1 fs2 gs2 where t': "for_range n (word_of_nat (Suc k)) body t1 = (t', Inr ())" "fs' = fs1 @ fs2"
      "ready P es fs2 gs2 t'" "outbox (t_net t') = outbox (t_net t1) @ concat (map serialize fs1)" "I (Suc k + n) t'"
    using Suc.IH [OF t1(5,3)] Suc.prems(3) by auto
  have next_word: "(word_of_nat k + 1 :: u64) = word_of_nat (Suc k)" by simp
  have "for_range (Suc n) (word_of_nat k) body t = (t', Inr ())"
    using t1(1) t'(1) by (simp add: bindA_case next_word del: of_nat_Suc)
  with t1 t' show ?case
    by (intro exI [of _ t'] exI [of _ "f # fs1"] exI [of _ fs2] exI [of _ gs2]) simp
qed

definition in_round :: "nat \<Rightarrow> peer \<Rightarrow> bool" where
  "in_round j t \<longleftrightarrow> cs_nonce (t_tx t) = word_of_nat j \<and> cs_nonce (t_rx t) = word_of_nat j"

lemma heartbeat_round_runs:
  assumes P: "session_primitives P" and "in_round j t"
    and "ready P (Pinged (bytes_of ''PING'') # es) fs gs t"
  shows "\<exists>t' f fs' g gs'. heartbeat_round P prof (word_of_nat j) t = (t', Inr ()) \<and> fs = f # fs' \<and> gs = g # gs' \<and>
    ready P es fs' gs' t' \<and> outbox (t_net t') = outbox (t_net t) @ serialize f \<and> in_round (Suc j) t'"
proof -
  obtain f fs' g gs' t1 where eqs: "fs = f # fs'" "gs = g # gs'"
    and t1: "turned P (Heartbeat, HEARTBEAT_AAD, bytes_of ''PING'') (bytes_of ''PONG'') es t f fs' g gs' t1"
    by (rule ready_ping [OF P assms(3)])
  have nums: "cs_nonce (t_tx t) = word_of_nat j" "cs_nonce (t_rx t) = word_of_nat j"
    using assms(2) by (simp_all add: in_round_def)
  have "is_heartbeat g" "wf_nonce g = word_of_nat j"
    using turnedD(2,3) [OF t1] nums by (simp_all add: is_heartbeat_def mt_is_heartbeat_def)
  then have "heartbeat_round P prof (word_of_nat j) t = (t1\<lparr>t_rx := next_nonce (t_rx t)\<rparr>, Inr ())"
    by (simp add: heartbeat_round_def run_peer(1,3,4) nums heartbeat_frame_def turned_run(1) [OF t1, unfolded nums]
        run_open [OF turned_run(3) [OF t1]] check_apply(2))
  moreover have "in_round (Suc j) (t1\<lparr>t_rx := next_nonce (t_rx t)\<rparr>)"
    using turnedD(7) [OF t1] nums by (simp add: in_round_def add.commute)
  ultimately show ?thesis
    using eqs turned_run(5) [OF t1] turnedD(5) [OF t1] by auto
qed

lemma rapid_heartbeats_pass:
  assumes P: "session_primitives P" and "length client_random = 32" "length server_random = 32"
    and keys: "keys = from_private_bytes P secret" "length secret = 32"
  shows "passes_against (test_multiple_rapid_heartbeats_in_session P prof (public_key keys) client_random)
    (handle_client P prof' keys server_random) (Inr ())"
proof -
  let ?m = "bytes_of ''Data etter heartbeats''" and ?ping = "\<lambda>j :: nat. Pinged (bytes_of ''PING'')"
  let ?es = "map ?ping [0..<0 + 5] @ [Said ?m]"
  have m: "fits (Said ?m)" by (rule fits_ascii) (simp_all add: bytes_of_def)
  have "list_all fits ?es" using m fits_ping by (simp add: list_all_iff)
  show ?thesis
    unfolding test_multiple_rapid_heartbeats_in_session_def
  proof (rule honest_passes [OF assms \<open>list_all fits ?es\<close>])
    fix ck sk fs gs sent
    let ?t = "peer_start (concat (map serialize gs)) sent ck sk"
    assume ready: "ready P ?es fs gs ?t"
    have "in_round 0 ?t" by (simp add: in_round_def cipher_new_def)
    from rounds [where body = "heartbeat_round P prof" and ev = ?ping and I = in_round and m = 5, OF heartbeat_round_runs [OF P] this ready]
    obtain t1 fs1 fs2 gs2 where t1: "for_range 5 0 (heartbeat_round P prof) ?t = (t1, Inr ())" "fs = fs1 @ fs2"
        "ready P [Said ?m] fs2 gs2 t1" "outbox (t_net t1) = sent @ concat (map serialize fs1)"
      by auto
    obtain f fs' g gs' t2 where eqs: "fs2 = f # fs'" "gs2 = g # gs'"
      and t2: "turned P (DataPayload, DATA_AAD, ?m) (REPLY_PREFIX @ ?m) [] t1 f fs' g gs' t2"
      by (rule ready_said [OF P t1(3) m])
    have "fs' = []" using turned_run(5) [OF t2] by (simp add: ready_def)
    have "is_data g" using turnedD(2) [OF t2] by (simp add: is_data_def mt_is_data_def)
    have "utf8_valid (REPLY_PREFIX @ ?m)"
      by (rule utf8_valid_ascii) (simp add: REPLY_PREFIX_def bytes_of_def)
    then have reply: "from_utf8_lossy (REPLY_PREFIX @ ?m) = bytes_of ''Server mottok: Data etter heartbeats''"
      by (simp add: lossy_valid) (simp add: REPLY_PREFIX_def bytes_of_def)
    show "\<exists>t k. bindA (for_range 5 0 (heartbeat_round P prof)) (\<lambda>_. bindA next_number (\<lambda>tx_nonce.
        bindA (seal_next P ?m DATA_AAD) (\<lambda>data_cipher. bindA (send_frame (data_frame tx_nonce data_cipher)) (\<lambda>_.
        bindA receive_frame (\<lambda>reply_frame. bindA (assertA (is_data reply_frame)) (\<lambda>_.
        bindA (open_frame P prof reply_frame DATA_AAD) (\<lambda>decrypted_reply.
        bindA (assert_eq (from_utf8_lossy decrypted_reply) (bytes_of ''Server mottok: Data etter heartbeats'')) (\<lambda>_.
        bindA next_number (\<lambda>n. send_frame (close_frame n)))))))))) ?t = (t, Inr ()) \<and>
        outbox (t_net t) = sent @ concat (map serialize fs) @ serialize (close_frame k)"
      using t1(2,4) eqs(1) \<open>fs' = []\<close> \<open>is_data g\<close> turnedD(4,5) [OF t2]
      by (simp add: bindA_case [of "for_range _ _ _"] t1(1) run_peer(1,3-5) data_frame_def turned_run(1) [OF t2]
          run_open [OF turned_run(3) [OF t2]] reply) blast
  qed simp
qed

text \<open>In the buffered session the test's own replay filter takes every number.\<close>

definition in_buffered_round :: "nat \<Rightarrow> peer \<Rightarrow> bool" where
  "in_buffered_round j t \<longleftrightarrow> in_round j t \<and> window_ok (t_filter t) \<and> counters_ok (t_filter t) \<and>
     total_seen (t_filter t) = word_of_nat j \<and> total_accepted (t_filter t) = word_of_nat j \<and>
     total_rejected (t_filter t) = 0 \<and> (initialized (t_filter t) \<longrightarrow> last_seq (t_filter t) < word_of_nat j)"

definition buffered_message :: "nat \<Rightarrow> bytes" where
  "buffered_message j = bytes_of ''Buffer gjenbruk melding #'' @ dec_bytes j"

lemma filter_takes_next:
  assumes "in_buffered_round j t" "j < 2 ^ 40"
  shows "validate_and_record prof (word_of_nat j) (t_filter t) = (after_call (t_filter t) (word_of_nat j), Inr ())"
    and "after_call (t_filter t) (word_of_nat j) = h \<Longrightarrow> window_ok h \<and> counters_ok h \<and>
      total_seen h = word_of_nat (Suc j) \<and> total_accepted h = word_of_nat (Suc j) \<and> total_rejected h = 0 \<and>
      last_seq h < word_of_nat (Suc j)"
proof -
  let ?h = "t_filter t" and ?n = "word_of_nat j :: u64"
  have f: "window_ok ?h" "counters_ok ?h" "total_seen ?h = ?n" "total_accepted ?h = ?n" "total_rejected ?h = 0"
      "initialized ?h \<longrightarrow> last_seq ?h < ?n"
    using assms(1) by (simp_all add: in_buffered_round_def)
  have n: "unat ?n = j" using assms(2) by (simp add: unat_of_nat)
  have new: "verdict ?h ?n = None" using f(6) by (simp add: verdict_def)
  have fits: "unat (total_seen ?h) + 1 < 2 ^ 64" using f(3) n assms(2) by simp
  show "validate_and_record prof ?n ?h = (after_call ?h ?n, Inr ())"
    using validate_no_overflow [OF f(1,2) fits] new by simp
  have last: "last_seq (after_call ?h ?n) = ?n"
    using new f(6) by (auto simp: after_call_def slide_def Let_def)
  have counts: "total_seen (after_call ?h ?n) = ?n + 1" "total_accepted (after_call ?h ?n) = ?n + 1"
      "total_rejected (after_call ?h ?n) = 0"
    using new f(3-5) by (auto simp: after_call_def slide_def Let_def)
  have "unat (?n + 1) = j + 1" using unat_suc_u64 [of ?n] n assms(2) by simp
  then have "?n < ?n + 1" using n by (simp add: word_less_nat_alt)
  then have "?n < word_of_nat (Suc j)" by (simp add: add.commute)
  then show "window_ok h \<and> counters_ok h \<and> total_seen h = word_of_nat (Suc j) \<and>
      total_accepted h = word_of_nat (Suc j) \<and> total_rejected h = 0 \<and> last_seq h < word_of_nat (Suc j)"
    if "after_call ?h ?n = h"
    using f(1) after_call_counters [OF f(2) fits] last counts that by (auto simp: add.commute)
qed

lemma dec_digit: "n < 10 \<Longrightarrow> dec_bytes n = [0x30 + word_of_nat n]"
  by (subst dec_bytes.simps) simp

lemma fits_buffered: "j < 3 \<Longrightarrow> fits (Said (buffered_message j))"
proof -
  assume "j < 3"
  then have "(0x30 + word_of_nat j :: u8) \<le> 127"
    by (cases j; simp add: numeral_3_eq_3 less_Suc_eq) auto
  then have "list_all (\<lambda>b. b \<le> 127) (buffered_message j)"
    using \<open>j < 3\<close> by (simp add: buffered_message_def dec_digit) (simp add: bytes_of_def)
  then show ?thesis
    by (rule fits_ascii) (use \<open>j < 3\<close> in \<open>simp add: buffered_message_def dec_digit\<close>)
qed

lemma send_buffered: "onA t_net t_net_update (write_buffered f) = send_frame f"
  by (simp add: send_frame_def write_buffered_eq)

lemma lossy_reply:
  assumes "utf8_valid m"
  shows "from_utf8_lossy (REPLY_PREFIX @ m) = bytes_of ''Server mottok: '' @ m"
  using reply_valid [OF assms] lossy_valid [of "REPLY_PREFIX @ m"]
  by (simp add: from_utf8_def split: if_splits) (simp add: REPLY_PREFIX_def)

lemma buffered_round_runs:
  assumes P: "session_primitives P" and t: "in_buffered_round j t" and "j < 3"
    and "ready P (Said (buffered_message j) # es) fs gs t"
  shows "\<exists>t' f fs' g gs'. buffered_round P prof (word_of_nat j) t = (t', Inr ()) \<and> fs = f # fs' \<and> gs = g # gs' \<and>
    ready P es fs' gs' t' \<and> outbox (t_net t') = outbox (t_net t) @ serialize f \<and> in_buffered_round (Suc j) t'"
proof -
  let ?m = "buffered_message j"
  have m: "fits (Said ?m)" by (rule fits_buffered [OF assms(3)])
  then have valid: "utf8_valid ?m" by (simp add: fits_def)
  obtain f fs' g gs' t1 where eqs: "fs = f # fs'" "gs = g # gs'"
    and t1: "turned P (DataPayload, DATA_AAD, ?m) (REPLY_PREFIX @ ?m) es t f fs' g gs' t1"
    by (rule ready_said [OF P assms(4) m])
  have nums: "cs_nonce (t_tx t) = word_of_nat j" "cs_nonce (t_rx t) = word_of_nat j"
    using t by (simp_all add: in_buffered_round_def in_round_def)
  have g: "is_data g" "wf_nonce g = word_of_nat j"
    using turnedD(2,3) [OF t1] nums by (simp_all add: is_data_def mt_is_data_def)
  have msg: "bytes_of ''Buffer gjenbruk melding #'' @ dec_bytes (unat (word_of_nat j :: u64)) = ?m"
    using assms(3) by (simp add: buffered_message_def unat_of_nat)
  have small: "j < 2 ^ 40" using assms(3) by simp
  define h where "h = after_call (t_filter t) (word_of_nat j)"
  note taken = filter_takes_next(1) [OF t small, of prof, folded h_def] filter_takes_next(2) [OF t small, OF h_def [symmetric]]
  have rec: "onA t_filter t_filter_update (validate_and_record prof (word_of_nat j)) t1 = (t1\<lparr>t_filter := h\<rparr>, Inr ())"
    using taken(1) turnedD(9) [OF t1] by (simp add: onA_def)
  have "buffered_round P prof (word_of_nat j) t = (t1\<lparr>t_rx := next_nonce (t_rx t), t_filter := h\<rparr>, Inr ())"
    by (simp add: buffered_round_def msg Let_def send_buffered run_peer(1,3,4) nums data_frame_def
        turned_run(1) [OF t1, unfolded nums] g bindA_case [of "onA t_filter _ _"] rec
        run_open [OF turned_run(2) [OF t1], unfolded g] lossy_reply [OF valid] check_apply(2))
  moreover have "in_buffered_round (Suc j) (t1\<lparr>t_rx := next_nonce (t_rx t), t_filter := h\<rparr>)"
    using turnedD(7) [OF t1] nums taken(2) by (simp add: in_buffered_round_def in_round_def add.commute)
  ultimately show ?thesis
    using eqs turned_run(4) [OF t1, of h] turnedD(5) [OF t1] by auto
qed

lemma buffered_session_passes:
  assumes P: "session_primitives P" and "length client_random = 32" "length server_random = 32"
    and keys: "keys = from_private_bytes P secret" "length secret = 32"
  shows "passes_against
    (test_full_duplex_session_with_serialize_into_and_replay_stats P prof (public_key keys) client_random)
    (handle_client P prof' keys server_random) (Inr ())"
proof -
  let ?ev = "\<lambda>j. Said (buffered_message j)"
  let ?es = "map ?ev [0..<0 + 3] @ []"
  have fit: "list_all fits ?es" using fits_buffered by (auto simp: list_all_iff)
  have same: "handshake_by_hand P prof write_buffered = handshake_by_hand P prof write_to"
    by (rule arg_cong [where f = "handshake_by_hand P prof"]) (rule ext, rule write_buffered_eq)
  show ?thesis
    unfolding test_full_duplex_session_with_serialize_into_and_replay_stats_def same
  proof (rule honest_passes [OF assms fit])
    fix ck sk fs gs sent
    let ?t = "peer_start (concat (map serialize gs)) sent ck sk"
    assume ready: "ready P ?es fs gs ?t"
    have "in_buffered_round 0 ?t"
      by (simp add: in_buffered_round_def in_round_def cipher_new_def new_filter_def) (simp add: with_window_size_def)
    from rounds [where body = "buffered_round P prof" and ev = ?ev and I = in_buffered_round and m = 3,
        OF buffered_round_runs [OF P _ _] this ready]
    obtain t1 fs1 fs2 gs2 where t1: "for_range 3 0 (buffered_round P prof) ?t = (t1, Inr ())" "fs = fs1 @ fs2"
        "ready P [] fs2 gs2 t1" "outbox (t_net t1) = sent @ concat (map serialize fs1)" "in_buffered_round 3 t1"
      by auto
    have seen: "total_seen (t_filter t1) = 3" "total_accepted (t_filter t1) = 3" "total_rejected (t_filter t1) = 0"
      using t1(5) by (simp_all add: in_buffered_round_def)
    have "fs2 = []" "write_faults (t_net t1) = []" using t1(3) by (simp_all add: ready_def)
    then show "\<exists>t k. bindA (for_range 3 0 (buffered_round P prof)) (\<lambda>_.
        bindA (expect (\<lambda>t. total_seen (t_filter t) = 3)) (\<lambda>_.
        bindA (expect (\<lambda>t. total_accepted (t_filter t) = 3)) (\<lambda>_.
        bindA (expect (\<lambda>t. total_rejected (t_filter t) = 0)) (\<lambda>_.
        bindA next_number (\<lambda>n. onA t_net t_net_update (write_buffered (close_frame n))))))) ?t = (t, Inr ()) \<and>
        outbox (t_net t) = sent @ concat (map serialize fs) @ serialize (close_frame k)"
      using t1(2,4)
      by (simp add: bindA_case [of "for_range _ _ _"] t1(1) bindA_case [of "expect _"] expect_eq seen run_peer(1)
          send_buffered run_send) blast
  qed simp
qed

section \<open>Properties\<close>

text \<open>
  C40. The integration tests that speak the protocol by hand pass against the model's server,
  for every key and ephemeral secret and in both build profiles: the heartbeat session, the
  rapid heartbeats and the buffered session end without an error on either side, the malformed
  first frame is refused for its size, and the replayed packet is refused as a duplicate.
\<close>

theorem hand_written_sessions_pass:
  assumes "session_primitives P" "length client_random = 32" "length server_random = 32"
    and "keys = from_private_bytes P secret" "length secret = 32"
    and "server = handle_client P prof' keys server_random"
  shows "passes_against (test_heartbeat_and_session_lifecycle P prof (public_key keys) client_random) server (Inr ()) \<and>
    passes_against (test_multiple_rapid_heartbeats_in_session P prof (public_key keys) client_random) server (Inr ()) \<and>
    passes_against (test_full_duplex_session_with_serialize_into_and_replay_stats P prof (public_key keys) client_random)
      server (Inr ()) \<and>
    passes_against test_malformed_handshake_payload_rejected server (Inl (Err InitPayloadSize)) \<and>
    passes_against (test_network_replay_packet_rejected P prof (public_key keys) client_random)
      server (Inl (Err (ReplayDuplicate 0)))"
  unfolding assms(6)
  by (intro conjI heartbeat_lifecycle_passes [OF assms(1-5)] rapid_heartbeats_pass [OF assms(1-5)]
      buffered_session_passes [OF assms(1-5)] malformed_handshake_passes network_replay_passes [OF assms(1-5)])

theorem hand_written_sessions_pass_witness:
  "passes_against (test_network_replay_packet_rejected toy Debug
      (public_key (from_private_bytes toy (replicate 32 5))) (replicate 32 1))
    (handle_client toy Debug (from_private_bytes toy (replicate 32 5)) (replicate 32 2))
    (Inl (Err (ReplayDuplicate 0)))"
  using hand_written_sessions_pass [OF toy_session _ _ refl _ refl, of "replicate 32 1" "replicate 32 2"
      "replicate 32 5" Debug Debug] by simp

end
