(* ===== verification/Client_Tests.thy ===== *)
theory Client_Tests
  imports Testing Refusal Server
begin

text \<open>
  The integration tests that go through the client's interface, and those of the public
  objects (src/tests/integration_tunnel.rs). A call of the client meets random bytes, a
  connection and a timer; what is proved of a test holds for every connection that comes
  from a joint run with the server's task.
\<close>

section \<open>Calls of the client\<close>

record call =
  call_random :: bytes
  call_connect :: "net option"
  call_timer_fires :: bool

definition send_message :: "primitives \<Rightarrow> profile \<Rightarrow> tunnel_client \<Rightarrow> call \<Rightarrow> bytes \<Rightarrow> (unit, bytes) act" where
  "send_message P prof client call message =
     liftA (snd (send_secure_message P prof client (call_connect call) (call_random call)
       (call_timer_fires call) message))"

definition test_concurrent_sessions ::
  "primitives \<Rightarrow> profile \<Rightarrow> key_pair \<Rightarrow> bytes \<Rightarrow> (nat \<Rightarrow> call) \<Rightarrow> (unit, unit) act" where
  "test_concurrent_sessions P prof server_keypair addr call =
     steps (map (\<lambda>i.
       let client = client_new (public_key server_keypair) addr;
           msg = bytes_of ''Samtidig sesjons-test fra klient #'' @ dec_bytes i
       in bindA (unwrapA (send_message P prof client (call i) msg)) (\<lambda>resp.
          assertA (contains resp msg))) [0..<5])"

definition test_wrong_server_pubkey_fails_handshake ::
  "primitives \<Rightarrow> profile \<Rightarrow> bytes \<Rightarrow> bytes \<Rightarrow> call \<Rightarrow> (unit, unit) act" where
  "test_wrong_server_pubkey_fails_handshake P prof os_random addr call =
     (let attacker_fake_keypair = keypair_generate P os_random;
          client = client_new (public_key attacker_fake_keypair) addr
      in expect_err (send_message P prof client call (bytes_of ''Skal feile handshake'')))"

definition test_large_payload_transfer ::
  "primitives \<Rightarrow> profile \<Rightarrow> key_pair \<Rightarrow> bytes \<Rightarrow> call \<Rightarrow> (unit, unit) act" where
  "test_large_payload_transfer P prof server_keypair addr call =
     (let client = client_new (public_key server_keypair) addr;
          large_message = replicate (32 * 1024) 0x41
      in bindA (send_message P prof client call large_message) (\<lambda>response.
         assertA (contains response large_message)))"

definition test_sequential_messages ::
  "primitives \<Rightarrow> profile \<Rightarrow> key_pair \<Rightarrow> bytes \<Rightarrow> (nat \<Rightarrow> call) \<Rightarrow> (unit, unit) act" where
  "test_sequential_messages P prof server_keypair addr call =
     (let client = client_new (public_key server_keypair) addr
      in steps (map (\<lambda>i.
        let msg = bytes_of ''Sekvensiell testmelding #'' @ dec_bytes i
        in bindA (send_message P prof client (call i) msg) (\<lambda>response.
           assertA (contains response msg))) [1..<11]))"

definition test_empty_payload_transfer ::
  "primitives \<Rightarrow> profile \<Rightarrow> key_pair \<Rightarrow> bytes \<Rightarrow> call \<Rightarrow> (unit, unit) act" where
  "test_empty_payload_transfer P prof server_keypair addr call =
     (let client = client_new (public_key server_keypair) addr
      in bindA (send_message P prof client call []) (\<lambda>response.
         assert_eq response (bytes_of ''Server mottok: '')))"

text \<open>The message with an o-slash, two bytes in UTF-8.\<close>

definition HEX_TEST_MESSAGE :: bytes where
  "HEX_TEST_MESSAGE = bytes_of ''Ende-til-ende test med hex-konfigurerte n'' @ [0xC3, 0xB8] @ bytes_of ''kler''"

text \<open>The test returns the server it spawns, on which the call depends.\<close>

definition test_hex_configured_client_server ::
  "primitives \<Rightarrow> profile \<Rightarrow> bytes \<Rightarrow> bytes \<Rightarrow> (tunnel_server \<Rightarrow> call) \<Rightarrow> (unit, unit) act" where
  "test_hex_configured_client_server P prof os_random addr call =
     (let server_keypair = keypair_generate P os_random;
          priv_hex = private_key_hex P server_keypair;
          pub_hex = public_key_hex P server_keypair
      in bindA (liftA (from_private_hex P priv_hex)) (\<lambda>server_keys.
      let server = server_new server_keys addr in
      bindA (liftA (parse_public_key_hex P pub_hex)) (\<lambda>client_pubkey.
      let client = client_new client_pubkey addr in
      bindA (send_message P prof client (call server) HEX_TEST_MESSAGE) (\<lambda>resp.
      assertA (contains resp HEX_TEST_MESSAGE)))))"

definition test_client_server_builder_configs ::
  "primitives \<Rightarrow> profile \<Rightarrow> bytes \<Rightarrow> key_pair \<Rightarrow> bytes \<Rightarrow> call \<Rightarrow> (unit, unit) act" where
  "test_client_server_builder_configs P prof os_random server_keys server_addr call =
     (let keypair = keypair_generate P os_random;
          addr = bytes_of ''127.0.0.1:8888'';
          server = server_with_max_connections 50 (server_new keypair addr);
          timeout = 5 * 1000000000;
          client = client_with_timeout timeout (client_new (public_key keypair) addr);
          live_client = client_with_timeout (3 * 1000000000) (client_new (public_key server_keys) server_addr)
      in bindA (assert_eq (ts_max_connections server) (Some 50)) (\<lambda>_.
      bindA (assert_eq (active_connections server) 0) (\<lambda>_.
      bindA (assert_eq (tc_timeout client) (Some timeout)) (\<lambda>_.
      bindA (send_message P prof live_client call (bytes_of ''Builder test med timeout'')) (\<lambda>reply.
      assertA (contains reply (bytes_of ''Builder test med timeout'')))))))"

definition test_custom_prologue_agreement_and_mismatch ::
  "primitives \<Rightarrow> profile \<Rightarrow> bytes \<Rightarrow> bytes \<Rightarrow> (tunnel_server \<Rightarrow> call) \<Rightarrow> (tunnel_server \<Rightarrow> call) \<Rightarrow> (unit, unit) act" where
  "test_custom_prologue_agreement_and_mismatch P prof os_random server_addr call call' =
     (let server_keypair = keypair_generate P os_random;
          custom_prologue = bytes_of ''Noise_Custom_App_Namespace_v2'';
          server = server_with_prologue custom_prologue (server_new server_keypair server_addr);
          client_matching = client_with_prologue custom_prologue
            (client_new (public_key server_keypair) server_addr);
          client_mismatched = client_with_prologue (bytes_of ''Noise_Mismatch_Namespace_v1'')
            (client_new (public_key server_keypair) server_addr)
      in bindA (assert_eq (ts_prologue server) custom_prologue) (\<lambda>_.
      bindA (assert_eq (tc_prologue client_matching) custom_prologue) (\<lambda>_.
      bindA (send_message P prof client_matching (call server) (bytes_of ''Melding med tilpasset prologue'')) (\<lambda>res.
      bindA (assertA (contains res (bytes_of ''Melding med tilpasset prologue''))) (\<lambda>_.
      expect_err (send_message P prof client_mismatched (call' server)
        (bytes_of ''Skal feile pga feil prologue'')))))))"

definition test_with_prologue_str_builder ::
  "primitives \<Rightarrow> profile \<Rightarrow> bytes \<Rightarrow> bytes \<Rightarrow> (tunnel_server \<Rightarrow> call) \<Rightarrow> (unit, unit) act" where
  "test_with_prologue_str_builder P prof os_random server_addr call =
     (let server_keypair = keypair_generate P os_random;
          prologue_str = bytes_of ''Noise_String_Prologue_v1'';
          server = server_with_prologue_str prologue_str (server_new server_keypair server_addr);
          client = client_with_prologue_str prologue_str (client_new (public_key server_keypair) server_addr)
      in bindA (assert_eq (ts_prologue server) prologue_str) (\<lambda>_.
      bindA (assert_eq (tc_prologue client) prologue_str) (\<lambda>_.
      bindA (send_message P prof client (call server) (bytes_of ''Tester with_prologue_str builder'')) (\<lambda>resp.
      assertA (contains resp (bytes_of ''Tester with_prologue_str builder''))))))"

section \<open>The server at the other end\<close>

text \<open>
  The call's connection is that of a joint run with the server's client task: each side reads
  exactly what the other has written. The timer, if there is one, does not fire.
\<close>

definition meets :: "primitives \<Rightarrow> profile \<Rightarrow> profile \<Rightarrow> tunnel_server \<Rightarrow> tunnel_client \<Rightarrow> bytes \<Rightarrow> call \<Rightarrow> bool" where
  "meets P prof prof' server client message call \<longleftrightarrow>
     length (call_random call) = 32 \<and> \<not> call_timer_fires call \<and>
     (\<exists>server_random c s x y. length server_random = 32 \<and>
        call_connect call = Some (connection (outbox s)) \<and>
        secure_exchange P prof client (call_random call) message (connection (outbox s)) = (c, x) \<and>
        handle_client_with_prologue P prof' (ts_keypair server) (ts_prologue server) server_random
          (connection (outbox c)) = (s, y))"

lemma meets_echo:
  assumes "session_primitives P" "ts_keypair server = from_private_bytes P secret" "length secret = 32"
    and "tc_server_pubkey client = public_key (ts_keypair server)" "ts_prologue server = tc_prologue client"
    and "utf8_valid m" "length m \<le> 65496" "meets P prof prof' server client m call"
  shows "send_message P prof client call m () = ((), Inr (REPLY_PREFIX @ m))"
proof -
  obtain server_random c s x y where run: "length (call_random call) = 32" "\<not> call_timer_fires call"
      "length server_random = 32" "call_connect call = Some (connection (outbox s))"
      "secure_exchange P prof client (call_random call) m (connection (outbox s)) = (c, x)"
      "handle_client_with_prologue P prof' (ts_keypair server) (tc_prologue client) server_random
        (connection (outbox c)) = (s, y)"
    using assms(5,8) unfolding meets_def by auto
  have "x = Inr (REPLY_PREFIX @ m)"
    using exchange_determined [OF assms(1) run(1,3) assms(2,3,4,6,7) run(5,6)] by blast
  then show ?thesis
    using run(2,4) send_secure_message_ok [OF run(5)] by (simp add: send_message_def liftA_def)
qed

lemma meets_refusal:
  assumes "session_primitives P"
    and "mismatched (tc_prologue client) (tc_server_pubkey client) (ts_prologue server) (ts_keypair server)"
    and "first_message_bound P (tc_prologue client) (tc_server_pubkey client) (call_random call)
      (ts_prologue server) (ts_keypair server)"
    and "meets P prof prof' server client m call"
  shows "send_message P prof client call m () = ((), Inl (Err Io))"
proof -
  obtain server_random c s x y where run: "\<not> call_timer_fires call" "call_connect call = Some (connection (outbox s))"
      "secure_exchange P prof client (call_random call) m (connection (outbox s)) = (c, x)"
      "handle_client_with_prologue P prof' (ts_keypair server) (ts_prologue server) server_random
        (connection (outbox c)) = (s, y)"
    using assms(4) unfolding meets_def by auto
  have "x = Inl (Err Io)" using mismatch_determined [OF assms(1-3) run(3,4)] by blast
  then show ?thesis
    using run(1,2) send_secure_message_ok [OF run(3)] by (simp add: send_message_def liftA_def)
qed

text \<open>There is such a call for every message that fits, and for every mismatch.\<close>

lemma meets_exists:
  assumes "session_primitives P" "ts_keypair server = from_private_bytes P secret" "length secret = 32"
    and "tc_server_pubkey client = public_key (ts_keypair server)" "ts_prologue server = tc_prologue client"
    and "utf8_valid m" "length m \<le> 65496" "length random = 32"
  shows "\<exists>call. call_random call = random \<and> meets P prof prof' server client m call"
proof -
  obtain c s where "secure_exchange P prof client random m (connection (outbox s)) = (c, Inr (REPLY_PREFIX @ m))"
      "handle_client_with_prologue P prof' (ts_keypair server) (tc_prologue client) random (connection (outbox c)) = (s, Inr ())"
    using echo_joint [OF assms(1,8,8,2,3,4,6,7), where prof = prof and prof' = prof'] by metis
  then have "meets P prof prof' server client m
      \<lparr>call_random = random, call_connect = Some (connection (outbox s)), call_timer_fires = False\<rparr>"
    using assms(5,8) by (auto simp: meets_def)
  then show ?thesis by (metis call.select_convs(1))
qed

section \<open>The tests pass\<close>

lemma generate_from_bytes: "keypair_generate P secret = from_private_bytes P secret"
  by (simp add: keypair_generate_def from_private_bytes_def)

lemma dec_bytes_ascii: "list_all (\<lambda>b. b \<le> 127) (dec_bytes n)"
proof (induction n rule: dec_bytes.induct)
  case (1 n)
  have digit: "(0x30 + word_of_nat k :: u8) \<le> 127" if "k < 10" for k
    using that by (simp add: word_le_nat_alt unat_word_ariths unat_of_nat)
  show ?case
    using 1 digit [of n] digit [of "n mod 10"] by (subst dec_bytes.simps) auto
qed

lemma length_dec_bytes: "length (dec_bytes n) \<le> n + 1"
proof (induction n rule: dec_bytes.induct)
  case (1 n)
  then show ?case by (subst dec_bytes.simps) auto
qed

text \<open>What holds of one call with a matching configuration.\<close>

lemma matching_call:
  assumes "session_primitives P" "ts_keypair server = from_private_bytes P secret" "length secret = 32"
    and "tc_server_pubkey client = public_key (ts_keypair server)" "ts_prologue server = tc_prologue client"
    and "list_all (\<lambda>b. b \<le> 127) m" "length m \<le> 65496" "meets P prof prof' server client m call"
  shows "bindA (send_message P prof client call m) (\<lambda>r. assertA (contains r m)) () = ((), Inr ())"
  using meets_echo [OF assms(1-5) utf8_valid_ascii [OF assms(6)] assms(7,8)]
  by (simp add: bindA_case contains_append act_simps)

lemma steps_all: "(\<And>m. m \<in> set ms \<Longrightarrow> m s = (s, Inr ())) \<Longrightarrow> steps ms s = (s, Inr ())"
proof (induction ms)
  case (Cons m ms)
  have "m s = (s, Inr ())" by (rule Cons.prems) simp
  moreover have "steps ms s = (s, Inr ())" using Cons by simp
  ultimately show ?case by (simp only: steps.simps bindA_case prod.case sum.case)
qed (simp add: ret_def)

lemmas configured = server_new_def client_new_def server_with_prologue_def client_with_prologue_def
  server_with_prologue_str_def client_with_prologue_str_def client_with_timeout_def
  server_with_max_connections_def generate_from_bytes

lemma concurrent_sessions_pass:
  assumes P: "session_primitives P" and keys: "keys = keypair_generate P secret" "length secret = 32"
    and met: "\<And>i. i < 5 \<Longrightarrow> meets P prof prof' (server_new keys addr) (client_new (public_key keys) addr)
      (bytes_of ''Samtidig sesjons-test fra klient #'' @ dec_bytes i) (call i)"
  shows "test_concurrent_sessions P prof keys addr call () = ((), Inr ())"
  unfolding test_concurrent_sessions_def
proof (rule steps_all)
  fix m
  assume "m \<in> set (map (\<lambda>i. let client = client_new (public_key keys) addr;
        msg = bytes_of ''Samtidig sesjons-test fra klient #'' @ dec_bytes i
      in bindA (unwrapA (send_message P prof client (call i) msg)) (\<lambda>resp. assertA (contains resp msg))) [0..<5])"
  then obtain i where i: "i < 5" and m: "m = (let client = client_new (public_key keys) addr;
        msg = bytes_of ''Samtidig sesjons-test fra klient #'' @ dec_bytes i
      in bindA (unwrapA (send_message P prof client (call i) msg)) (\<lambda>resp. assertA (contains resp msg)))"
    by auto
  let ?msg = "bytes_of ''Samtidig sesjons-test fra klient #'' @ dec_bytes i"
  have "list_all (\<lambda>b. b \<le> 127) ?msg" using dec_bytes_ascii [of i] by (simp add: bytes_of_def)
  then have "utf8_valid ?msg" by (rule utf8_valid_ascii)
  moreover have "length ?msg \<le> 65496" using length_dec_bytes [of i] i by simp
  ultimately have "send_message P prof (client_new (public_key keys) addr) (call i) ?msg () =
      ((), Inr (REPLY_PREFIX @ ?msg))"
    by (intro meets_echo [OF P _ keys(2) _ _ _ _ met [OF i]]) (simp_all add: configured keys(1))
  then show "m () = ((), Inr ())"
    using contains_append by (simp add: m Let_def bindA_case act_simps)
qed

lemma sequential_messages_pass:
  assumes P: "session_primitives P" and keys: "keys = keypair_generate P secret" "length secret = 32"
    and met: "\<And>i. 1 \<le> i \<Longrightarrow> i \<le> 10 \<Longrightarrow> meets P prof prof' (server_new keys addr) (client_new (public_key keys) addr)
      (bytes_of ''Sekvensiell testmelding #'' @ dec_bytes i) (call i)"
  shows "test_sequential_messages P prof keys addr call () = ((), Inr ())"
  unfolding test_sequential_messages_def Let_def
proof (rule steps_all)
  fix m
  assume "m \<in> set (map (\<lambda>i. bindA (send_message P prof (client_new (public_key keys) addr) (call i)
        (bytes_of ''Sekvensiell testmelding #'' @ dec_bytes i)) (\<lambda>response.
      assertA (contains response (bytes_of ''Sekvensiell testmelding #'' @ dec_bytes i)))) [1..<11])"
  then obtain i where i: "1 \<le> i" "i \<le> 10" and m: "m = bindA (send_message P prof (client_new (public_key keys) addr) (call i)
        (bytes_of ''Sekvensiell testmelding #'' @ dec_bytes i)) (\<lambda>response.
      assertA (contains response (bytes_of ''Sekvensiell testmelding #'' @ dec_bytes i)))"
    by auto
  have "list_all (\<lambda>b. b \<le> 127) (bytes_of ''Sekvensiell testmelding #'' @ dec_bytes i)"
    using dec_bytes_ascii [of i] by (simp add: bytes_of_def)
  then show "m () = ((), Inr ())"
    unfolding m
    by (intro matching_call [OF P _ keys(2) _ _ _ _ met [OF i]])
      (use length_dec_bytes [of i] i in \<open>simp_all add: configured keys(1)\<close>)
qed

lemma single_messages_pass:
  assumes P: "session_primitives P" and keys: "keys = keypair_generate P secret" "length secret = 32"
  shows "meets P prof prof' (server_new keys addr) (client_new (public_key keys) addr) (replicate 32768 0x41) call \<Longrightarrow>
      test_large_payload_transfer P prof keys addr call () = ((), Inr ())"
    and "meets P prof prof' (server_new keys addr) (client_new (public_key keys) addr) [] call \<Longrightarrow>
      test_empty_payload_transfer P prof keys addr call () = ((), Inr ())"
proof -
  assume "meets P prof prof' (server_new keys addr) (client_new (public_key keys) addr) (replicate 32768 0x41) call"
  then have "bindA (send_message P prof (client_new (public_key keys) addr) call (replicate 32768 0x41))
      (\<lambda>r. assertA (contains r (replicate 32768 0x41))) () = ((), Inr ())"
    by (intro matching_call [OF P _ keys(2)]) (simp_all add: configured keys(1) list_all_iff)
  then show "test_large_payload_transfer P prof keys addr call () = ((), Inr ())"
    by (simp add: test_large_payload_transfer_def Let_def)
next
  assume "meets P prof prof' (server_new keys addr) (client_new (public_key keys) addr) [] call"
  then have "send_message P prof (client_new (public_key keys) addr) call [] () = ((), Inr (REPLY_PREFIX @ []))"
    by (intro meets_echo [OF P _ keys(2)]) (simp_all add: configured keys(1) utf8_valid_ascii)
  then show "test_empty_payload_transfer P prof keys addr call () = ((), Inr ())"
    by (simp add: test_empty_payload_transfer_def bindA_case REPLY_PREFIX_def act_simps)
qed

lemma builder_configs_pass:
  assumes P: "session_primitives P" and keys: "keys = keypair_generate P secret" "length secret = 32"
    and met: "meets P prof prof' (server_new keys addr)
      (client_with_timeout 3000000000 (client_new (public_key keys) addr)) (bytes_of ''Builder test med timeout'') call"
  shows "test_client_server_builder_configs P prof os_random keys addr call () = ((), Inr ())"
proof -
  let ?m = "bytes_of ''Builder test med timeout''"
  have "list_all (\<lambda>b. b \<le> 127) ?m" by (simp add: bytes_of_def)
  then have "bindA (send_message P prof (client_with_timeout 3000000000 (client_new (public_key keys) addr)) call ?m)
      (\<lambda>r. assertA (contains r ?m)) () = ((), Inr ())"
    by (intro matching_call [OF P _ keys(2) _ _ _ _ met]) (simp_all add: configured keys(1))
  then show ?thesis
    by (simp add: test_client_server_builder_configs_def Let_def configured active_connections_def
        bindA_case [of "assert_eq _ _"] act_simps)
qed

lemma prologue_tests_pass:
  assumes P: "session_primitives P" and secret: "length secret = 32"
  shows "(\<And>server. server = server_with_prologue_str (bytes_of ''Noise_String_Prologue_v1'')
        (server_new (keypair_generate P secret) addr) \<Longrightarrow>
      meets P prof prof' server (client_with_prologue_str (bytes_of ''Noise_String_Prologue_v1'')
        (client_new (p_x25519_base P secret) addr)) (bytes_of ''Tester with_prologue_str builder'') (call server)) \<Longrightarrow>
      test_with_prologue_str_builder P prof secret addr call () = ((), Inr ())"
    and "(\<And>server. server = server_with_prologue (bytes_of ''Noise_Custom_App_Namespace_v2'')
        (server_new (keypair_generate P secret) addr) \<Longrightarrow>
      meets P prof prof' server (client_with_prologue (bytes_of ''Noise_Custom_App_Namespace_v2'')
        (client_new (p_x25519_base P secret) addr)) (bytes_of ''Melding med tilpasset prologue'') (call server) \<and>
      meets P prof prof' server (client_with_prologue (bytes_of ''Noise_Mismatch_Namespace_v1'')
        (client_new (p_x25519_base P secret) addr)) (bytes_of ''Skal feile pga feil prologue'') (call' server) \<and>
      first_message_bound P (bytes_of ''Noise_Mismatch_Namespace_v1'') (p_x25519_base P secret)
        (call_random (call' server)) (bytes_of ''Noise_Custom_App_Namespace_v2'') (keypair_generate P secret)) \<Longrightarrow>
      test_custom_prologue_agreement_and_mismatch P prof secret addr call call' () = ((), Inr ())"
proof -
  have pub: "public_key (keypair_generate P secret) = p_x25519_base P secret" by (simp add: keypair_generate_def)
  show "test_with_prologue_str_builder P prof secret addr call () = ((), Inr ())"
    if met: "\<And>server. server = server_with_prologue_str (bytes_of ''Noise_String_Prologue_v1'')
        (server_new (keypair_generate P secret) addr) \<Longrightarrow>
      meets P prof prof' server (client_with_prologue_str (bytes_of ''Noise_String_Prologue_v1'')
        (client_new (p_x25519_base P secret) addr)) (bytes_of ''Tester with_prologue_str builder'') (call server)"
  proof -
    let ?s = "server_with_prologue_str (bytes_of ''Noise_String_Prologue_v1'') (server_new (keypair_generate P secret) addr)"
    let ?c = "client_with_prologue_str (bytes_of ''Noise_String_Prologue_v1'') (client_new (p_x25519_base P secret) addr)"
    let ?m = "bytes_of ''Tester with_prologue_str builder''"
    have "list_all (\<lambda>b. b \<le> 127) ?m" by (simp add: bytes_of_def)
    then have run: "bindA (send_message P prof ?c (call ?s) ?m) (\<lambda>r. assertA (contains r ?m)) () = ((), Inr ())"
      by (intro matching_call [OF P _ secret _ _ _ _ met [OF refl]])
        (simp_all add: configured from_private_bytes_def)
    have texts: "ts_prologue ?s = bytes_of ''Noise_String_Prologue_v1''" "tc_prologue ?c = bytes_of ''Noise_String_Prologue_v1''"
      by (simp_all add: configured)
    show ?thesis
      by (simp add: test_with_prologue_str_builder_def Let_def pub texts bindA_case [of "assert_eq _ _"] check_apply(2) run)
  qed
  show "test_custom_prologue_agreement_and_mismatch P prof secret addr call call' () = ((), Inr ())"
    if met: "\<And>server. server = server_with_prologue (bytes_of ''Noise_Custom_App_Namespace_v2'')
        (server_new (keypair_generate P secret) addr) \<Longrightarrow>
      meets P prof prof' server (client_with_prologue (bytes_of ''Noise_Custom_App_Namespace_v2'')
        (client_new (p_x25519_base P secret) addr)) (bytes_of ''Melding med tilpasset prologue'') (call server) \<and>
      meets P prof prof' server (client_with_prologue (bytes_of ''Noise_Mismatch_Namespace_v1'')
        (client_new (p_x25519_base P secret) addr)) (bytes_of ''Skal feile pga feil prologue'') (call' server) \<and>
      first_message_bound P (bytes_of ''Noise_Mismatch_Namespace_v1'') (p_x25519_base P secret)
        (call_random (call' server)) (bytes_of ''Noise_Custom_App_Namespace_v2'') (keypair_generate P secret)"
  proof -
    let ?s = "server_with_prologue (bytes_of ''Noise_Custom_App_Namespace_v2'') (server_new (keypair_generate P secret) addr)"
    let ?c = "client_with_prologue (bytes_of ''Noise_Custom_App_Namespace_v2'') (client_new (p_x25519_base P secret) addr)"
    let ?c' = "client_with_prologue (bytes_of ''Noise_Mismatch_Namespace_v1'') (client_new (p_x25519_base P secret) addr)"
    let ?m = "bytes_of ''Melding med tilpasset prologue''" and ?m' = "bytes_of ''Skal feile pga feil prologue''"
    note met = met [OF refl]
    have "utf8_valid ?m" by (rule utf8_valid_ascii) (simp add: bytes_of_def)
    then have run: "send_message P prof ?c (call ?s) ?m () = ((), Inr (REPLY_PREFIX @ ?m))"
      by (intro meets_echo [OF P _ secret _ _ _ _ met [THEN conjunct1]])
        (simp_all add: configured from_private_bytes_def)
    have refused: "send_message P prof ?c' (call' ?s) ?m' () = ((), Inl (Err Io))"
    proof (rule meets_refusal [OF P _ _ met [THEN conjunct2, THEN conjunct1]])
      show "mismatched (tc_prologue ?c') (tc_server_pubkey ?c') (ts_prologue ?s) (ts_keypair ?s)"
        by (simp add: mismatched_def configured from_private_bytes_def length_base [OF P] bytes_of_def)
    qed (use met in \<open>simp add: configured\<close>)
    have texts: "ts_prologue ?s = bytes_of ''Noise_Custom_App_Namespace_v2''"
        "tc_prologue ?c = bytes_of ''Noise_Custom_App_Namespace_v2''"
      by (simp_all add: configured)
    show ?thesis
      by (simp add: test_custom_prologue_agreement_and_mismatch_def Let_def pub texts bindA_case [of "assert_eq _ _"]
          check_apply(2) bindA_case [of "send_message _ _ _ _ _"] run refused expect_err_eq
          bindA_case [of "assertA _"] contains_append check_apply(1))
  qed
qed

lemma wrong_pubkey_passes:
  assumes P: "session_primitives P"
    and fake: "p_x25519_base P os_random \<noteq> public_key keys" "length (public_key keys) = 32"
    and "first_message_bound P PROTOCOL_NAME (p_x25519_base P os_random) (call_random call) PROTOCOL_NAME keys"
    and "meets P prof prof' (server_new keys addr) (client_new (p_x25519_base P os_random) addr)
      (bytes_of ''Skal feile handshake'') call"
  shows "test_wrong_server_pubkey_fails_handshake P prof os_random addr call () = ((), Inr ())"
proof -
  have "send_message P prof (client_new (p_x25519_base P os_random) addr) call (bytes_of ''Skal feile handshake'') () =
      ((), Inl (Err Io))"
    by (rule meets_refusal [OF P _ _ assms(5)])
      (use fake assms(4) in \<open>simp_all add: mismatched_def configured length_base [OF P]\<close>)
  then show ?thesis
    by (simp add: test_wrong_server_pubkey_fails_handshake_def keypair_generate_def expect_err_eq)
qed

text \<open>The key pair read back from its own hexadecimal text is the same key pair.\<close>

lemma hex_configured_passes:
  assumes P: "session_primitives P" "hex_inverts P" and secret: "length secret = 32"
    and met: "\<And>server. server = server_new (keypair_generate P secret) addr \<Longrightarrow>
      meets P prof prof' server (client_new (p_x25519_base P secret) addr) HEX_TEST_MESSAGE (call server)"
  shows "test_hex_configured_client_server P prof secret addr call () = ((), Inr ())"
proof -
  let ?keys = "keypair_generate P secret" and ?c = "client_new (p_x25519_base P secret) addr"
  have pub: "public_key ?keys = p_x25519_base P secret" "length (public_key ?keys) = 32"
    by (simp_all add: keypair_generate_def length_base [OF P(1)])
  have keys: "from_private_hex P (private_key_hex P ?keys) = Inr ?keys"
      "parse_public_key_hex P (public_key_hex P ?keys) = Inr (p_x25519_base P secret)"
    using read_private_hex [OF P(2) secret] read_public_hex [OF P(2) pub(2)]
    by (simp_all add: private_key_hex_def public_key_hex_def keypair_generate_def from_private_bytes_def)
  have "utf8_valid (bytes_of ''Ende-til-ende test med hex-konfigurerte n'')" "utf8_valid (bytes_of ''kler'')"
    by (rule utf8_valid_ascii, simp add: bytes_of_def)+
  moreover have "utf8_valid [0xC3, 0xB8]"
    by (simp add: utf8_valid.simps(2) utf8_head_def cont_byte_def)
  ultimately have "utf8_valid HEX_TEST_MESSAGE" "length HEX_TEST_MESSAGE \<le> 65496"
    by (simp_all add: HEX_TEST_MESSAGE_def utf8_valid_append utf8_valid_append [of "[0xC3, 0xB8]", simplified])
  then have run: "send_message P prof ?c (call (server_new ?keys addr)) HEX_TEST_MESSAGE () =
      ((), Inr (REPLY_PREFIX @ HEX_TEST_MESSAGE))"
    by (intro meets_echo [OF P(1) _ secret _ _ _ _ met [OF refl]]) (simp_all add: configured from_private_bytes_def)
  then show ?thesis
    by (simp add: test_hex_configured_client_server_def Let_def bindA_case liftA_apply keys contains_append act_simps)
qed

end
