(* ===== verification/Public_Api_Tests.thy ===== *)
theory Public_Api_Tests
  imports Object_Tests Client_Tests
begin

text \<open>
  The integration tests of the crate's public objects (src/tests/integration_tunnel.rs): the
  builders and queries of server and client, frames, ciphers, metrics and errors. One of
  them makes a call to a running server as well.
\<close>

section \<open>The tests\<close>

definition test_client_and_server_accessors :: "primitives \<Rightarrow> bytes \<Rightarrow> unit result" where
  "test_client_and_server_accessors P os_random =
     (let keypair = keypair_generate P os_random;
          addr = bytes_of ''127.0.0.1:9999'';
          server = server_new keypair addr;
          client = client_new (public_key keypair) addr
      in asserts
        [ts_bind_addr server = addr, public_key (ts_keypair server) = public_key keypair,
         server_public_key_hex P server = public_key_hex P keypair,
         tc_target_addr client = addr, tc_server_pubkey client = public_key keypair,
         client_server_pubkey_hex P client = public_key_hex P keypair])"

definition test_wireframe_from_bytes_integration :: "unit result" where
  "test_wireframe_from_bytes_integration =
     (let frames =
        [handshake_init_frame 0 [1, 2, 3, 4, 5], handshake_resp_frame 0 [6, 7, 8, 9, 10],
         data_frame 12345 (bytes_of ''Test payload bytes''), heartbeat_frame 999 (bytes_of ''PING''),
         close_frame 1000]
      in snd (steps (map (\<lambda>frame.
           let serialized = serialize frame
           in bindA (liftA (from_bytes serialized)) (\<lambda>parsed.
              bindA (assert_eq parsed frame) (\<lambda>_.
              bindA (liftA (from_bytes serialized)) (\<lambda>try_parsed.
              assert_eq try_parsed frame)))) frames) ()))"

definition test_capacity_and_timeout_query_helpers :: "primitives \<Rightarrow> bytes \<Rightarrow> unit result" where
  "test_capacity_and_timeout_query_helpers P os_random =
     (let keypair = keypair_generate P os_random;
          addr = bytes_of ''127.0.0.1:7777'';
          server_unlimited = server_new keypair addr;
          server_limited = server_with_max_connections 0 (server_new keypair addr);
          client_no_timeout = client_new (public_key keypair) addr;
          client_with_timeout = client_with_timeout (2 * 1000000000) client_no_timeout
      in asserts
        [\<not> has_active_connections server_unlimited, \<not> is_at_capacity server_unlimited,
         is_at_capacity server_limited,
         \<not> client_has_timeout client_no_timeout, client_has_timeout client_with_timeout])"

definition test_client_from_hex_and_timeout_millis :: "primitives \<Rightarrow> bytes \<Rightarrow> unit result" where
  "test_client_from_hex_and_timeout_millis P os_random =
     (let keypair = keypair_generate P os_random;
          addr = bytes_of ''127.0.0.1:6543''
      in case client_from_hex P (public_key_hex P keypair) addr of
           Inl e \<Rightarrow> Inl e
         | Inr client \<Rightarrow>
             (let client = client_with_timeout_millis 1500 client
              in asserts
                [tc_server_pubkey client = public_key keypair,
                 tc_timeout client = Some (1500 * 1000000), client_has_timeout client,
                 is_err (client_from_hex P (bytes_of ''invalid-hex'') addr)]))"

definition test_server_from_hex :: "primitives \<Rightarrow> bytes \<Rightarrow> unit result" where
  "test_server_from_hex P os_random =
     (let keypair = keypair_generate P os_random;
          addr = bytes_of ''127.0.0.1:6544''
      in case server_from_hex P (private_key_hex P keypair) addr of
           Inl e \<Rightarrow> Inl e
         | Inr server \<Rightarrow>
             asserts
               [public_key (ts_keypair server) = public_key keypair,
                server_public_key_hex P server = public_key_hex P keypair,
                is_err (server_from_hex P (bytes_of ''invalid-hex'') addr)])"

definition test_server_available_capacity_and_wireframe_data_from_slice ::
  "primitives \<Rightarrow> bytes \<Rightarrow> unit result" where
  "test_server_available_capacity_and_wireframe_data_from_slice P os_random =
     (let keypair = keypair_generate P os_random;
          addr = bytes_of ''127.0.0.1:9191'';
          server = server_with_max_connections 10 (server_new keypair addr);
          raw_slice = bytes_of ''Integration test payload slice'';
          frame = data_from_slice 1234 raw_slice;
          serialized = serialize frame
      in snd (steps
        [expect (\<lambda>server. available_capacity server = Some 10),
         expect (\<lambda>server. active_connections server = 0),
         modifyA reset_connections,
         expect (\<lambda>server. available_capacity server = Some 10),
         assert_eq (wf_nonce frame) 1234, assertA (is_data frame), assert_eq (wf_payload frame) raw_slice,
         bindA (liftA (from_bytes serialized)) (\<lambda>parsed. assert_eq parsed frame)] server))"

text \<open>The elapsed time since the last activity is read at the end; \<open>now\<close> are the clock's values.\<close>

definition test_error_conversions_and_metrics_integration ::
  "primitives \<Rightarrow> profile \<Rightarrow> key_pair \<Rightarrow> bytes \<Rightarrow> call \<Rightarrow> (nat \<Rightarrow> nat) \<Rightarrow> unit result" where
  "test_error_conversions_and_metrics_integration P prof server_keys server_addr call now =
     (let tunnel_err = TE_Io (bytes_of ''Nettverksfeil'');
          custom_err = TE_Timeout (bytes_of ''Sesjon svarte ikke'');
          client = client_new (public_key server_keys) server_addr;
          msg = bytes_of ''Metrikk testmelding over tunnel''
      in snd (steps
        [assertA (case tunnel_err of TE_Io _ \<Rightarrow> True | _ \<Rightarrow> False),
         assertA (contains (tunnel_error_display custom_err) (bytes_of ''Sesjon svarte ikke'')),
         record_tx prof (length msg) (now 1),
         bindA (liftA (snd (send_message P prof client call msg ()))) (\<lambda>reply.
         record_rx prof (length reply) (now 2)),
         expect (\<lambda>m. frames_sent m = 1), expect (\<lambda>m. frames_received m = 1),
         bindA (bindA (getsA (total_bytes prof)) arithA) (\<lambda>n. assertA (n > 0)),
         expect (\<lambda>m. idle_duration m (now 3) < 2 * 1000000000)]
        (metrics_new (now 0))))"

definition test_crypto_ephemeral_and_cipherstate_exhaustion_integration ::
  "primitives \<Rightarrow> bytes \<Rightarrow> bytes \<Rightarrow> unit result" where
  "test_crypto_ephemeral_and_cipherstate_exhaustion_integration P static_random ephem_random =
     (let static_peer = keypair_generate P static_random;
          ephem = ephemeral_generate P ephem_random;
          secret_from_ephem = ephemeral_diffie_hellman P ephem (public_key static_peer);
          secret_from_static = diffie_hellman P (private_key static_peer) (eph_public_key ephem);
          test_key = replicate KEY_LEN 0x5A;
          cipher = cipher_with_nonce test_key (u64_max - 100)
      in asserts
        [secret_from_ephem = secret_from_static, is_near_exhaustion cipher 200,
         \<not> is_near_exhaustion cipher 50, remaining_nonces cipher = 100])"

definition test_server_idle_state_and_wireframe_utf8_integration :: "primitives \<Rightarrow> bytes \<Rightarrow> unit result" where
  "test_server_idle_state_and_wireframe_utf8_integration P os_random =
     (let server = server_new (keypair_generate P os_random) (bytes_of ''127.0.0.1:9292'');
          frame = data_from_slice 99 (bytes_of ''Full integration test text'')
      in asserts
        [is_idle server, \<not> has_active_connections server,
         payload_utf8_lossy frame = bytes_of ''Full integration test text''])"

definition test_metrics_rates_wireframe_parts_and_keys_swapped_integration ::
  "profile \<Rightarrow> (nat \<Rightarrow> nat) \<Rightarrow> unit result" where
  "test_metrics_rates_wireframe_parts_and_keys_swapped_integration prof now =
     snd (steps
       [record_tx prof 500 (now 1),
        record_rx prof 500 (now 2),
        bindA (bindA (getsA (\<lambda>m. bytes_per_sec prof m (now 3))) arithA) (\<lambda>r. assertA (f64_nonneg r)),
        bindA (bindA (getsA (\<lambda>m. frames_per_sec prof m (now 4))) arithA) (\<lambda>r. assertA (f64_nonneg r)),
        (let frame = heartbeat_frame 777 (bytes_of ''HEARTBEAT_DATA'') in
         case into_parts frame of (msg_type, nonce, payload) \<Rightarrow>
           steps [assert_eq msg_type Heartbeat, assert_eq nonce 777, assert_eq payload (bytes_of ''HEARTBEAT_DATA'')]),
        assert_eq (into_payload (data_frame 888 (bytes_of ''DATA_PAYLOAD''))) (bytes_of ''DATA_PAYLOAD''),
        (let k1 = replicate KEY_LEN 0xAA; k2 = replicate KEY_LEN 0xBB;
             swapped = session_keys_swapped (session_keys_new k1 k2)
         in steps [assert_eq (client_write_key swapped) k2, assert_eq (server_write_key swapped) k1])]
       (metrics_new (now 0)))"

section \<open>They pass\<close>

lemma builder_tests_ok:
  "test_client_and_server_accessors P r = Inr ()"
  "test_capacity_and_timeout_query_helpers P r = Inr ()"
  "test_server_idle_state_and_wireframe_utf8_integration P r = Inr ()"
proof -
  have "utf8_valid (bytes_of ''Full integration test text'')"
    by (rule utf8_valid_ascii) (simp add: bytes_of_def)
  then have content: "payload_utf8_lossy (data_from_slice 99 (bytes_of ''Full integration test text'')) =
      bytes_of ''Full integration test text''"
    by (simp add: run_frame lossy_valid)
  show "test_client_and_server_accessors P r = Inr ()" "test_capacity_and_timeout_query_helpers P r = Inr ()"
      "test_server_idle_state_and_wireframe_utf8_integration P r = Inr ()"
    unfolding test_client_and_server_accessors_def test_capacity_and_timeout_query_helpers_def
      test_server_idle_state_and_wireframe_utf8_integration_def Let_def content
    by (simp_all add: asserts_pass configured server_public_key_hex_def client_server_pubkey_hex_def
        public_key_hex_def has_active_connections_def is_at_capacity_def active_connections_def is_idle_def
        client_has_timeout_def)
qed

lemma frame_tests_ok:
  "test_wireframe_from_bytes_integration = Inr ()"
  "test_server_available_capacity_and_wireframe_data_from_slice P r = Inr ()"
proof -
  have round: "bindA (liftA (from_bytes (serialize f))) (\<lambda>parsed. bindA (assert_eq parsed f) (\<lambda>_.
      bindA (liftA (from_bytes (serialize f))) (\<lambda>try_parsed. assert_eq try_parsed f))) () = ((), Inr ())"
    if "valid_frame f" for f
  proof -
    have "from_bytes (serialize f) = Inr f" using that by (simp add: from_bytes_Inr)
    then show ?thesis by (simp add: bindA_case liftA_apply check_apply(2))
  qed
  have "snd (steps (map (\<lambda>f. bindA (liftA (from_bytes (serialize f))) (\<lambda>parsed. bindA (assert_eq parsed f) (\<lambda>_.
      bindA (liftA (from_bytes (serialize f))) (\<lambda>try_parsed. assert_eq try_parsed f)))) fs) ()) = Inr ()"
    if "list_all valid_frame fs" for fs
  proof -
    have "steps (map (\<lambda>f. bindA (liftA (from_bytes (serialize f))) (\<lambda>parsed. bindA (assert_eq parsed f) (\<lambda>_.
        bindA (liftA (from_bytes (serialize f))) (\<lambda>try_parsed. assert_eq try_parsed f)))) fs) () = ((), Inr ())"
      by (rule steps_all) (use round that in \<open>auto simp: list_all_iff\<close>)
    then show ?thesis by simp
  qed
  from this [of "[handshake_init_frame 0 [1, 2, 3, 4, 5], handshake_resp_frame 0 [6, 7, 8, 9, 10],
      data_frame 12345 (bytes_of ''Test payload bytes''), heartbeat_frame 999 (bytes_of ''PING''), close_frame 1000]"]
  show "test_wireframe_from_bytes_integration = Inr ()"
    unfolding test_wireframe_from_bytes_integration_def Let_def by (simp add: valid_frame_le run_frame)
  have "valid_frame (data_from_slice 1234 (bytes_of ''Integration test payload slice''))"
    by (simp add: valid_frame_le run_frame)
  then have ok: "from_bytes (serialize (data_from_slice 1234 (bytes_of ''Integration test payload slice''))) =
      Inr (data_from_slice 1234 (bytes_of ''Integration test payload slice''))"
    by (simp add: from_bytes_Inr)
  show "test_server_available_capacity_and_wireframe_data_from_slice P r = Inr ()"
    unfolding test_server_available_capacity_and_wireframe_data_from_slice_def Let_def ok
    by (simp add: run_tests configured available_capacity_def active_connections_def reset_connections_def
        liftA_apply check_apply(2) u64_saturating_sub_def) (simp add: run_frame check_apply)
qed

lemma hex_tests_ok:
  assumes "dh_lengths P" "hex_inverts P" "hex_halves P" "length r = 32"
  shows "test_client_from_hex_and_timeout_millis P r = Inr ()" "test_server_from_hex P r = Inr ()"
proof -
  have trim: "trim (bytes_of ''invalid-hex'') = bytes_of ''invalid-hex''"
    by (rule trim_printable) (simp add: printable_ascii_def bytes_of_def)
  have bad: "is_err (client_from_hex P (bytes_of ''invalid-hex'') a)" "is_err (server_from_hex P (bytes_of ''invalid-hex'') a)" for a
    using assms(3) [unfolded hex_halves_def, rule_format, of "bytes_of ''invalid-hex''"] trim
    by (auto simp: is_err_def client_from_hex_def server_from_hex_def from_private_hex_def parse_public_key_hex_def
        hex_halves_def KEY_LEN_def split: option.split)
  have pub: "length (p_x25519_base P r) = 32" using assms(1) by (simp add: dh_lengths_def)
  have good: "client_from_hex P (public_key_hex P (keypair_generate P r)) a = Inr (client_new (p_x25519_base P r) a)"
      "server_from_hex P (private_key_hex P (keypair_generate P r)) a = Inr (server_new (keypair_generate P r) a)" for a
    by (simp_all add: client_from_hex_def server_from_hex_def public_key_hex_def private_key_hex_def keypair_generate_def
        read_public_hex [OF assms(2) pub] read_private_hex [OF assms(2,4)] from_private_bytes_def)
  show "test_client_from_hex_and_timeout_millis P r = Inr ()" "test_server_from_hex P r = Inr ()"
    unfolding test_client_from_hex_and_timeout_millis_def test_server_from_hex_def Let_def good sum.case
    by (simp_all add: asserts_pass bad configured client_with_timeout_millis_def client_has_timeout_def
        server_public_key_hex_def public_key_hex_def from_private_bytes_def)
qed

lemma cipher_test_ok:
  assumes "session_primitives P" "length r = 32" "length e = 32"
  shows "test_crypto_ephemeral_and_cipherstate_exhaustion_integration P r e = Inr ()"
  using dh_symmetric [OF assms(1,3,2)]
  by (simp add: test_crypto_ephemeral_and_cipherstate_exhaustion_integration_def asserts_pass keypair_generate_def
      ephemeral_generate_def ephemeral_diffie_hellman_def diffie_hellman_def is_near_exhaustion_def
      remaining_nonces_def cipher_with_nonce_def u64_saturating_sub_def u64_max_def)

lemma parts_test_ok: "test_metrics_rates_wireframe_parts_and_keys_swapped_integration prof now = Inr ()"
proof -
  let ?m0 = "metrics_new (now 0)"
  let ?m1 = "?m0\<lparr>bytes_sent := 500, frames_sent := 1, last_activity := now 1\<rparr>"
  let ?m2 = "?m0\<lparr>bytes_sent := 500, frames_sent := 1, bytes_received := 500, frames_received := 1,
    last_activity := now 2\<rparr>"
  have totals: "total_bytes prof ?m2 = Some 1000" "total_frames prof ?m2 = Some 2"
    by (simp_all add: total_bytes_def total_frames_def u64_add_def metrics_new_def)
  obtain a b where rates: "bytes_per_sec prof ?m2 (now 3) = Some (Finite a)" "0 \<le> a"
      "frames_per_sec prof ?m2 (now 4) = Some (Finite b)" "0 \<le> b"
    using rates_defined(1) [OF totals(1)] rates_defined(2) [OF totals(2)] by meson
  have run: "record_tx prof 500 (now 1) ?m0 = (?m1, Inr ())" "record_rx prof 500 (now 2) ?m1 = (?m2, Inr ())"
    by (simp_all add: record_tx_def record_rx_def run_tests metrics_new_def)
  show ?thesis
    by (simp add: test_metrics_rates_wireframe_parts_and_keys_swapped_integration_def bindA_case run getsA_def arithA_def
        rates check_apply ret_def Let_def del: One_nat_def)
      (simp add: run_frame bindA_case check_apply session_keys_swapped_def session_keys_new_def assert_eq_def assertA_def ret_def)
qed

lemma metrics_test_passes:
  assumes P: "session_primitives P" and keys: "keys = keypair_generate P secret" "length secret = 32"
    and met: "meets P prof prof' (server_new keys addr) (client_new (public_key keys) addr)
      (bytes_of ''Metrikk testmelding over tunnel'') call"
    and quick: "now 3 - now 2 < 2000000000"
  shows "test_error_conversions_and_metrics_integration P prof keys addr call now = Inr ()"
proof -
  let ?msg = "bytes_of ''Metrikk testmelding over tunnel''"
  have "utf8_valid ?msg" by (rule utf8_valid_ascii) (simp add: bytes_of_def)
  then have reply: "send_message P prof (client_new (public_key keys) addr) call ?msg () = ((), Inr (REPLY_PREFIX @ ?msg))"
    by (intro meets_echo [OF P _ keys(2) _ _ _ _ met]) (simp_all add: configured keys(1))
  have display: "contains (tunnel_error_display (TE_Timeout (bytes_of ''Sesjon svarte ikke''))) (bytes_of ''Sesjon svarte ikke'')"
    by (simp add: contains_append)
  let ?m0 = "metrics_new (now 0)"
  let ?m1 = "?m0\<lparr>bytes_sent := 31, frames_sent := 1, last_activity := now 1\<rparr>"
  let ?m2 = "?m0\<lparr>bytes_sent := 31, frames_sent := 1, bytes_received := 46, frames_received := 1,
    last_activity := now 2\<rparr>"
  have run: "record_tx prof 31 (now 1) ?m0 = (?m1, Inr ())" "record_rx prof 46 (now 2) ?m1 = (?m2, Inr ())"
    by (simp_all add: record_tx_def record_rx_def run_tests metrics_new_def)
  have totals: "total_bytes prof ?m2 = Some 77"
    by (simp add: total_bytes_def u64_add_def metrics_new_def)
  define msg where "msg = ?msg"
  have len: "length msg = 31" "length REPLY_PREFIX = 15" by (simp_all add: msg_def REPLY_PREFIX_def)
  show ?thesis
    unfolding test_error_conversions_and_metrics_integration_def Let_def msg_def [symmetric]
    using quick
    by (simp add: bindA_case run display len reply [folded msg_def] liftA_apply getsA_def arithA_def totals expect_eq
        check_apply ret_def idle_duration_def del: tunnel_error_display.simps One_nat_def)
qed

text \<open>
  Together: the tests of the public objects pass in both build profiles, for every key that is
  drawn and every reading of the clock; the call to the server is one of a joint run, and the
  time from its end to the last reading of the clock is below two seconds.
\<close>

theorem public_api_tests_pass:
  assumes P: "session_primitives P" "hex_inverts P" "hex_halves P" and "length r = 32" "length e = 32"
    and "meets P prof prof' (server_new (keypair_generate P r) addr)
      (client_new (public_key (keypair_generate P r)) addr) (bytes_of ''Metrikk testmelding over tunnel'') call"
    and "now 3 - now 2 < 2000000000"
  shows "[test_client_and_server_accessors P r, test_wireframe_from_bytes_integration,
    test_capacity_and_timeout_query_helpers P r, test_client_from_hex_and_timeout_millis P r,
    test_server_from_hex P r, test_server_available_capacity_and_wireframe_data_from_slice P r,
    test_error_conversions_and_metrics_integration P prof (keypair_generate P r) addr call now,
    test_crypto_ephemeral_and_cipherstate_exhaustion_integration P r e,
    test_server_idle_state_and_wireframe_utf8_integration P r,
    test_metrics_rates_wireframe_parts_and_keys_swapped_integration prof now] = replicate 10 (Inr ())"
  unfolding builder_tests_ok frame_tests_ok parts_test_ok cipher_test_ok [OF P(1) assms(4,5)]
    hex_tests_ok [OF session_primitivesD(2) [OF P(1)] P(2,3) assms(4)]
    metrics_test_passes [OF P(1) refl assms(4,6,7)]
  by (simp add: eval_nat_numeral)

end
