(* ===== verification/Spec2Isabelle.thy ===== *)
theory Spec2Isabelle
  imports Message_Type Replay Wire Cipher Stats Handshake Transport Client End_To_End
    Interactive Dialogue Determinacy Client_Verdicts Integrity Server Panic_Freedom Client_Safety Texts Verify Cli Rates Benchmark Isolation Examples
    Replayed Refusal Protocol_Tests Crypto_Tests Object_Tests Session_Tests Client_Tests Public_Api_Tests
begin

text \<open>
  Noise-Tunnel-RS, an encrypted session tunnel over TCP: a client that knows the server's
  static X25519 key runs a one-round-trip handshake with it and then exchanges frames
  sealed with ChaCha20-Poly1305 under two derived keys.

  Parts of the program and the theories that model them, from the bottom up. Source paths are
  those of the repository under src/.

  - \<open>Prelude\<close>: bytes and machine words, little- and big-endian conversion, and Rust's 64-bit
    arithmetic in the two build profiles (\<open>Debug\<close> panics on overflow, \<open>Release\<close> wraps).
    \<open>Utf8\<close>: what the program uses of strings (lossy and strict decoding, trimming, decimal
    numbers). \<open>Errors\<close>: every error site as a constructor of \<open>terror\<close>, panics as \<open>panic\<close>,
    Rust's slices, indices and \<open>copy_from_slice\<close> with their panics, and actions over a state
    that return the state also when they fail. \<open>Net\<close>: one TCP connection
    as a task sees it, with the bytes still to come, the bytes sent, a script of write faults
    and the clock.
  - \<open>Message_Type\<close>, \<open>Wire\<close> (src/protocol/mod.rs): message types and the length-prefixed frame
    with its serialiser, the buffer parser and the stream reader. \<open>Replay\<close>: the anti-replay
    filter with its 128-bit bitmap.
  - \<open>Primitives\<close>: the cryptographic and hexadecimal crates as a record of functions with their
    documented laws as named predicates, and the toy instance that the witnesses use. \<open>Keys\<close>,
    \<open>Cipher\<close> (src/crypto/mod.rs): key pairs, session keys, derivation, and the AEAD context
    with its counter. \<open>Stats\<close> (src/stats.rs): the session metrics. \<open>Texts\<close> (also src/error.rs):
    printed texts and the public error type. \<open>Float64\<close>, \<open>Rates\<close>: doubles as correctly rounded
    rationals, and the acceptance and transfer rates computed with them.
  - \<open>Handshake\<close>: the transcript hash, \<open>perform_handshake\<close> (src/client.rs) and the handshake part
    of \<open>handle_client_with_prologue\<close> (src/server.rs). \<open>Transport\<close>: the server's transport loop and
    the whole session of a client. \<open>Client\<close>: configuration, the exchange of one message, the
    interactive session. \<open>Server\<close>: the server object, its accept loop and the client tasks.
    \<open>Verify\<close> (src/verify.rs), \<open>Benchmark\<close> (src/bench.rs), \<open>Cli\<close> (src/main.rs): the self-check, the
    benchmark suite and the command line. \<open>Isolation\<close>: what happens when the two ends disagree
    on the prologue or the server's key. \<open>Examples\<close> (examples/): the mains of the examples.
  - \<open>Testing\<close>, \<open>Protocol_Tests\<close>, \<open>Crypto_Tests\<close>, \<open>Object_Tests\<close>: the unit tests of the source
    modules, run on the model. \<open>Session_Tests\<close>, \<open>Client_Tests\<close>, \<open>Public_Api_Tests\<close>
    (tests/integration_tunnel.rs): the integration tests, where a connection is the byte stream of a
    joint run with the server's client task.

  How state corresponds: a Rust struct is a record with its fields; a method on \<open>&mut self\<close> is
  an action on that record; \<open>self.field.method()\<close> is \<open>onA\<close> with the field's selector and
  update; \<open>?\<close> is \<open>bindA\<close>. A fixed-size array is a byte string; random bytes, clock
  readings, write faults, the timer and the input lines are arguments or parts of the state.
  Every slice of received bytes is one of the partial operations of \<open>Errors\<close>, so that the length
  checks before it are what keeps it from panicking. An operation that opens a connection
  returns it (\<open>None\<close> when there was none or the timer fired), so that a joint run can demand
  that each side reads exactly what the other has written.

  Interfaces are locales, interpreted on the model's own definitions: \<open>replay_guard\<close> (nothing is
  admitted twice: the filter and the decrypting cipher), \<open>codec\<close> (streams of encoded items:
  frames and 64-bit numbers), \<open>channel\<close> (in-order delivery: a pair of ciphers) and
  \<open>machine_invariant\<close> (an invariant of actions holds in every run: the connection counter,
  the configured limit and, with panic-free tasks, the absence of leaks).

  What the lemmas show. \<open>Wire\<close>: parsers accept exactly the serialisations of
  frames within the limit. \<open>Replay\<close>: the bitmap implements the set of accepted
  numbers, counters and edge included. \<open>Cipher\<close>: every ciphertext is sealed under
  the nonce of its counter, these are consecutive and never reused; delivery; the behaviour at the end of the counter.
  \<open>Handshake\<close>: agreement of the two sides, what each has read, checked and sent when it
  goes on, how its keys depend on both secrets and the transcript,
  the verdict on each kind of first frame. \<open>Transport\<close>: the loop refines the
  relation \<open>session_spec\<close>, which is deterministic, for every peer and every write
  fault; it is total, and an honest client is served completely. \<open>End_To_End\<close>:
  client and server joined over their byte streams. \<open>Interactive\<close>: the frames of
  the interactive session as a function of the typed lines. \<open>Dialogue\<close>: the
  interactive session joined with the server. \<open>Determinacy\<close>: every such joint
  run, not only the one constructed, has this outcome, because each side writes before it
  waits. \<open>Integrity\<close>: whatever bytes arrive, as long as the authentic frames that can be
  read off them were sealed by the other side, an attacker can only cut a session
  short, in either direction. \<open>Client_Verdicts\<close>: what each kind of
  response makes the client report. \<open>Safe_Actions\<close> is a weakest precondition for
  the absence of panics; with it \<open>Panic_Freedom\<close> shows that no client makes the
  server panic, so that the connection counter never leaks, and \<open>Client_Safety\<close>
  that no server makes the client panic. \<open>Server\<close>: the connection limit under all
  interleavings, and how a reset under load breaks it. \<open>Rates\<close>: each rate is the
  exact quotient up to stated rounding errors. \<open>Isolation\<close>: the server refuses a
  client of another domain without an answer, and \<open>Refusal\<close> that no joint run
  ends otherwise. \<open>Replayed\<close>: a frame sent once more is refused by the replay
  filter and ends the session; the filter has seen every number below the counter.
  \<open>Session_Tests\<close>: the handshakes and sessions that the integration tests write
  out by hand succeed against the server's task. \<open>Examples\<close> applies this to the
  programs, one of which prints a command that cannot connect.

  Bounds. Loops over the input recurse on its length: every frame takes at least 13 bytes, so
  \<open>length (inbox s) div 13 + 1\<close> turns are enough for the transport loop (theorem
  \<open>transport_turns_bounded\<close>). The properties of an honest session assume fewer than 2^40
  requests, far below the range of the 64-bit counters; the absence of panics is shown for
  connections of fewer than 2^48 bytes and for interactive sessions of fewer than 2^40 lines
  of at most 200000 bytes each. Messages of at most 65511 bytes fit a
  frame, messages of at most 65496 bytes also have an echo that fits.

  Hypotheses on the external crates. \<open>session_primitives\<close> collects what X25519, HKDF and
  ChaCha20-Poly1305 document (lengths, agreement, opening what was sealed). Two statements
  about attackers and mismatches need more, which no total function can satisfy for all
  inputs, and assume it of the bytes of the run in question only: \<open>no_forgery\<close>, that the
  frames which arrive and authenticate were sealed by the key's holder, and
  \<open>first_message_bound\<close>, that SHA-256 does not collide on the two transcripts and that the
  one ciphertext does not open with other associated data than its own.

  Not modelled: the formatting of floating-point numbers and durations (the values are), log and
  banner output (but for the sum that the closing log line of a session computes and that can
  overflow), argument parsing by the clap crate, zeroisation of dropped memory, socket
  addresses and the sleeps with which tests and examples wait for a server, and any computational assumption on the primitives:
  statements about forgery reduce to the frames of a run, not to probabilities.
\<close>

end
